(* ===== verification/Didem_Prelude.thy ===== *)
theory Didem_Prelude
  imports Main "HOL-Library.Word" "HOL-Library.Multiset" "HOL-Library.List_Lexorder"
begin

text \<open>
  Shared vocabulary of the development: the machine types of the Go sources, the error values of
  \<^verbatim>\<open>pkg/storage/errors.go\<close> and the outcome of a Go call (a value, an error value or a panic), and
  the generic lemmas on lists, maps and outcomes that the component theories use.
\<close>

section \<open>Machine types\<close>

type_synonym byte = "8 word"
type_synonym bytes = "byte list"
type_synonym uint8 = "8 word"
type_synonym uint32 = "32 word"
type_synonym uint64 = "64 word"

text \<open>
  Go strings are byte sequences; the model uses HOL strings, whose characters are bytes.
  \<open>string_bytes\<close> is the conversion \<^verbatim>\<open>[]byte(s)\<close> and \<open>bytes_string\<close> is \<^verbatim>\<open>string(b)\<close>.
\<close>

definition string_bytes :: "string \<Rightarrow> bytes" where
  "string_bytes s = map (\<lambda>c. of_nat (of_char c)) s"

definition bytes_string :: "bytes \<Rightarrow> string" where
  "bytes_string b = map (\<lambda>w. char_of (unat w)) b"

section \<open>Errors and outcomes\<close>

text \<open>
  The sentinel errors of \<^verbatim>\<open>pkg/storage/errors.go\<close>, an error made from a message
  (\<^verbatim>\<open>errors.New\<close>, \<^verbatim>\<open>fmt.Errorf\<close>), and an error that wraps another one with a message
  (\<^verbatim>\<open>errors.Wrap\<close> of an error that is not nil).
\<close>

datatype error =
    ErrNotFound
  | ErrDIDAlreadyExists
  | ErrDIDInvalid
  | ErrDIDInvalidSignature
  | ErrOpNotSupported
  | ErrTxVersionNotSupported
  | ErrTxMissingTimestamp
  | ErrTxMissingFrom
  | ErrTxUnsupportedType
  | ErrTxMissingData
  | ErrNew string
  | ErrWrap string error

text \<open>\<^verbatim>\<open>errors.Is(err, target)\<close> looks through the wrappers.\<close>

fun errors_Is :: "error \<Rightarrow> error \<Rightarrow> bool" where
  "errors_Is (ErrWrap m e) t = (ErrWrap m e = t \<or> errors_Is e t)"
| "errors_Is e t = (e = t)"

text \<open>
  The outcome of a Go call: it returns a value, it returns an error that is not nil, it panics
  (a nil dereference, an index out of range, a failed type assertion), or it does not return (a
  loop that never ends).
\<close>

datatype 'a result = Ok 'a | Err error | Panic | Diverge

fun is_Ok :: "'a result \<Rightarrow> bool" where
  "is_Ok (Ok _) = True"
| "is_Ok _ = False"

text \<open>\<open>wrap m r\<close> is the idiom \<^verbatim>\<open>if err != nil { return errors.Wrap(err, m) }\<close>.\<close>

fun wrap :: "string \<Rightarrow> 'a result \<Rightarrow> 'a result" where
  "wrap m (Err e) = Err (ErrWrap m e)"
| "wrap m r = r"

text \<open>Sequencing of outcomes: the first error or panic ends the call.\<close>

fun bindr :: "'a result \<Rightarrow> ('a \<Rightarrow> 'b result) \<Rightarrow> 'b result" where
  "bindr (Ok a) f = f a"
| "bindr (Err e) f = Err e"
| "bindr Panic f = Panic"
| "bindr Diverge f = Diverge"

text \<open>An error (or panic) seen at another result type.\<close>

fun fail_as :: "'a result \<Rightarrow> 'b \<Rightarrow> 'b result" where
  "fail_as (Ok _) b = Ok b"
| "fail_as (Err e) b = Err e"
| "fail_as Panic b = Panic"
| "fail_as Diverge b = Diverge"

section \<open>Byte order\<close>

text \<open>\<^verbatim>\<open>binary.LittleEndian\<close>; reading fewer than four bytes is out of range.\<close>

definition LittleEndian_Uint32 :: "bytes \<Rightarrow> uint32 result" where
  "LittleEndian_Uint32 b =
     (case b of
        b0 # b1 # b2 # b3 # _ \<Rightarrow> Ok (ucast b0 + 256 * ucast b1 + 65536 * ucast b2 + 16777216 * ucast b3)
      | _ \<Rightarrow> Panic)"

definition LittleEndian_PutUint32 :: "uint32 \<Rightarrow> bytes" where
  "LittleEndian_PutUint32 w = [ucast w, ucast (w div 256), ucast (w div 65536), ucast (w div 16777216)]"

section \<open>Operations on a state\<close>

text \<open>
  A method that changes its receiver is an operation on the receiver's state. \<open>andThen\<close> runs the
  second operation when the first one returns no error, \<open>logged\<close> is the idiom of a call whose error
  is only logged, and \<open>inspect\<close> reads the state.
\<close>

type_synonym ('s, 'a) op = "'s \<Rightarrow> 's \<times> 'a result"

definition ret :: "'a \<Rightarrow> ('s, 'a) op" where
  "ret a = (\<lambda>s. (s, Ok a))"

definition raise :: "error \<Rightarrow> ('s, 'a) op" where
  "raise e = (\<lambda>s. (s, Err e))"

definition panic :: "('s, 'a) op" where
  "panic = (\<lambda>s. (s, Panic))"

definition lift :: "'a result \<Rightarrow> ('s, 'a) op" where
  "lift r = (\<lambda>s. (s, r))"

definition modify :: "('s \<Rightarrow> 's) \<Rightarrow> ('s, unit) op" where
  "modify f = (\<lambda>s. (f s, Ok ()))"

definition inspect :: "('s \<Rightarrow> ('s, 'a) op) \<Rightarrow> ('s, 'a) op" where
  "inspect f = (\<lambda>s. f s s)"

definition bindM :: "('s, 'a) op \<Rightarrow> ('a \<Rightarrow> ('s, 'b) op) \<Rightarrow> ('s, 'b) op" where
  "bindM m f = (\<lambda>s. case m s of
       (s', Ok a) \<Rightarrow> f a s'
     | (s', Err e) \<Rightarrow> (s', Err e)
     | (s', Panic) \<Rightarrow> (s', Panic)
     | (s', Diverge) \<Rightarrow> (s', Diverge))"

definition andThen :: "('s, 'a) op \<Rightarrow> ('s, 'b) op \<Rightarrow> ('s, 'b) op" where
  "andThen m n = bindM m (\<lambda>_. n)"

definition wrapM :: "string \<Rightarrow> ('s, 'a) op \<Rightarrow> ('s, 'a) op" where
  "wrapM msg m = (\<lambda>s. case m s of (s', r) \<Rightarrow> (s', wrap msg r))"

definition logged :: "('s, unit) op \<Rightarrow> ('s, unit) op" where
  "logged m = (\<lambda>s. case m s of (s', Err _) \<Rightarrow> (s', Ok ()) | (s', r) \<Rightarrow> (s', r))"

definition whenM :: "bool \<Rightarrow> ('s, unit) op \<Rightarrow> ('s, unit) op" where
  "whenM b m = (if b then m else ret ())"

text \<open>A list of operations, one after the other.\<close>

fun seqM :: "('s, unit) op list \<Rightarrow> ('s, unit) op" where
  "seqM [] = ret ()"
| "seqM (m # ms) = andThen m (seqM ms)"

section \<open>Shared lemmas\<close>

named_theorems outcome_simps \<open>rules that take outcomes apart\<close>

lemma of_char_less_256: "(of_char c :: nat) < 256"
  using of_char_of [of "of_char c :: nat"] by (metis char_of_char mod_less_divisor zero_less_numeral)

lemma unat_of_char_byte [simp]: "unat (of_nat (of_char c) :: byte) = of_char c"
  by (simp add: unat_of_nat of_char_less_256)

lemma bytes_string_string_bytes [simp]: "bytes_string (string_bytes s) = s"
  by (simp add: bytes_string_def string_bytes_def comp_def)

lemma string_bytes_inj [simp]: "string_bytes s = string_bytes t \<longleftrightarrow> s = t"
  by (metis bytes_string_string_bytes)

lemma is_Ok_iff [outcome_simps]: "is_Ok r \<longleftrightarrow> (\<exists>a. r = Ok a)"
  by (cases r) auto

lemma wrap_Ok [outcome_simps]: "wrap m r = Ok a \<longleftrightarrow> r = Ok a"
  by (cases r) auto

lemma wrap_Panic [outcome_simps]: "wrap m r = Panic \<longleftrightarrow> r = Panic"
  by (cases r) auto

lemma wrap_Err [outcome_simps]: "wrap m r = Err e \<longleftrightarrow> (\<exists>e'. r = Err e' \<and> e = ErrWrap m e')"
  by (cases r) auto

lemma bindr_Ok [outcome_simps]: "bindr r f = Ok b \<longleftrightarrow> (\<exists>a. r = Ok a \<and> f a = Ok b)"
  by (cases r) auto

lemma errors_Is_refl [simp]: "errors_Is e e"
  by (cases e) auto

lemma byte_digits:
  assumes "(n::nat) < 4294967296"
  shows "n mod 256 + 256 * (n div 256 mod 256) + 65536 * (n div 65536 mod 256) + 16777216 * (n div 16777216 mod 256) = n"
proof -
  define a b c where abc: "a = n div 256" "b = a div 256" "c = b div 256"
  have "n div 65536 = b" "n div 16777216 = c"
    using div_mult2_eq [of n 256 256] div_mult2_eq [of n 256 65536] div_mult2_eq [of a 256 256] by (simp_all add: abc)
  moreover have "c < 256" using assms by (simp add: abc less_mult_imp_div_less)
  moreover have "n mod 256 + 256 * a = n" "a mod 256 + 256 * b = a" "b mod 256 + 256 * c = b" by (simp_all add: abc)
  ultimately show ?thesis by (simp add: abc(1) [symmetric])
qed

lemma byte_sum:
  fixes w :: uint32
  shows "ucast (ucast w :: byte) + 256 * ucast (ucast (w div 256) :: byte) + 65536 * ucast (ucast (w div 65536) :: byte)
   + 16777216 * ucast (ucast (w div 16777216) :: byte) = w" (is "?l = w")
proof -
  define n where "n = unat w"
  have n: "w = of_nat n" "n < 4294967296" unfolding n_def using unsigned_less [of w] by simp_all
  have u: "ucast (ucast (w div of_nat k) :: byte) = (of_nat (n div k mod 256) :: uint32)" if "k < 4294967296" for k
  proof -
    have "unat (w div of_nat k) = n div k" using that by (simp add: unat_div n_def unat_of_nat)
    then have "unat (ucast (w div of_nat k) :: byte) = n div k mod 256" by (simp add: unsigned_ucast_eq take_bit_eq_mod)
    then show ?thesis by (metis of_nat_unat)
  qed
  have "?l = of_nat (n mod 256 + 256 * (n div 256 mod 256) + 65536 * (n div 65536 mod 256) + 16777216 * (n div 16777216 mod 256))"
    using u [of 1] u [of 256] u [of 65536] u [of 16777216] by simp
  then show ?thesis unfolding byte_digits [OF n(2)] n(1) [symmetric] .
qed
lemma LittleEndian_roundtrip: "LittleEndian_Uint32 (LittleEndian_PutUint32 w @ rest) = Ok w"
  by (simp add: LittleEndian_Uint32_def LittleEndian_PutUint32_def byte_sum)

lemma LittleEndian_length [simp]: "length (LittleEndian_PutUint32 w) = 4"
  by (simp add: LittleEndian_PutUint32_def)

text \<open>An association list with distinct keys is a Go map together with one of its range orders.\<close>

definition alist_ok :: "('k \<times> 'v) list \<Rightarrow> bool" where
  "alist_ok xs \<longleftrightarrow> distinct (map fst xs)"

text \<open>\<^verbatim>\<open>m[k] = v\<close> on such a list.\<close>

fun alist_put :: "'k \<Rightarrow> 'v \<Rightarrow> ('k \<times> 'v) list \<Rightarrow> ('k \<times> 'v) list" where
  "alist_put k v [] = [(k, v)]"
| "alist_put k v ((k', v') # xs) = (if k = k' then (k, v) # xs else (k', v') # alist_put k v xs)"

lemma keys_alist_put [simp]: "fst ` set (alist_put k v xs) = insert k (fst ` set xs)"
  by (induction xs) force+

lemma map_of_alist_put [simp]: "map_of (alist_put k v xs) = (map_of xs)(k \<mapsto> v)"
  by (induction xs) auto

lemma alist_ok_put [simp]: "alist_ok xs \<Longrightarrow> alist_ok (alist_put k v xs)"
  unfolding alist_ok_def
proof (induction xs)
  case Nil
  then show ?case by simp
next
  case (Cons p xs)
  obtain k' v' where p: "p = (k', v')" by (cases p)
  with Cons show ?case by auto
qed

lemma in_set_alist_put: "p \<in> set (alist_put k v xs) \<Longrightarrow> p = (k, v) \<or> p \<in> set xs"
  by (induction xs) (auto split: if_splits)

lemma length_alist_put:
  "length (alist_put k v xs) = (if k \<in> fst ` set xs then length xs else Suc (length xs))"
  by (induction xs) force+

section \<open>Invariants of operations\<close>

text \<open>An operation keeps a property of the state, however it ends.\<close>

definition keepsM :: "('s \<Rightarrow> bool) \<Rightarrow> ('s, 'a) op \<Rightarrow> bool" where
  "keepsM P m \<longleftrightarrow> (\<forall>s. P s \<longrightarrow> P (fst (m s)))"

named_theorems keeps_intros \<open>rules that an operation keeps a property\<close>

lemma keepsM_D: "keepsM P m \<Longrightarrow> P s \<Longrightarrow> P (fst (m s))"
  by (simp add: keepsM_def)

lemma keepsM_ret [keeps_intros]: "keepsM P (ret a)"
  by (simp add: keepsM_def ret_def)

lemma keepsM_raise [keeps_intros]: "keepsM P (raise e)"
  by (simp add: keepsM_def raise_def)

lemma keepsM_panic [keeps_intros]: "keepsM P panic"
  by (simp add: keepsM_def panic_def)

lemma keepsM_lift [keeps_intros]: "keepsM P (lift r)"
  by (simp add: keepsM_def lift_def)

lemma keepsM_modify: "(\<And>s. P s \<Longrightarrow> P (f s)) \<Longrightarrow> keepsM P (modify f)"
  by (simp add: keepsM_def modify_def)

lemma keepsM_inspect [keeps_intros]: "(\<And>s. keepsM P (f s)) \<Longrightarrow> keepsM P (inspect f)"
  by (simp add: keepsM_def inspect_def)

lemma keepsM_bindM [keeps_intros]: "keepsM P m \<Longrightarrow> (\<And>a. keepsM P (f a)) \<Longrightarrow> keepsM P (bindM m f)"
  unfolding keepsM_def
proof (intro allI impI)
  fix s assume m: "\<forall>s. P s \<longrightarrow> P (fst (m s))" and f: "\<And>a. \<forall>s. P s \<longrightarrow> P (fst (f a s))" and "P s"
  then have "P (fst (m s))" by simp
  with f show "P (fst (bindM m f s))"
    by (cases "m s"; cases "snd (m s)") (auto simp: bindM_def)
qed

lemma keepsM_andThen [keeps_intros]: "keepsM P m \<Longrightarrow> keepsM P n \<Longrightarrow> keepsM P (andThen m n)"
  by (simp add: andThen_def keepsM_bindM)

lemma keepsM_wrapM [keeps_intros]: "keepsM P m \<Longrightarrow> keepsM P (wrapM msg m)"
  by (simp add: keepsM_def wrapM_def case_prod_beta)

lemma keepsM_logged [keeps_intros]: "keepsM P m \<Longrightarrow> keepsM P (logged m)"
  unfolding keepsM_def logged_def by (auto split: prod.splits result.splits)

lemma keepsM_whenM [keeps_intros]: "keepsM P m \<Longrightarrow> keepsM P (whenM b m)"
  by (simp add: whenM_def keepsM_ret)

lemma keepsM_if [keeps_intros]: "keepsM P m \<Longrightarrow> keepsM P n \<Longrightarrow> keepsM P (if b then m else n)"
  by simp

lemma keepsM_seqM [keeps_intros]: "(\<And>m. m \<in> set ms \<Longrightarrow> keepsM P m) \<Longrightarrow> keepsM P (seqM ms)"
  by (induction ms) (auto intro: keeps_intros)

lemma keepsM_option [keeps_intros]:
  "keepsM P m \<Longrightarrow> (\<And>x. keepsM P (f x)) \<Longrightarrow> keepsM P (case x of None \<Rightarrow> m | Some x \<Rightarrow> f x)"
  by (cases x) auto

lemma keepsM_inspect_at: "(\<And>s. P s \<Longrightarrow> P (fst (f s s))) \<Longrightarrow> keepsM P (inspect f)"
  by (simp add: keepsM_def inspect_def)

text \<open>Sequences whose parts keep a property once the first one has established it.\<close>

lemma andThen_post:
  assumes "P (fst (m s))" and "keepsM P n"
  shows "P (fst (andThen m n s))"
  using assms by (cases "m s"; cases "snd (m s)") (auto simp: andThen_def bindM_def keepsM_def)

lemma bindM_post:
  assumes "P (fst (m s))" and "\<And>a. keepsM P (f a)"
  shows "P (fst (bindM m f s))"
  using assms by (cases "m s"; cases "snd (m s)") (auto simp: bindM_def keepsM_def)

end
