(* ===== verification/GoHeap.thy ===== *)
theory GoHeap
  imports Didem_Prelude
begin

text \<open>
  Go's \<^verbatim>\<open>container/heap\<close> as the mempool uses it: \<^verbatim>\<open>heap.Init\<close>, \<^verbatim>\<open>heap.Push\<close> and \<^verbatim>\<open>heap.Pop\<close> over a
  slice, with the sift loops \<^verbatim>\<open>up\<close> and \<^verbatim>\<open>down\<close>. The comparison may panic (a nil element), so it
  returns an option and so do the operations: \<open>None\<close> is a panic. The lemmas show that, where the
  comparison is defined and orders by a key, the operations keep the heap order, keep the elements
  and find the least key.
\<close>

section \<open>The operations\<close>

definition swap :: "'a list \<Rightarrow> nat \<Rightarrow> nat \<Rightarrow> 'a list" where
  "swap xs i j = xs[i := xs ! j, j := xs ! i]"

definition parent :: "nat \<Rightarrow> nat" where
  "parent j = (j - 1) div 2"

text \<open>\<^verbatim>\<open>up(h, j)\<close>: move the element at \<open>j\<close> towards the root while it is less than its parent.\<close>

function heap_up :: "('a \<Rightarrow> 'a \<Rightarrow> bool option) \<Rightarrow> 'a list \<Rightarrow> nat \<Rightarrow> 'a list option" where
  "heap_up lt xs j =
     (let i = parent j in
      if i = j then Some xs
      else case lt (xs ! j) (xs ! i) of
             None \<Rightarrow> None
           | Some b \<Rightarrow> if \<not> b then Some xs else heap_up lt (swap xs i j) i)"
  by pat_completeness auto
termination
  by (relation "measure (\<lambda>(lt, xs, j). j)") (auto simp: parent_def)

text \<open>
  \<^verbatim>\<open>down(h, i, n)\<close>: move the element at \<open>i\<close> towards the leaves of the first \<open>n\<close> elements while a
  child is less than it.
\<close>

function heap_down :: "('a \<Rightarrow> 'a \<Rightarrow> bool option) \<Rightarrow> 'a list \<Rightarrow> nat \<Rightarrow> nat \<Rightarrow> 'a list option" where
  "heap_down lt xs i n =
     (let j1 = 2 * i + 1 in
      if j1 \<ge> n then Some xs
      else case (if j1 + 1 < n then lt (xs ! (j1 + 1)) (xs ! j1) else Some False) of
             None \<Rightarrow> None
           | Some right \<Rightarrow>
               (let j = (if right then j1 + 1 else j1) in
                case lt (xs ! j) (xs ! i) of
                  None \<Rightarrow> None
                | Some b \<Rightarrow> if \<not> b then Some xs else heap_down lt (swap xs i j) j n))"
  by pat_completeness auto
termination
  by (relation "measure (\<lambda>(lt, xs, i, n). n - i)") auto

declare heap_up.simps [simp del] heap_down.simps [simp del]

text \<open>\<^verbatim>\<open>heap.Init\<close>: sift down every inner node, from the last to the root.\<close>

fun heap_init_from :: "('a \<Rightarrow> 'a \<Rightarrow> bool option) \<Rightarrow> 'a list \<Rightarrow> nat \<Rightarrow> 'a list option" where
  "heap_init_from lt xs 0 = Some xs"
| "heap_init_from lt xs (Suc i) =
     (case heap_down lt xs i (length xs) of
        None \<Rightarrow> None
      | Some ys \<Rightarrow> heap_init_from lt ys i)"

definition heap_Init :: "('a \<Rightarrow> 'a \<Rightarrow> bool option) \<Rightarrow> 'a list \<Rightarrow> 'a list option" where
  "heap_Init lt xs = heap_init_from lt xs (length xs div 2)"

definition heap_Push :: "('a \<Rightarrow> 'a \<Rightarrow> bool option) \<Rightarrow> 'a list \<Rightarrow> 'a \<Rightarrow> 'a list option" where
  "heap_Push lt xs x = heap_up lt (xs @ [x]) (length xs)"

text \<open>\<^verbatim>\<open>heap.Pop\<close>; on an empty heap its first swap is out of range.\<close>

definition heap_Pop :: "('a \<Rightarrow> 'a \<Rightarrow> bool option) \<Rightarrow> 'a list \<Rightarrow> ('a \<times> 'a list) option" where
  "heap_Pop lt xs =
     (if xs = [] then None
      else let n = length xs - 1 in
           case heap_down lt (swap xs 0 n) 0 n of
             None \<Rightarrow> None
           | Some ys \<Rightarrow> Some (last ys, butlast ys))"

section \<open>Heap order\<close>

text \<open>
  The first \<open>n\<close> elements are in heap order by the key \<open>k\<close>, except that the edge conditions at \<open>P\<close>
  are left out.
\<close>

definition heap_except :: "('a \<Rightarrow> 'k::linorder) \<Rightarrow> 'a list \<Rightarrow> nat \<Rightarrow> (nat \<Rightarrow> bool) \<Rightarrow> bool" where
  "heap_except k xs n P \<longleftrightarrow>
     (\<forall>m<n. 0 < m \<longrightarrow> \<not> P m \<longrightarrow> k (xs ! parent m) \<le> k (xs ! m))"

definition is_heap :: "('a \<Rightarrow> 'k::linorder) \<Rightarrow> 'a list \<Rightarrow> bool" where
  "is_heap k xs \<longleftrightarrow> heap_except k xs (length xs) (\<lambda>m. False)"

definition less_by :: "('a \<Rightarrow> 'a \<Rightarrow> bool option) \<Rightarrow> ('a \<Rightarrow> 'k::linorder) \<Rightarrow> 'a set \<Rightarrow> bool" where
  "less_by lt k A \<longleftrightarrow> (\<forall>x\<in>A. \<forall>y\<in>A. lt x y = Some (k x < k y))"

definition skips_to :: "('a \<Rightarrow> 'k::linorder) \<Rightarrow> 'a list \<Rightarrow> nat \<Rightarrow> nat \<Rightarrow> bool" where
  "skips_to k xs n j \<longleftrightarrow>
     (\<forall>m<n. 0 < m \<longrightarrow> parent m = j \<longrightarrow> 0 < j \<longrightarrow> k (xs ! parent j) \<le> k (xs ! m))"

lemma length_swap [simp]: "length (swap xs i j) = length xs"
  by (simp add: swap_def)

lemma mset_swap' [simp]: "i < length xs \<Longrightarrow> j < length xs \<Longrightarrow> mset (swap xs i j) = mset xs"
  by (simp add: swap_def mset_swap)

lemma set_swap' [simp]: "i < length xs \<Longrightarrow> j < length xs \<Longrightarrow> set (swap xs i j) = set xs"
  by (metis mset_swap' mset_eq_setD)

lemma nth_swap:
  "i < length xs \<Longrightarrow> j < length xs \<Longrightarrow> m < length xs \<Longrightarrow>
     swap xs i j ! m = (if m = j then xs ! i else if m = i then xs ! j else xs ! m)"
  by (auto simp: swap_def nth_list_update)

lemma less_byD: "less_by lt k (set xs) \<Longrightarrow> i < length xs \<Longrightarrow> j < length xs \<Longrightarrow>
    lt (xs ! i) (xs ! j) = Some (k (xs ! i) < k (xs ! j))"
  by (simp add: less_by_def)

lemma parent_less: "0 < j \<Longrightarrow> parent j < j"
  by (simp add: parent_def)

lemma parent_eq_self: "parent j = j \<longleftrightarrow> j = 0"
  by (auto simp: parent_def)

lemma heap_exceptD: "heap_except k xs n P \<Longrightarrow> m < n \<Longrightarrow> 0 < m \<Longrightarrow> \<not> P m \<Longrightarrow>
    k (xs ! parent m) \<le> k (xs ! m)"
  by (simp add: heap_except_def)

section \<open>Sifting up\<close>

lemma up_step_order:
  assumes "heap_except k xs n (\<lambda>m. m = j)" and "skips_to k xs n j"
    and "n \<le> length xs" and "j < n" and "0 < j" and ltk: "k (xs ! j) < k (xs ! parent j)"
  shows "heap_except k (swap xs (parent j) j) n (\<lambda>m. m = parent j)"
  unfolding heap_except_def
proof (intro allI impI)
  fix m assume m: "m < n" "0 < m" "m \<noteq> parent j"
  let ?i = "parent j"
  have i: "?i < j" "?i < length xs" "j < length xs" "m < length xs" "parent m < length xs"
    using assms m parent_less [of j] parent_less [of m] by auto
  show "k (swap xs ?i j ! parent m) \<le> k (swap xs ?i j ! m)"
  proof (cases "m = j")
    case True
    then show ?thesis using i ltk by (simp add: nth_swap)
  next
    case False
    then have "k (xs ! parent m) \<le> k (xs ! m)" using assms(1) m by (auto dest: heap_exceptD)
    moreover have "parent m = j \<Longrightarrow> k (xs ! ?i) \<le> k (xs ! m)"
      using assms(2,5) m by (auto simp: skips_to_def)
    ultimately show ?thesis using False i m ltk by (auto simp: nth_swap)
  qed
qed

lemma up_step_skips:
  assumes "heap_except k xs n (\<lambda>m. m = j)"
    and "n \<le> length xs" and "j < n" and "0 < j" and ltk: "k (xs ! j) < k (xs ! parent j)"
  shows "skips_to k (swap xs (parent j) j) n (parent j)"
  unfolding skips_to_def
proof (intro allI impI)
  fix m assume m: "m < n" "0 < m" "parent m = parent j" "0 < parent j"
  let ?i = "parent j"
  have i: "?i < j" "parent ?i < ?i" "j < length xs" "m < length xs"
    using assms m parent_less [of j] parent_less [of ?i] by auto
  have up: "k (xs ! parent ?i) \<le> k (xs ! ?i)"
    using heap_exceptD [OF assms(1), of ?i] i assms m by auto
  moreover have "m \<noteq> j \<Longrightarrow> k (xs ! ?i) \<le> k (xs ! m)"
    using heap_exceptD [OF assms(1), of m] m by auto
  moreover have "m \<noteq> ?i" using m parent_less [of m] by auto
  ultimately show "k (swap xs ?i j ! parent ?i) \<le> k (swap xs ?i j ! m)"
    using i by (auto simp: nth_swap)
qed

lemma heap_up_correct:
  assumes "less_by lt k (set xs)" and "j < length xs"
    and "heap_except k xs (length xs) (\<lambda>m. m = j)" and "skips_to k xs (length xs) j"
  shows "\<exists>ys. heap_up lt xs j = Some ys \<and> is_heap k ys \<and> mset ys = mset xs"
  using assms
proof (induction lt xs j rule: heap_up.induct)
  case (1 lt xs j)
  let ?i = "parent j"
  show ?case
  proof (cases "?i = j")
    case True
    then have "j = 0" by (simp add: parent_eq_self)
    with 1(4) have "is_heap k xs" by (simp add: is_heap_def heap_except_def)
    with True show ?thesis by (simp add: heap_up.simps [of lt xs j])
  next
    case False
    then have j: "0 < j" "?i < j" "?i < length xs"
      using parent_less [of j] 1(3) by (auto simp: parent_eq_self)
    have less: "lt (xs ! j) (xs ! ?i) = Some (k (xs ! j) < k (xs ! ?i))"
      using 1(2) 1(3) j(3) by (rule less_byD)
    show ?thesis
    proof (cases "k (xs ! j) < k (xs ! ?i)")
      case True
      have "heap_up lt xs j = heap_up lt (swap xs ?i j) ?i"
        using False less True by (simp add: heap_up.simps [of lt xs j] Let_def)
      moreover have "\<exists>ys. heap_up lt (swap xs ?i j) ?i = Some ys \<and> is_heap k ys \<and>
          mset ys = mset (swap xs ?i j)"
        using 1(2-5) j False less True
        by (intro "1.IH") (auto intro: up_step_order up_step_skips)
      ultimately show ?thesis using j 1(3) by simp
    next
      case no: False
      have "heap_except k xs (length xs) (\<lambda>m. False)"
        using 1(4) no by (auto simp: heap_except_def)
      with False less no show ?thesis
        by (auto simp: heap_up.simps [of lt xs j] is_heap_def)
    qed
  qed
qed

section \<open>Sifting down\<close>

lemma parent_child: "0 < m \<Longrightarrow> parent m = i \<longleftrightarrow> m = 2 * i + 1 \<or> m = 2 * i + 2"
  by (auto simp: parent_def)

lemma down_step_order:
  assumes "heap_except k xs n (\<lambda>m. parent m = i)" and "skips_to k xs n i"
    and "n \<le> length xs" and j: "0 < j" "j < n" "parent j = i"
    and least: "\<And>m. m < n \<Longrightarrow> 0 < m \<Longrightarrow> parent m = i \<Longrightarrow> k (xs ! j) \<le> k (xs ! m)"
    and ltk: "k (xs ! j) < k (xs ! i)"
  shows "heap_except k (swap xs i j) n (\<lambda>m. parent m = j)"
  unfolding heap_except_def
proof (intro allI impI)
  fix m assume m: "m < n" "0 < m" "parent m \<noteq> j"
  have b: "i < j" "i < length xs" "j < length xs" "m < length xs" "parent m < length xs"
      "parent m < m"
    using assms m parent_less [of j] parent_less [of m] by auto
  show "k (swap xs i j ! parent m) \<le> k (swap xs i j ! m)"
  proof (cases "parent m = i")
    case True
    then show ?thesis using b m ltk least [of m] by (auto simp: nth_swap)
  next
    case False
    then have "k (xs ! parent m) \<le> k (xs ! m)" using assms(1) m by (auto dest: heap_exceptD)
    moreover have "m = i \<Longrightarrow> k (xs ! parent i) \<le> k (xs ! j)"
      using assms(2) j m by (auto simp: skips_to_def)
    ultimately show ?thesis using False b m j by (auto simp: nth_swap)
  qed
qed

lemma down_step_skips:
  assumes "heap_except k xs n (\<lambda>m. parent m = i)"
    and "n \<le> length xs" and j: "0 < j" "j < n" "parent j = i"
  shows "skips_to k (swap xs i j) n j"
  unfolding skips_to_def
proof (intro allI impI)
  fix m assume m: "m < n" "0 < m" "parent m = j" "0 < j"
  have b: "i < j" "j < m" "j < length xs" "m < length xs"
    using assms m parent_less [of j] parent_less [of m] by auto
  have "k (xs ! j) \<le> k (xs ! m)"
    using heap_exceptD [OF assms(1), of m] m b by auto
  then show "k (swap xs i j ! parent j) \<le> k (swap xs i j ! m)"
    using b j by (auto simp: nth_swap)
qed

text \<open>The child \<^verbatim>\<open>down\<close> compares with is the least of the children.\<close>

lemma least_child:
  assumes "less_by lt k (set xs)" and "n \<le> length xs" and "2 * i + 1 < n"
  obtains j where
    "(if 2 * i + 2 < n then lt (xs ! (2 * i + 2)) (xs ! (2 * i + 1)) else Some False)
       = Some (j = 2 * i + 2)"
    "j = 2 * i + 1 \<or> j = 2 * i + 2" "j < n"
    "\<And>m. m < n \<Longrightarrow> 0 < m \<Longrightarrow> parent m = i \<Longrightarrow> k (xs ! j) \<le> k (xs ! m)"
proof (cases "2 * i + 2 < n \<and> k (xs ! (2 * i + 2)) < k (xs ! (2 * i + 1))")
  case True
  then show ?thesis
    using assms less_byD [OF assms(1), of "2 * i + 2" "2 * i + 1"]
    by (intro that [of "2 * i + 2"]) (auto simp: parent_child)
next
  case False
  then show ?thesis
    using assms less_byD [OF assms(1), of "2 * i + 2" "2 * i + 1"]
    by (intro that [of "2 * i + 1"]) (auto simp: parent_child)
qed

lemma heap_down_step:
  assumes "2 * i + 1 < n"
    and "(if 2 * i + 2 < n then lt (xs ! (2 * i + 2)) (xs ! (2 * i + 1)) else Some False)
           = Some (j = 2 * i + 2)"
    and "j = 2 * i + 1 \<or> j = 2 * i + 2"
    and "lt (xs ! j) (xs ! i) = Some b"
  shows "heap_down lt xs i n = (if b then heap_down lt (swap xs i j) j n else Some xs)"
  using assms by (subst heap_down.simps) (auto simp: Let_def split: if_splits)

lemma heap_down_correct:
  assumes "less_by lt k (set xs)" and "n \<le> length xs" and "i < n \<or> n = i"
    and "heap_except k xs n (\<lambda>m. parent m = i)" and "skips_to k xs n i"
  shows "\<exists>ys. heap_down lt xs i n = Some ys \<and> heap_except k ys n (\<lambda>m. False)
           \<and> mset ys = mset xs \<and> drop n ys = drop n xs"
  using assms
proof (induction "n - i" arbitrary: xs i rule: less_induct)
  case less
  show ?case
  proof (cases "2 * i + 1 < n")
    case False
    then have "heap_except k xs n (\<lambda>m. False)"
      using less(5) by (auto simp: heap_except_def parent_child)
    with False show ?thesis by (simp add: heap_down.simps [of lt xs i n] Let_def)
  next
    case True
    obtain j where j: "(if 2 * i + 2 < n then lt (xs ! (2 * i + 2)) (xs ! (2 * i + 1))
          else Some False) = Some (j = 2 * i + 2)"
        "j = 2 * i + 1 \<or> j = 2 * i + 2" "j < n"
      and least: "\<And>m. m < n \<Longrightarrow> 0 < m \<Longrightarrow> parent m = i \<Longrightarrow> k (xs ! j) \<le> k (xs ! m)"
      by (rule least_child [OF less(2,3) True]) blast
    then have pj: "0 < j" "parent j = i" "i < j" "i < length xs" "j < length xs"
      using less(3) by (auto simp: parent_def)
    have step: "heap_down lt xs i n =
        (if k (xs ! j) < k (xs ! i) then heap_down lt (swap xs i j) j n else Some xs)"
      using True j(1,2) less_byD [OF less(2) pj(5,4)] by (rule heap_down_step)
    show ?thesis
    proof (cases "k (xs ! j) < k (xs ! i)")
      case True
      have "\<exists>ys. heap_down lt (swap xs i j) j n = Some ys \<and> heap_except k ys n (\<lambda>m. False)
           \<and> mset ys = mset (swap xs i j) \<and> drop n ys = drop n (swap xs i j)"
        using less(2-6) pj j(3) True least
        by (intro less(1)) (auto intro: down_step_order down_step_skips)
      moreover have "drop n (swap xs i j) = drop n xs"
        using pj j(3) by (simp add: swap_def)
      ultimately show ?thesis using True step pj by simp
    next
      case False
      have "heap_except k xs n (\<lambda>m. False)"
        unfolding heap_except_def
      proof (intro allI impI)
        fix m assume m: "m < n" "0 < m"
        then show "k (xs ! parent m) \<le> k (xs ! m)"
          using heap_exceptD [OF less(5), of m] least [of m] False by (cases "parent m = i") auto
      qed
      with False step show ?thesis by simp
    qed
  qed
qed

section \<open>The interface operations\<close>

lemma heap_Push_correct:
  assumes "less_by lt k (insert x (set xs))" and "is_heap k xs"
  shows "\<exists>ys. heap_Push lt xs x = Some ys \<and> is_heap k ys \<and> mset ys = add_mset x (mset xs)"
proof -
  have "heap_except k (xs @ [x]) (length (xs @ [x])) (\<lambda>m. m = length xs)"
    unfolding heap_except_def
  proof (intro allI impI)
    fix m assume m: "m < length (xs @ [x])" "0 < m" "m \<noteq> length xs"
    then have "parent m < m" "m < length xs" by (auto simp: parent_less)
    then show "k ((xs @ [x]) ! parent m) \<le> k ((xs @ [x]) ! m)"
      using assms(2) m by (simp add: is_heap_def heap_except_def nth_append)
  qed
  moreover have "skips_to k (xs @ [x]) (length (xs @ [x])) (length xs)"
    by (auto simp: skips_to_def parent_def)
  ultimately have "\<exists>ys. heap_up lt (xs @ [x]) (length xs) = Some ys \<and> is_heap k ys
      \<and> mset ys = mset (xs @ [x])"
    using assms(1) by (intro heap_up_correct) auto
  then show ?thesis by (simp add: heap_Push_def)
qed

text \<open>The root of a heap has the least key.\<close>

lemma is_heap_root_least:
  assumes "is_heap k xs" and "m < length xs"
  shows "k (xs ! 0) \<le> k (xs ! m)"
  using assms(2)
proof (induction m rule: less_induct)
  case (less m)
  show ?case
  proof (cases "m = 0")
    case False
    then have "parent m < m" by (simp add: parent_less)
    with less have "k (xs ! 0) \<le> k (xs ! parent m)" by simp
    also have "\<dots> \<le> k (xs ! m)"
      using assms(1) less.prems False by (simp add: is_heap_def heap_except_def)
    finally show ?thesis .
  qed simp
qed

lemma heap_Pop_correct:
  assumes "less_by lt k (set xs)" and "is_heap k xs" and "xs \<noteq> []"
  shows "\<exists>ys. heap_Pop lt xs = Some (xs ! 0, ys) \<and> is_heap k ys \<and>
           mset xs = add_mset (xs ! 0) (mset ys)"
proof -
  obtain n where n: "length xs = Suc n" using assms(3) by (cases "length xs") auto
  let ?s = "swap xs 0 n"
  have "heap_except k ?s n (\<lambda>m. parent m = 0)"
    unfolding heap_except_def
  proof (intro allI impI)
    fix m assume m: "m < n" "0 < m" "parent m \<noteq> 0"
    then have "parent m < m" by (simp add: parent_less)
    then show "k (?s ! parent m) \<le> k (?s ! m)"
      using assms(2) n m by (simp add: is_heap_def heap_except_def nth_swap)
  qed
  moreover have "skips_to k ?s n 0" by (simp add: skips_to_def)
  moreover have "less_by lt k (set ?s)" using assms(1) n by simp
  ultimately obtain ys where ys: "heap_down lt ?s 0 n = Some ys"
      "heap_except k ys n (\<lambda>m. False)" "mset ys = mset ?s" "drop n ys = drop n ?s"
    using heap_down_correct [of lt k ?s n 0] n by auto
  have len: "length ys = Suc n" using ys(3) n by (metis length_swap size_mset)
  then obtain zs z where zs: "ys = zs @ [z]" "length zs = n"
    by (cases ys rule: rev_cases) auto
  have "[z] = drop n ?s" using ys(4) zs by simp
  then have z: "z = xs ! 0"
    using n by (metis Cons_nth_drop_Suc length_swap lessI list.inject nth_swap zero_less_Suc)
  have "is_heap k zs"
    unfolding is_heap_def heap_except_def
  proof (intro allI impI)
    fix m assume m: "m < length zs" "0 < m"
    then have "parent m < m" by (simp add: parent_less)
    then show "k (zs ! parent m) \<le> k (zs ! m)"
      using heap_exceptD [OF ys(2), of m] m zs by (simp add: nth_append)
  qed
  moreover have "mset xs = add_mset z (mset zs)" using ys(3) zs n by simp
  ultimately show ?thesis using ys(1) n zs z by (auto simp: heap_Pop_def Let_def)
qed

text \<open>\<^verbatim>\<open>heap.Init\<close> on a slice of fewer than two elements leaves it as it is.\<close>

lemma heap_Init_small: "length xs < 2 \<Longrightarrow> heap_Init lt xs = Some xs"
  by (simp add: heap_Init_def)

lemma is_heap_small: "length xs < 2 \<Longrightarrow> is_heap k xs"
  by (auto simp: is_heap_def heap_except_def)

end
