(* ===== verification/Tx_Model.thy ===== *)
theory Tx_Model
  imports Didem_Prelude
begin

text \<open>
  The data of a transaction: \<^verbatim>\<open>pkg/cryptography/cryptography.go\<close> (verification methods),
  \<^verbatim>\<open>pkg/did/w3cdid/document.go\<close> (DID documents), \<^verbatim>\<open>pkg/tx\<close> (transactions and their payloads), the
  block structures of \<^verbatim>\<open>pkg/storage/chain.go\<close> that third-party codecs see, and the record of the
  third-party operations the storage code calls. \<^verbatim>\<open>Tx.Marshal\<close> and the two-pass \<^verbatim>\<open>Tx.Unmarshal\<close>
  follow.
\<close>

section \<open>Documents\<close>

text \<open>
  The JSON web key of a verification method is a third-party value no code here reads; it is
  carried as opaque bytes.
\<close>

record VerificationMethod =
  vm_ID :: string
  vm_Type :: string
  vm_Controller :: string
  vm_PublicKeyJwk :: "bytes option"
  vm_PublicKeyMultibase :: string

record Service =
  svc_ID :: string
  svc_Type :: string
  svc_ServiceEndpoint :: string

record Document =
  doc_Context :: "string list"
  doc_ID :: string
  doc_AlsoKnownAs :: "string list"
  doc_Controller :: "string list"
  doc_VerificationMethod :: "VerificationMethod list"
  doc_Authentication :: "VerificationMethod list"
  doc_AssertionMethod :: "VerificationMethod list"
  doc_KeyAgreement :: "VerificationMethod list"
  doc_CapabilityInvocation :: "VerificationMethod list"
  doc_CapabilityDelegation :: "VerificationMethod list"
  doc_Service :: "Service list"

section \<open>Transactions\<close>

record DID =
  did_Document :: "Document option"

record Node =
  node_Id :: string
  node_Did :: string
  node_Key :: bytes

text \<open>
  The dynamic type of the interface value \<^verbatim>\<open>Tx.Data\<close>: nil, the two payload structs, the raw
  message \<^verbatim>\<open>Tx.Unmarshal\<close> decodes into first, or any other value (what the codec makes of an
  untyped payload).
\<close>

datatype TxData =
    DataNil
  | DataDID DID
  | DataNode Node
  | DataRaw bytes
  | DataOther bytes

type_synonym TxType = "8 word"
type_synonym TxAction = "8 word"

abbreviation Version1 :: uint8 where "Version1 \<equiv> 1"

abbreviation TxType_DID :: TxType where "TxType_DID \<equiv> 1"
abbreviation TxType_VC :: TxType where "TxType_VC \<equiv> 2"
abbreviation TxType_Node :: TxType where "TxType_Node \<equiv> 3"

abbreviation TxActionAdd :: TxAction where "TxActionAdd \<equiv> 1"
abbreviation TxActionUpdate :: TxAction where "TxActionUpdate \<equiv> 2"
abbreviation TxActionRevoke :: TxAction where "TxActionRevoke \<equiv> 3"

record Tx =
  tx_Version :: uint8
  tx_Ts :: int
  tx_From :: string
  tx_Type :: TxType
  tx_Action :: TxAction
  tx_Data :: TxData
  tx_Signature :: bytes

text \<open>
  A content identifier is a third-party comparable value; its carrier is the string of its binary
  form and every operation on it is a parameter (below). \<^verbatim>\<open>tx.TxID\<close> and \<^verbatim>\<open>storage.BlockID\<close> are
  the same type under other names.
\<close>

type_synonym cid = string

section \<open>Blocks and transaction sets\<close>

record Block =
  b_Version :: uint32
  b_ID :: cid
  b_Parent :: cid
  b_Height :: uint64
  b_CreatedAt :: int
  b_Proposer :: string
  b_Signature :: bytes
  b_Nonce :: bytes
  b_Bloom :: bytes
  b_TxRoot :: cid

record TxSet =
  ts_Children :: "cid list"
  ts_Tx :: "cid option"
  ts_cid :: cid

record GenesisInfo =
  g_ChainID :: string
  g_Block :: Block
  g_Txs :: "Tx list"

section \<open>Third-party operations\<close>

text \<open>What the decode target's \<^verbatim>\<open>Data\<close> field points to when a transaction is decoded.\<close>

datatype data_kind = KindRaw | KindDID | KindNode

text \<open>
  The operations of go-cid, go-multihash, go-multibase, msgpack, the bloom filter, the signature
  schemes and \<^verbatim>\<open>pkg/errors\<close> that the code calls, as parameters of the model. An option result is
  \<open>None\<close> where the call returns an error. A transaction set is encoded by its two exported fields.
\<close>

record lib =
  cid_Undef :: cid
  cid_String :: "cid \<Rightarrow> string"
  cid_Bytes :: "cid \<Rightarrow> bytes"
  cid_Parse :: "string \<Rightarrow> cid option"
  cid_ParseCid :: "cid \<Rightarrow> cid option"
  cid_Cast :: "bytes \<Rightarrow> cid option"
  cid_NewCidV1_Raw :: "bytes \<Rightarrow> cid"
  mh_Sum_SHA3_256 :: "bytes \<Rightarrow> bytes"
  mb_Decode :: "string \<Rightarrow> bytes option"
  mp_enc_tx :: "Tx \<Rightarrow> bytes option"
  mp_dec_tx :: "data_kind \<Rightarrow> bytes \<Rightarrow> Tx option"
  mp_enc_block :: "Block \<Rightarrow> bytes option"
  mp_dec_block :: "bytes \<Rightarrow> Block option"
  mp_enc_set :: "cid list \<Rightarrow> cid option \<Rightarrow> bytes option"
  mp_dec_set :: "bytes \<Rightarrow> (cid list \<times> cid option) option"
  mp_dec_doc :: "bytes \<Rightarrow> Document option"
  bloom_New :: "nat \<Rightarrow> bool list"
  bloom_Add :: "bool list \<Rightarrow> bytes \<Rightarrow> bool list"
  bloom_Test :: "bool list \<Rightarrow> bytes \<Rightarrow> bool"
  bloom_GobEncode :: "bool list \<Rightarrow> bytes option"
  bloom_GobDecode :: "bytes \<Rightarrow> bool list option"
  errors_Wrap_nil :: "string \<Rightarrow> error option"
  ed25519_Verify :: "bytes \<Rightarrow> bytes \<Rightarrow> bytes \<Rightarrow> bool"
  sha512_Sum :: "bytes \<Rightarrow> bytes"
  bls_Unmarshal :: "bytes \<Rightarrow> bytes option"
  bls_Verify :: "bytes \<Rightarrow> bytes \<Rightarrow> bytes \<Rightarrow> bool"
  secp_Unmarshal :: "bytes \<Rightarrow> bytes option"
  secp_Verify :: "bytes \<Rightarrow> bytes \<Rightarrow> bytes \<Rightarrow> bool"
  url_authority_ok :: "string \<Rightarrow> bool"

section \<open>Marshalling of transactions\<close>

definition Tx_Marshal :: "'z lib_scheme \<Rightarrow> Tx \<Rightarrow> bytes result" where
  "Tx_Marshal L t =
     (case mp_enc_tx L t of
        None \<Rightarrow> Err (ErrWrap ''mashaling tx'' (ErrNew ''msgpack''))
      | Some b \<Rightarrow> Ok b)"

text \<open>
  \<^verbatim>\<open>Tx.Unmarshal\<close> decodes twice: first with a raw payload to learn the type, then with the
  payload struct of that type (a credential stays raw).
\<close>

definition Tx_Unmarshal :: "'z lib_scheme \<Rightarrow> bytes \<Rightarrow> Tx result" where
  "Tx_Unmarshal L b =
     (case mp_dec_tx L KindRaw b of
        None \<Rightarrow> Err (ErrNew ''msgpack'')
      | Some t0 \<Rightarrow>
          let ty = tx_Type t0 in
          if ty \<noteq> TxType_DID \<and> ty \<noteq> TxType_VC \<and> ty \<noteq> TxType_Node
          then Err (ErrNew ''unknown tx data type'')
          else let kind = (if ty = TxType_DID then KindDID
                           else if ty = TxType_VC then KindRaw else KindNode) in
               case mp_dec_tx L kind b of
                 None \<Rightarrow> Err (ErrNew ''msgpack'')
               | Some t \<Rightarrow> Ok t)"

text \<open>The payload struct a transaction of a known type carries.\<close>

fun tx_typed :: "Tx \<Rightarrow> bool" where
  "tx_typed t =
     (case tx_Data t of
        DataDID _ \<Rightarrow> tx_Type t = TxType_DID
      | DataNode _ \<Rightarrow> tx_Type t = TxType_Node
      | DataRaw _ \<Rightarrow> tx_Type t = TxType_VC
      | _ \<Rightarrow> False)"

text \<open>
  The codec's contract on one transaction: decoding its bytes gives back its header whatever the
  payload target is, and the transaction itself when the target is its payload's type.
\<close>

definition codec_tx_ok :: "'z lib_scheme \<Rightarrow> Tx \<Rightarrow> bool" where
  "codec_tx_ok L t \<longleftrightarrow>
     (\<exists>b. mp_enc_tx L t = Some b
        \<and> (\<exists>t0. mp_dec_tx L KindRaw b = Some t0 \<and> tx_Type t0 = tx_Type t)
        \<and> (case tx_Data t of
             DataDID _ \<Rightarrow> mp_dec_tx L KindDID b = Some t
           | DataNode _ \<Rightarrow> mp_dec_tx L KindNode b = Some t
           | _ \<Rightarrow> mp_dec_tx L KindRaw b = Some t))"

lemma Tx_Unmarshal_Marshal:
  assumes "tx_typed t" and "codec_tx_ok L t"
  shows "\<exists>b. Tx_Marshal L t = Ok b \<and> Tx_Unmarshal L b = Ok t"
  using assms
  by (cases "tx_Data t") (auto simp: codec_tx_ok_def Tx_Marshal_def Tx_Unmarshal_def Let_def)

lemma Tx_Unmarshal_type:
  assumes "Tx_Unmarshal L b = Ok t"
  shows "\<exists>t0. mp_dec_tx L KindRaw b = Some t0 \<and> tx_Type t0 \<in> {TxType_DID, TxType_VC, TxType_Node}"
  using assms by (auto simp: Tx_Unmarshal_def Let_def split: option.splits if_splits)

end
