(* ===== verification/MemPool_Model.thy ===== *)
theory MemPool_Model
  imports GoHeap Tx_Model
begin

text \<open>
  \<^verbatim>\<open>pkg/did/consensus/mempool.go\<close>: the pool of pending transactions. The \<^verbatim>\<open>MemPool\<close> interface is a
  locale with the contract its client, the block builder, relies on; \<^verbatim>\<open>TxMemPool\<close> is the binary
  heap over a slice of transaction pointers (\<open>None\<close> is a nil pointer), and the interpretation
  discharges the contract for it.
\<close>

section \<open>TxMemPool\<close>

record TxMemPool =
  plist :: "Tx option list"

text \<open>\<^verbatim>\<open>Less\<close> reads both timestamps, so it panics on a nil pointer.\<close>

fun TxMemPool_Less :: "Tx option \<Rightarrow> Tx option \<Rightarrow> bool option" where
  "TxMemPool_Less (Some a) (Some b) = Some (tx_Ts a < tx_Ts b)"
| "TxMemPool_Less _ _ = None"

definition NewTxMemPool :: "TxMemPool result" where
  "NewTxMemPool =
     (case heap_Init TxMemPool_Less [] of None \<Rightarrow> Panic | Some l \<Rightarrow> Ok \<lparr>plist = l\<rparr>)"

definition TxMemPool_Len :: "TxMemPool \<Rightarrow> nat" where
  "TxMemPool_Len m = length (plist m)"

definition TxMemPool_GetTx :: "TxMemPool \<Rightarrow> (Tx option \<times> TxMemPool) result" where
  "TxMemPool_GetTx m =
     (if TxMemPool_Len m > 0 then
        case heap_Pop TxMemPool_Less (plist m) of
          None \<Rightarrow> Panic
        | Some (t, l) \<Rightarrow> Ok (t, m\<lparr>plist := l\<rparr>)
      else Ok (None, m))"

definition TxMemPool_AddTx :: "TxMemPool \<Rightarrow> Tx option \<Rightarrow> int \<Rightarrow> TxMemPool result" where
  "TxMemPool_AddTx m t expires =
     (case heap_Push TxMemPool_Less (plist m) t of
        None \<Rightarrow> Panic
      | Some l \<Rightarrow> Ok (m\<lparr>plist := l\<rparr>))"

text \<open>The pool's abstraction: the multiset of its transactions, and the heap invariant.\<close>

definition ptr_key :: "Tx option \<Rightarrow> int" where
  "ptr_key p = tx_Ts (the p)"

definition pool_ok :: "TxMemPool \<Rightarrow> bool" where
  "pool_ok m \<longleftrightarrow> None \<notin> set (plist m) \<and> is_heap ptr_key (plist m)"

definition pool_txs :: "TxMemPool \<Rightarrow> Tx multiset" where
  "pool_txs m = image_mset the (mset (plist m))"

text \<open>
  The block builder's loop over the pool (\<^verbatim>\<open>blocks.go\<close>): take up to \<open>n\<close> transactions, stopping at
  a nil.
\<close>

fun drain :: "('p \<Rightarrow> (Tx option \<times> 'p) result) \<Rightarrow> nat \<Rightarrow> 'p \<Rightarrow> (Tx list \<times> 'p) result" where
  "drain get 0 p = Ok ([], p)"
| "drain get (Suc n) p =
     (case get p of
        Ok (None, p') \<Rightarrow> Ok ([], p')
      | Ok (Some t, p') \<Rightarrow>
          (case drain get n p' of
             Ok (ts, p'') \<Rightarrow> Ok (t # ts, p'')
           | r \<Rightarrow> r)
      | Err e \<Rightarrow> Err e
      | Panic \<Rightarrow> Panic
      | Diverge \<Rightarrow> Diverge)"

section \<open>The MemPool interface\<close>

locale MemPool =
  fixes AddTx :: "'p \<Rightarrow> Tx \<Rightarrow> int \<Rightarrow> 'p result"
    and GetTx :: "'p \<Rightarrow> (Tx option \<times> 'p) result"
    and Len :: "'p \<Rightarrow> nat"
    and invar :: "'p \<Rightarrow> bool"
    and txs :: "'p \<Rightarrow> Tx multiset"
  assumes AddTx_adds:
      "invar p \<Longrightarrow> \<exists>p'. AddTx p t e = Ok p' \<and> invar p' \<and> txs p' = add_mset t (txs p)"
    and GetTx_none: "invar p \<Longrightarrow> txs p = {#} \<Longrightarrow> GetTx p = Ok (None, p)"
    and GetTx_least: "invar p \<Longrightarrow> txs p \<noteq> {#} \<Longrightarrow>
      \<exists>t p'. GetTx p = Ok (Some t, p') \<and> invar p' \<and> txs p = add_mset t (txs p')
           \<and> (\<forall>u\<in>#txs p. tx_Ts t \<le> tx_Ts u)"
    and Len_size: "invar p \<Longrightarrow> Len p = size (txs p)"
begin

text \<open>
  The builder's loop returns the oldest transactions in order of their timestamps and leaves the
  others in the pool.
\<close>

lemma drain_oldest:
  "invar p \<Longrightarrow>
   \<exists>ts p'. drain GetTx n p = Ok (ts, p') \<and> invar p' \<and> txs p = mset ts + txs p'
     \<and> length ts = min n (size (txs p)) \<and> sorted (map tx_Ts ts)
     \<and> (\<forall>t\<in>set ts. \<forall>u\<in>#txs p'. tx_Ts t \<le> tx_Ts u)"
proof (induction n arbitrary: p)
  case 0
  then show ?case by simp
next
  case (Suc n)
  show ?case
  proof (cases "txs p = {#}")
    case True
    with Suc.prems show ?thesis by (simp add: GetTx_none)
  next
    case False
    then obtain t q where q: "GetTx p = Ok (Some t, q)" "invar q" "txs p = add_mset t (txs q)"
        "\<forall>u\<in>#txs p. tx_Ts t \<le> tx_Ts u"
      using GetTx_least [OF Suc.prems] by blast
    obtain ts p' where ts: "drain GetTx n q = Ok (ts, p')" "invar p'" "txs q = mset ts + txs p'"
        "length ts = min n (size (txs q))" "sorted (map tx_Ts ts)"
        "\<forall>t\<in>set ts. \<forall>u\<in>#txs p'. tx_Ts t \<le> tx_Ts u"
      using Suc.IH [OF q(2)] by blast
    have "drain GetTx (Suc n) p = Ok (t # ts, p')" using q(1) ts(1) by simp
    moreover have "length (t # ts) = min (Suc n) (size (txs p))" using q(3) ts(4) by simp
    moreover have "sorted (map tx_Ts (t # ts))" using q(3,4) ts(3,5) by auto
    moreover have "txs p = mset (t # ts) + txs p'" using q(3) ts(3) by simp
    moreover have "\<forall>t'\<in>set (t # ts). \<forall>u\<in>#txs p'. tx_Ts t' \<le> tx_Ts u"
      using q(3,4) ts(3,6) by auto
    ultimately show ?thesis using ts(2) by blast
  qed
qed

lemma drain_all:
  assumes "invar p" and "Len p \<le> n"
  shows "\<exists>ts p'. drain GetTx n p = Ok (ts, p') \<and> txs p = mset ts \<and> txs p' = {#}"
proof -
  obtain ts p' where ts: "drain GetTx n p = Ok (ts, p')" "txs p = mset ts + txs p'"
      "length ts = min n (size (txs p))"
    using drain_oldest [OF assms(1), of n] by blast
  have "size (txs p) = length ts + size (txs p')" using ts(2) by simp
  with ts(3) assms have "txs p' = {#}" by (simp add: Len_size)
  with ts(1,2) show ?thesis by auto
qed

end

section \<open>TxMemPool implements MemPool\<close>

lemma less_by_ptr: "None \<notin> A \<Longrightarrow> less_by TxMemPool_Less ptr_key A"
  unfolding less_by_def
proof (intro ballI)
  fix x y assume "None \<notin> A" "x \<in> A" "y \<in> A"
  then obtain a b where "x = Some a" "y = Some b" by (cases x; cases y) auto
  then show "TxMemPool_Less x y = Some (ptr_key x < ptr_key y)" by (simp add: ptr_key_def)
qed

lemma NewTxMemPool_ok: "\<exists>m. NewTxMemPool = Ok m \<and> pool_ok m \<and> pool_txs m = {#}"
  by (simp add: NewTxMemPool_def heap_Init_small pool_ok_def pool_txs_def is_heap_small)

lemma TxMemPool_AddTx_ok:
  assumes "pool_ok m"
  shows "\<exists>m'. TxMemPool_AddTx m (Some t) e = Ok m' \<and> pool_ok m' \<and>
    pool_txs m' = add_mset t (pool_txs m)"
proof -
  have lb: "less_by TxMemPool_Less ptr_key (insert (Some t) (set (plist m)))"
    using assms by (intro less_by_ptr) (auto simp: pool_ok_def)
  have "is_heap ptr_key (plist m)" using assms by (simp add: pool_ok_def)
  from heap_Push_correct [OF lb this] obtain ys where ys: "heap_Push TxMemPool_Less (plist m) (Some t) = Some ys"
      "is_heap ptr_key ys" "mset ys = add_mset (Some t) (mset (plist m))"
    by blast
  have "set ys = insert (Some t) (set (plist m))"
    using ys(3) by (metis set_mset_add_mset_insert set_mset_mset)
  with ys show ?thesis
    using assms by (simp add: TxMemPool_AddTx_def pool_ok_def pool_txs_def)
qed

lemma TxMemPool_GetTx_ok:
  assumes "pool_ok m" and "pool_txs m \<noteq> {#}"
  shows "\<exists>t m'. TxMemPool_GetTx m = Ok (Some t, m') \<and> pool_ok m' \<and>
    pool_txs m = add_mset t (pool_txs m') \<and> (\<forall>u\<in>#pool_txs m. tx_Ts t \<le> tx_Ts u)"
proof -
  let ?l = "plist m"
  have ne: "?l \<noteq> []" using assms(2) by (auto simp: pool_txs_def)
  have lb: "less_by TxMemPool_Less ptr_key (set ?l)" and hp: "is_heap ptr_key ?l"
    using assms(1) by (auto simp: pool_ok_def intro: less_by_ptr)
  from heap_Pop_correct [OF lb hp ne] obtain ys where ys: "heap_Pop TxMemPool_Less ?l = Some (?l ! 0, ys)" "is_heap ptr_key ys"
      "mset ?l = add_mset (?l ! 0) (mset ys)"
    by blast
  have set: "set ?l = insert (?l ! 0) (set ys)"
    using ys(3) by (metis set_mset_add_mset_insert set_mset_mset)
  have "None \<noteq> ?l ! 0" using assms(1) set by (auto simp: pool_ok_def)
  then obtain t where t: "?l ! 0 = Some t" by (cases "?l ! 0") auto
  have "tx_Ts t \<le> ptr_key p" if "p \<in> set ?l" for p
    using that assms(1) t is_heap_root_least [of ptr_key ?l]
    by (auto simp: in_set_conv_nth pool_ok_def ptr_key_def)
  then have "\<forall>u\<in>#pool_txs m. tx_Ts t \<le> tx_Ts u"
    by (auto simp: pool_txs_def ptr_key_def)
  moreover have "pool_txs m = add_mset t (pool_txs (m\<lparr>plist := ys\<rparr>))"
    using ys(3) t by (simp add: pool_txs_def)
  ultimately show ?thesis
    using assms(1) ne ys(1,2) t set
    by (auto simp: TxMemPool_GetTx_def TxMemPool_Len_def pool_ok_def)
qed

interpretation txpool: MemPool "\<lambda>m t e. TxMemPool_AddTx m (Some t) e" TxMemPool_GetTx
    TxMemPool_Len pool_ok pool_txs
proof unfold_locales
  fix p :: TxMemPool assume p: "pool_ok p"
  show "\<exists>p'. TxMemPool_AddTx p (Some t) e = Ok p' \<and> pool_ok p' \<and>
      pool_txs p' = add_mset t (pool_txs p)" for t e
    using p by (rule TxMemPool_AddTx_ok)
  show "pool_txs p = {#} \<Longrightarrow> TxMemPool_GetTx p = Ok (None, p)"
    by (simp add: TxMemPool_GetTx_def TxMemPool_Len_def pool_txs_def)
  show "pool_txs p \<noteq> {#} \<Longrightarrow> \<exists>t p'. TxMemPool_GetTx p = Ok (Some t, p') \<and> pool_ok p' \<and>
      pool_txs p = add_mset t (pool_txs p') \<and> (\<forall>u\<in>#pool_txs p. tx_Ts t \<le> tx_Ts u)"
    using p by (rule TxMemPool_GetTx_ok)
  show "TxMemPool_Len p = size (pool_txs p)"
    by (simp add: TxMemPool_Len_def pool_txs_def)
qed

end
