(* ===== verification/Store_Chain.thy ===== *)
theory Store_Chain
  imports Tx_Model
begin

text \<open>
  \<^verbatim>\<open>pkg/storage/storage.go\<close>, \<^verbatim>\<open>metadata.go\<close>, \<^verbatim>\<open>chain.go\<close> and \<^verbatim>\<open>bloom.go\<close>: the \<^verbatim>\<open>Store\<close> interface as a
  record of operations over a store state, the builders of transaction sets (a Merkle tree of
  content identifiers) and of blocks, the bloom filter of a block, and the breadth-first traversal
  of a transaction set that both store implementations share.
\<close>

section \<open>The Store interface\<close>

text \<open>
  Go leaves the order of a range over a map open. The operations that range over the transactions
  of a block take the order as an argument: any permutation of the entries.
\<close>

type_synonym range_order = "(cid \<times> Tx) list \<Rightarrow> (cid \<times> Tx) list"

definition range_ok :: "range_order \<Rightarrow> bool" where
  "range_ok ord \<longleftrightarrow> (\<forall>xs. mset (ord xs) = mset xs)"

abbreviation BlockStateUnvalidated :: int where "BlockStateUnvalidated \<equiv> 0"
abbreviation BlockStateValidated :: int where "BlockStateValidated \<equiv> 1"
abbreviation BlockStateAccepted :: int where "BlockStateAccepted \<equiv> 2"

abbreviation MaxBlockTxCount :: nat where "MaxBlockTxCount \<equiv> 1000"
abbreviation Chain_Version :: uint32 where "Chain_Version \<equiv> 1"

text \<open>
  The method table of a store whose state has type \<open>'s\<close>. A method that changes the store returns
  the new state; \<^verbatim>\<open>GetLastApplied\<close> may return a nil block.
\<close>

record 's Store =
  PutTx :: "'s \<Rightarrow> Tx \<Rightarrow> 's \<times> cid result"
  GetTx :: "'s \<Rightarrow> cid \<Rightarrow> Tx result"
  PutBlock :: "'s \<Rightarrow> Block \<Rightarrow> 's \<times> cid result"
  GetBlock :: "'s \<Rightarrow> cid \<Rightarrow> Block result"
  AllTx :: "'s \<Rightarrow> Block \<Rightarrow> (cid \<times> Tx) list result"
  PutSet :: "'s \<Rightarrow> TxSet \<Rightarrow> 's \<times> cid result"
  GetSet :: "'s \<Rightarrow> cid \<Rightarrow> TxSet result"
  GetTxBlock :: "'s \<Rightarrow> cid \<Rightarrow> Block result"
  MarkBlock :: "range_order \<Rightarrow> 's \<Rightarrow> cid \<Rightarrow> int \<Rightarrow> 's \<times> unit result"
  UpdateLastApplied :: "'s \<Rightarrow> cid \<Rightarrow> 's \<times> unit result"
  GetLastApplied :: "'s \<Rightarrow> Block option result"
  LookupDID :: "'s \<Rightarrow> string \<Rightarrow> Document option result"
  Nodes :: "'s \<Rightarrow> string list result"
  GetNode :: "'s \<Rightarrow> string \<Rightarrow> Node result"
  HasGenesisApplied :: "'s \<Rightarrow> bool"
  ApplyGenesis :: "range_order \<Rightarrow> 's \<Rightarrow> GenesisInfo \<Rightarrow> 's \<times> unit result"
  ApplyTx :: "'s \<Rightarrow> cid \<Rightarrow> Tx \<Rightarrow> 's \<times> unit result"
  StartTest :: "'s \<Rightarrow> 's result"
  CompleteTest :: "'s \<Rightarrow> 's \<times> unit result"

section \<open>Transaction sets\<close>

text \<open>\<^verbatim>\<open>sort.Sort(cidList(txs))\<close>: ordered by \<^verbatim>\<open>bytes.Compare\<close> of the binary forms.\<close>

definition sort_cids :: "'z lib_scheme \<Rightarrow> cid list \<Rightarrow> cid list" where
  "sort_cids L cs = sort_key (\<lambda>c. map unat (cid_Bytes L c)) cs"

text \<open>The leaves: one set per transaction, stored as it is made.\<close>

fun put_leaves :: "'z lib_scheme \<Rightarrow> 's Store \<Rightarrow> 's \<Rightarrow> cid list \<Rightarrow> 's \<times> TxSet list result" where
  "put_leaves L S s [] = (s, Ok [])"
| "put_leaves L S s (t # ts) =
     (let leaf = \<lparr>ts_Children = [], ts_Tx = Some t, ts_cid = cid_Undef L\<rparr> in
      case PutSet S s leaf of
        (s', Ok c) \<Rightarrow>
          (case put_leaves L S s' ts of
             (s'', Ok nodes) \<Rightarrow> (s'', Ok (leaf\<lparr>ts_cid := c\<rparr> # nodes))
           | (s'', r) \<Rightarrow> (s'', r))
      | (s', r) \<Rightarrow> (s', fail_as (wrap ''storing root txset'' r) []))"

text \<open>One level of the tree: a parent for each pair of neighbours.\<close>

fun put_parents :: "'z lib_scheme \<Rightarrow> 's Store \<Rightarrow> 's \<Rightarrow> TxSet list \<Rightarrow> 's \<times> TxSet list result" where
  "put_parents L S s (a # b # rest) =
     (let n = \<lparr>ts_Children = [ts_cid a, ts_cid b], ts_Tx = None, ts_cid = cid_Undef L\<rparr> in
      case PutSet S s n of
        (s', Ok c) \<Rightarrow>
          (case put_parents L S s' rest of
             (s'', Ok ps) \<Rightarrow> (s'', Ok (n\<lparr>ts_cid := c\<rparr> # ps))
           | (s'', r) \<Rightarrow> (s'', r))
      | (s', r) \<Rightarrow> (s', fail_as (wrap ''storing root txset'' r) []))"
| "put_parents L S s _ = (s, Ok [])"

text \<open>An odd level repeats its last node.\<close>

definition pad_even :: "'a list \<Rightarrow> 'a list" where
  "pad_even xs = (if length xs mod 2 = 1 then xs @ [last xs] else xs)"

lemma put_parents_length:
  "put_parents L S s xs = (s', Ok ps) \<Longrightarrow> length ps = length xs div 2"
  by (induction L S s xs arbitrary: s' ps rule: put_parents.induct)
     (auto split: prod.splits result.splits simp: Let_def)

lemma length_pad_even [simp]: "length (pad_even xs) = (length xs + 1) div 2 * 2"
  by (auto simp: pad_even_def) presburger

function reduce_levels :: "'z lib_scheme \<Rightarrow> 's Store \<Rightarrow> 's \<Rightarrow> TxSet list \<Rightarrow> 's \<times> TxSet list result" where
  "reduce_levels L S s nodes =
     (if length nodes > 1 then
        (case put_parents L S s (pad_even nodes) of
           (s', Ok ps) \<Rightarrow> reduce_levels L S s' ps
         | (s', r) \<Rightarrow> (s', r))
      else (s, Ok nodes))"
  by pat_completeness auto
termination
  by (relation "measure (\<lambda>(L, S, s, nodes). length nodes)")
     (auto dest!: sym [of "(_, Ok _)"] put_parents_length)

declare reduce_levels.simps [simp del]

text \<open>\<^verbatim>\<open>NewTxSet\<close>; for no transactions \<^verbatim>\<open>nodes[0]\<close> is out of range.\<close>

definition NewTxSet :: "'z lib_scheme \<Rightarrow> 's Store \<Rightarrow> 's \<Rightarrow> cid list \<Rightarrow> 's \<times> TxSet result" where
  "NewTxSet L S s txs =
     (let txs' = sort_cids L txs in
      if length txs' > MaxBlockTxCount then (s, Err (ErrNew ''too many tx for set''))
      else case put_leaves L S s txs' of
             (s', Ok nodes) \<Rightarrow>
               (case reduce_levels L S s' nodes of
                  (s'', Ok (root # _)) \<Rightarrow> (s'', Ok root)
                | (s'', Ok []) \<Rightarrow> (s'', Panic)
                | (s'', Err e) \<Rightarrow> (s'', Err e)
                | (s'', Panic) \<Rightarrow> (s'', Panic)
                | (s'', Diverge) \<Rightarrow> (s'', Diverge))
           | (s', Err e) \<Rightarrow> (s', Err e)
           | (s', Panic) \<Rightarrow> (s', Panic)
           | (s', Diverge) \<Rightarrow> (s', Diverge))"

section \<open>Bloom filters\<close>

definition MakeBloom :: "'z lib_scheme \<Rightarrow> cid list \<Rightarrow> bytes result" where
  "MakeBloom L txs =
     (case bloom_GobEncode L (fold (\<lambda>t b. bloom_Add L b (cid_Bytes L t)) txs
              (bloom_New L MaxBlockTxCount)) of
        None \<Rightarrow> Err (ErrNew ''gob'')
      | Some b \<Rightarrow> Ok b)"

definition BloomContains :: "'z lib_scheme \<Rightarrow> bytes \<Rightarrow> cid \<Rightarrow> bool result" where
  "BloomContains L b c =
     (case bloom_GobDecode L b of
        None \<Rightarrow> Err (ErrNew ''gob'')
      | Some f \<Rightarrow> Ok (bloom_Test L f (cid_Bytes L c)))"

section \<open>Blocks\<close>

text \<open>
  \<^verbatim>\<open>NewBlock\<close>; the clock and the nonce (\<open>None\<close> where the random source fails) are arguments.
\<close>

definition NewBlock ::
    "'z lib_scheme \<Rightarrow> 's Store \<Rightarrow> int \<Rightarrow> bytes option \<Rightarrow> 's \<Rightarrow> cid \<Rightarrow> cid list \<Rightarrow> 's \<times> Block result" where
  "NewBlock L S now nonce s parent txs =
     (case (if parent \<noteq> cid_Undef L
            then (case wrap ''getting parent'' (GetBlock S s parent) of
                    Ok pb \<Rightarrow> Ok (b_Height pb + 1)
                  | Err e \<Rightarrow> Err e | Panic \<Rightarrow> Panic | Diverge \<Rightarrow> Diverge)
            else Ok 0) of
        Err e \<Rightarrow> (s, Err e)
      | Panic \<Rightarrow> (s, Panic)
      | Diverge \<Rightarrow> (s, Diverge)
      | Ok height \<Rightarrow>
          (case nonce of
             None \<Rightarrow> (s, Err (ErrWrap ''making nonce'' (ErrNew ''rand'')))
           | Some n \<Rightarrow>
               (case wrap ''creating bloom'' (MakeBloom L txs) of
                  Ok bloom \<Rightarrow>
                    (case NewTxSet L S s txs of
                       (s', Ok root) \<Rightarrow>
                         (s', Ok \<lparr>b_Version = Chain_Version, b_ID = cid_Undef L, b_Parent = parent,
                                  b_Height = height, b_CreatedAt = now, b_Proposer = [],
                                  b_Signature = [], b_Nonce = n, b_Bloom = bloom,
                                  b_TxRoot = ts_cid root\<rparr>)
                     | (s', Err e) \<Rightarrow> (s', Err (ErrWrap ''making tx set'' e))
                     | (s', Panic) \<Rightarrow> (s', Panic)
                     | (s', Diverge) \<Rightarrow> (s', Diverge))
                | Err e \<Rightarrow> (s, Err e)
                | Panic \<Rightarrow> (s, Panic)
                | Diverge \<Rightarrow> (s, Diverge))))"

section \<open>Traversal of a transaction set\<close>

text \<open>
  The loop of \<^verbatim>\<open>MemStore.allTxCids\<close> and of \<^verbatim>\<open>IPFSStorage.AllTx\<close> over the queue of set identifiers,
  the visited set and the transactions seen. A proposer may store sets that refer to each other in
  any way, so nothing bounds the loop in general: \<open>None\<close> is a traversal that never ends.
\<close>

partial_function (option) allTx_loop ::
    "(cid \<Rightarrow> TxSet result) \<Rightarrow> (cid \<Rightarrow> Tx result) \<Rightarrow> cid list \<Rightarrow> cid set \<Rightarrow> (cid \<times> Tx) list
       \<Rightarrow> (cid \<times> Tx) list result option" where
  "allTx_loop getSet getTx queue visited seen =
     (case queue of
        [] \<Rightarrow> Some (Ok seen)
      | setCid # rest \<Rightarrow>
          if setCid \<in> visited then allTx_loop getSet getTx rest visited seen
          else (case getSet setCid of
                  Err e \<Rightarrow> Some (Err (ErrWrap ''getting root trie'' e))
                | Panic \<Rightarrow> Some Panic
                | Diverge \<Rightarrow> Some Diverge
                | Ok st \<Rightarrow>
                    (case ts_Tx st of
                       None \<Rightarrow> allTx_loop getSet getTx (rest @ ts_Children st)
                                (insert setCid visited) seen
                     | Some txid \<Rightarrow>
                         (case getTx txid of
                            Err e \<Rightarrow> Some (Err (ErrWrap ''getting root tx'' e))
                          | Panic \<Rightarrow> Some Panic
                          | Diverge \<Rightarrow> Some Diverge
                          | Ok t \<Rightarrow>
                              (let seen' = alist_put txid t seen in
                               if length seen' > MaxBlockTxCount
                               then Some (Err (ErrNew ''block containers too many tx''))
                               else allTx_loop getSet getTx (rest @ ts_Children st)
                                      (insert setCid visited) seen')))))"

definition allTx ::
    "(cid \<Rightarrow> TxSet result) \<Rightarrow> (cid \<Rightarrow> Tx result) \<Rightarrow> cid \<Rightarrow> (cid \<times> Tx) list result" where
  "allTx getSet getTx root =
     (case allTx_loop getSet getTx [root] {} [] of None \<Rightarrow> Diverge | Some r \<Rightarrow> r)"

end
