(* ===== verification/W3c_Did.thy ===== *)
theory W3c_Did
  imports Tx_Model
begin

text \<open>
  \<^verbatim>\<open>pkg/did/w3cdid\<close> and the signature validators of \<^verbatim>\<open>pkg/cryptography\<close>: the parts of a DID URL,
  the structural check of a DID document and the search for a key of the document that signed a
  message. Go's \<^verbatim>\<open>net/url.Parse\<close> is modelled as far as the code reads its result (opaque part,
  query and fragment); a parse error gives the code a nil URL, which it dereferences.
\<close>

section \<open>net/url.Parse\<close>

definition cut :: "char \<Rightarrow> string \<Rightarrow> string \<times> string" where
  "cut c s = (takeWhile (\<lambda>x. x \<noteq> c) s, drop 1 (dropWhile (\<lambda>x. x \<noteq> c) s))"

definition has_prefix :: "string \<Rightarrow> string \<Rightarrow> bool" where
  "has_prefix p s \<longleftrightarrow> take (length p) s = p"

definition ctl_char :: "char \<Rightarrow> bool" where
  "ctl_char c \<longleftrightarrow> of_char c < (32::nat) \<or> of_char c = (127::nat)"

definition alpha_char :: "char \<Rightarrow> bool" where
  "alpha_char c \<longleftrightarrow> (97::nat) \<le> of_char c \<and> of_char c \<le> (122::nat)
     \<or> (65::nat) \<le> of_char c \<and> of_char c \<le> (90::nat)"

definition digit_char :: "char \<Rightarrow> bool" where
  "digit_char c \<longleftrightarrow> (48::nat) \<le> of_char c \<and> of_char c \<le> (57::nat)"

fun hex_value :: "char \<Rightarrow> nat option" where
  "hex_value c =
     (let n = of_char c :: nat in
      if 48 \<le> n \<and> n \<le> 57 then Some (n - 48)
      else if 97 \<le> n \<and> n \<le> 102 then Some (n - 87)
      else if 65 \<le> n \<and> n \<le> 70 then Some (n - 55)
      else None)"

text \<open>\<^verbatim>\<open>unescape\<close> in the path and fragment modes: a percent sign takes two hex digits.\<close>

fun unescape :: "string \<Rightarrow> string option" where
  "unescape [] = Some []"
| "unescape (c # cs) =
     (if c = CHR ''%'' then
        (case cs of
           a # b # rest \<Rightarrow>
             (case (hex_value a, hex_value b) of
                (Some x, Some y) \<Rightarrow> map_option (\<lambda>r. char_of (16 * x + y) # r) (unescape rest)
              | _ \<Rightarrow> None)
         | _ \<Rightarrow> None)
      else map_option (\<lambda>r. c # r) (unescape cs))"

text \<open>\<^verbatim>\<open>getScheme\<close>: \<open>None\<close> is the error of a URL that starts with a colon.\<close>

fun getScheme_from :: "string \<Rightarrow> string \<Rightarrow> string \<Rightarrow> (string \<times> string) option" where
  "getScheme_from raw pre [] = Some ([], raw)"
| "getScheme_from raw pre (c # cs) =
     (if alpha_char c then getScheme_from raw (pre @ [c]) cs
      else if digit_char c \<or> c = CHR ''+'' \<or> c = CHR ''-'' \<or> c = CHR ''.'' then
        (if pre = [] then Some ([], raw) else getScheme_from raw (pre @ [c]) cs)
      else if c = CHR '':'' then (if pre = [] then None else Some (pre, cs))
      else Some ([], raw))"

definition getScheme :: "string \<Rightarrow> (string \<times> string) option" where
  "getScheme raw = getScheme_from raw [] raw"

record url_parts =
  u_Opaque :: string
  u_RawQuery :: string
  u_Fragment :: string

text \<open>The part of the URL before the fragment.\<close>

definition url_parse_main :: "'z lib_scheme \<Rightarrow> string \<Rightarrow> url_parts option" where
  "url_parse_main L u =
     (if \<exists>c\<in>set u. ctl_char c then None
      else if u = ''*'' then Some \<lparr>u_Opaque = [], u_RawQuery = [], u_Fragment = []\<rparr>
      else case getScheme u of
        None \<Rightarrow> None
      | Some (scheme, rest0) \<Rightarrow>
          let (rest, query) =
                (if rest0 \<noteq> [] \<and> last rest0 = CHR ''?'' \<and> count_list rest0 (CHR ''?'') = 1
                 then (butlast rest0, []) else cut (CHR ''?'') rest0);
              opaque = \<not> has_prefix ''/'' rest;
              authority = (scheme \<noteq> [] \<or> \<not> has_prefix ''///'' rest) \<and> has_prefix ''//'' rest;
              host = takeWhile (\<lambda>x. x \<noteq> CHR ''/'') (drop 2 rest);
              pth = (if authority then dropWhile (\<lambda>x. x \<noteq> CHR ''/'') (drop 2 rest) else rest)
          in if opaque \<and> scheme \<noteq> []
             then Some \<lparr>u_Opaque = rest, u_RawQuery = query, u_Fragment = []\<rparr>
             else if opaque \<and> CHR '':'' \<in> set (takeWhile (\<lambda>x. x \<noteq> CHR ''/'') rest) then None
             else if authority \<and> \<not> url_authority_ok L host then None
             else case unescape pth of
                    None \<Rightarrow> None
                  | Some _ \<Rightarrow> Some \<lparr>u_Opaque = [], u_RawQuery = query, u_Fragment = []\<rparr>)"

definition url_Parse :: "'z lib_scheme \<Rightarrow> string \<Rightarrow> url_parts option" where
  "url_Parse L raw =
     (let (u, frag) = cut (CHR ''#'') raw in
      case url_parse_main L u of
        None \<Rightarrow> None
      | Some p \<Rightarrow>
          if frag = [] then Some p
          else case unescape frag of
                 None \<Rightarrow> None
               | Some f \<Rightarrow> Some (p\<lparr>u_Fragment := f\<rparr>))"

section \<open>The parts of a DID URL\<close>

definition URL_Method :: "'z lib_scheme \<Rightarrow> string \<Rightarrow> string result" where
  "URL_Method L u =
     (case url_Parse L u of None \<Rightarrow> Panic | Some p \<Rightarrow> Ok (fst (cut (CHR '':'') (u_Opaque p))))"

definition URL_Id :: "'z lib_scheme \<Rightarrow> string \<Rightarrow> string result" where
  "URL_Id L u =
     (case url_Parse L u of
        None \<Rightarrow> Panic
      | Some p \<Rightarrow>
          if CHR '':'' \<in> set (u_Opaque p) then Ok (snd (cut (CHR '':'') (u_Opaque p))) else Ok [])"

definition URL_Query :: "'z lib_scheme \<Rightarrow> string \<Rightarrow> string result" where
  "URL_Query L u = (case url_Parse L u of None \<Rightarrow> Panic | Some p \<Rightarrow> Ok (u_RawQuery p))"

definition URL_Fragment :: "'z lib_scheme \<Rightarrow> string \<Rightarrow> string result" where
  "URL_Fragment L u = (case url_Parse L u of None \<Rightarrow> Panic | Some p \<Rightarrow> Ok (u_Fragment p))"

section \<open>Document validation\<close>

abbreviation ErrInvalid :: error where "ErrInvalid \<equiv> ErrNew ''did invalid''"

text \<open>\<^verbatim>\<open>u.Id() == "" || u.Method() == ""\<close>, evaluated from the left.\<close>

definition url_unnamed :: "'z lib_scheme \<Rightarrow> string \<Rightarrow> bool result" where
  "url_unnamed L u =
     bindr (URL_Id L u) (\<lambda>i. if i = [] then Ok True else bindr (URL_Method L u) (\<lambda>m. Ok (m = [])))"

fun vms_valid :: "'z lib_scheme \<Rightarrow> VerificationMethod list \<Rightarrow> unit result" where
  "vms_valid L [] = Ok ()"
| "vms_valid L (v # vs) =
     (if vm_Type v = [] then Err ErrInvalid
      else bindr (url_unnamed L (vm_ID v)) (\<lambda>bad.
        if bad then Err ErrInvalid
        else bindr (url_unnamed L (vm_Controller v)) (\<lambda>bad'.
          if bad' then Err ErrInvalid else vms_valid L vs)))"

fun services_valid :: "Service list \<Rightarrow> unit result" where
  "services_valid [] = Ok ()"
| "services_valid (s # ss) =
     (if svc_ID s = [] \<or> svc_Type s = [] \<or> svc_ServiceEndpoint s = [] then Err ErrInvalid
      else services_valid ss)"

definition doc_vms :: "Document \<Rightarrow> VerificationMethod list" where
  "doc_vms d = doc_VerificationMethod d @ doc_Authentication d @ doc_AssertionMethod d
     @ doc_KeyAgreement d @ doc_CapabilityInvocation d @ doc_CapabilityDelegation d"

definition Document_IsValid :: "'z lib_scheme \<Rightarrow> Document \<Rightarrow> unit result" where
  "Document_IsValid L d =
     (if doc_ID d = [] then Err ErrInvalid
      else bindr (url_unnamed L (doc_ID d)) (\<lambda>bad.
        if bad then Err ErrInvalid
        else bindr (vms_valid L (doc_vms d)) (\<lambda>_. services_valid (doc_Service d))))"

section \<open>Signatures by a key of the document\<close>

definition decodeMultibase :: "'z lib_scheme \<Rightarrow> string \<Rightarrow> bytes result" where
  "decodeMultibase L s = (case mb_Decode L s of None \<Rightarrow> Err (ErrNew ''multibase'') | Some d \<Rightarrow> Ok d)"

text \<open>\<^verbatim>\<open>ed25519.Verify\<close> panics on a public key that is not 32 bytes long.\<close>

definition ValidateEd25519 ::
    "'z lib_scheme \<Rightarrow> VerificationMethod \<Rightarrow> bytes \<Rightarrow> bytes \<Rightarrow> bool result" where
  "ValidateEd25519 L vm sig msg =
     bindr (wrap ''decoding multibase'' (decodeMultibase L (vm_PublicKeyMultibase vm)))
       (\<lambda>pk. if length pk \<noteq> 32 then Panic else Ok (ed25519_Verify L pk msg sig))"

text \<open>\<^verbatim>\<open>Bls12381PublicKey.Verify\<close>: the scheme reports a bad signature as an error.\<close>

definition Bls12381PublicKey_Verify :: "'z lib_scheme \<Rightarrow> bytes \<Rightarrow> bytes \<Rightarrow> bytes \<Rightarrow> bool result" where
  "Bls12381PublicKey_Verify L pk sig msg =
     (if bls_Verify L pk msg sig then Ok True else Err (ErrNew ''bls: invalid signature''))"

definition NewBls12381PublicKey :: "'z lib_scheme \<Rightarrow> bytes \<Rightarrow> bytes result" where
  "NewBls12381PublicKey L d =
     (case bls_Unmarshal L d of None \<Rightarrow> Err (ErrNew ''bls12381'') | Some pk \<Rightarrow> Ok pk)"

definition ValidateBls12381 ::
    "'z lib_scheme \<Rightarrow> VerificationMethod \<Rightarrow> bytes \<Rightarrow> bytes \<Rightarrow> bool result" where
  "ValidateBls12381 L vm sig msg =
     bindr (wrap ''decoding multibase'' (decodeMultibase L (vm_PublicKeyMultibase vm)))
       (\<lambda>d. bindr (NewBls12381PublicKey L d) (\<lambda>pk. Bls12381PublicKey_Verify L pk sig msg))"

definition NewSecp256k1PublicKey :: "'z lib_scheme \<Rightarrow> bytes \<Rightarrow> bytes result" where
  "NewSecp256k1PublicKey L d =
     (case secp_Unmarshal L d of
        None \<Rightarrow> Err (ErrWrap ''unmarshalling ecdsa pub key'' (ErrNew ''secp256k1''))
      | Some pk \<Rightarrow> Ok pk)"

definition ValidateEcdsaSecp256k1 ::
    "'z lib_scheme \<Rightarrow> VerificationMethod \<Rightarrow> bytes \<Rightarrow> bytes \<Rightarrow> bool result" where
  "ValidateEcdsaSecp256k1 L vm sig msg =
     (let dig = (if length msg > 128 then sha512_Sum L msg else msg) in
      bindr (wrap ''decoding multibase'' (decodeMultibase L (vm_PublicKeyMultibase vm)))
        (\<lambda>d. bindr (wrap ''unmarshalling public key'' (NewSecp256k1PublicKey L d))
          (\<lambda>pk. Ok (secp_Verify L pk dig sig))))"

abbreviation Ed25519VerificationKey2018 :: string where
  "Ed25519VerificationKey2018 \<equiv> ''Ed25519VerificationKey2018''"
abbreviation Bls12381G2Key2020 :: string where
  "Bls12381G2Key2020 \<equiv> ''Bls12381G2Key2020''"
abbreviation EcdsaSecp256k1VerificationKey2019 :: string where
  "EcdsaSecp256k1VerificationKey2019 \<equiv> ''EcdsaSecp256k1VerificationKey2019''"

text \<open>The table of signature validators by verification type.\<close>

definition validators ::
    "'z lib_scheme \<Rightarrow> string \<Rightarrow> (VerificationMethod \<Rightarrow> bytes \<Rightarrow> bytes \<Rightarrow> bool result) option" where
  "validators L ty =
     (if ty = Ed25519VerificationKey2018 then Some (ValidateEd25519 L)
      else if ty = Bls12381G2Key2020 then Some (ValidateBls12381 L)
      else if ty = EcdsaSecp256k1VerificationKey2019 then Some (ValidateEcdsaSecp256k1 L)
      else None)"

abbreviation ErrNoValidSignatures :: error where
  "ErrNoValidSignatures \<equiv> ErrNew ''no valid signatures''"

fun signed_by :: "'z lib_scheme \<Rightarrow> VerificationMethod list \<Rightarrow> bytes \<Rightarrow> bytes \<Rightarrow> unit result" where
  "signed_by L [] sig msg = Err ErrNoValidSignatures"
| "signed_by L (vm # vms) sig msg =
     (case validators L (vm_Type vm) of
        None \<Rightarrow> signed_by L vms sig msg
      | Some validator \<Rightarrow>
          (case validator vm sig msg of
             Err _ \<Rightarrow> signed_by L vms sig msg
           | Ok ok \<Rightarrow> if ok then Ok () else signed_by L vms sig msg
           | Panic \<Rightarrow> Panic
           | Diverge \<Rightarrow> Diverge))"

definition Document_Signed :: "'z lib_scheme \<Rightarrow> Document \<Rightarrow> bytes \<Rightarrow> bytes \<Rightarrow> unit result" where
  "Document_Signed L d sig msg =
     (if doc_VerificationMethod d = [] then Err (ErrNew ''no verification method specified'')
      else signed_by L (doc_VerificationMethod d) sig msg)"

text \<open>A verification method vouches for a signature when its type's validator accepts it.\<close>

definition vouches :: "'z lib_scheme \<Rightarrow> VerificationMethod \<Rightarrow> bytes \<Rightarrow> bytes \<Rightarrow> bool" where
  "vouches L vm sig msg \<longleftrightarrow>
     (\<exists>f. validators L (vm_Type vm) = Some f \<and> f vm sig msg = Ok True)"

section \<open>Lemmas\<close>

lemma cut_absent: "c \<notin> set s \<Longrightarrow> cut c s = (s, [])"
  by (induction s) (auto simp: cut_def)

lemma cut_at: "c \<notin> set a \<Longrightarrow> cut c (a @ c # b) = (a, b)"
  by (auto simp: cut_def takeWhile_append dropWhile_append)

lemma signed_by_sound:
  "signed_by L vms sig msg = Ok () \<Longrightarrow> \<exists>vm\<in>set vms. vouches L vm sig msg"
  by (induction vms) (auto simp: vouches_def split: option.splits result.splits if_splits)

lemma signed_by_complete:
  assumes "vm \<in> set vms" and "vouches L vm sig msg"
    and "\<forall>v\<in>set vms. \<forall>f. validators L (vm_Type v) = Some f \<longrightarrow> f v sig msg \<notin> {Panic, Diverge}"
  shows "signed_by L vms sig msg = Ok ()"
  using assms
  by (induction vms) (auto simp: vouches_def split: option.splits result.splits)

text \<open>A URL that starts with a colon has no scheme and does not parse.\<close>

lemma url_Parse_colon: "url_Parse L (CHR '':'' # s) = None"
proof -
  have "alpha_char (CHR '':'') = False" "digit_char (CHR '':'') = False"
    by (simp_all add: alpha_char_def digit_char_def)
  then show ?thesis
    by (simp add: url_Parse_def cut_def url_parse_main_def getScheme_def Let_def)
qed

text \<open>Characters that end neither a URL's opaque part nor the URL.\<close>

definition plain_chars :: "string \<Rightarrow> bool" where
  "plain_chars s \<longleftrightarrow> (\<forall>c\<in>set s. \<not> ctl_char c \<and> c \<noteq> CHR ''#'' \<and> c \<noteq> CHR ''?'')"

lemma getScheme_did: "getScheme (''did:'' @ r) = Some (''did'', r)"
  by (simp add: getScheme_def alpha_char_def digit_char_def)

lemma url_Parse_did:
  assumes "plain_chars r" and "\<not> has_prefix ''/'' r"
  shows "url_Parse L (''did:'' @ r) = Some \<lparr>u_Opaque = r, u_RawQuery = [], u_Fragment = []\<rparr>"
proof -
  have ctl: "\<not> (\<exists>c\<in>set (''did:'' @ r). ctl_char c)"
    using assms(1) by (auto simp: plain_chars_def ctl_char_def)
  have "CHR ''#'' \<notin> set (''did:'' @ r)" using assms(1) by (auto simp: plain_chars_def)
  then have frag: "cut (CHR ''#'') (''did:'' @ r) = (''did:'' @ r, [])" by (rule cut_absent)
  have q: "CHR ''?'' \<notin> set r" using assms(1) by (auto simp: plain_chars_def)
  then have "\<not> (r \<noteq> [] \<and> last r = CHR ''?'')" by (metis last_in_set)
  moreover have "cut (CHR ''?'') r = (r, [])" using q by (rule cut_absent)
  ultimately have "url_parse_main L (''did:'' @ r) =
      Some \<lparr>u_Opaque = r, u_RawQuery = [], u_Fragment = []\<rparr>"
    unfolding url_parse_main_def using ctl assms(2) getScheme_did [of r]
    by (auto simp: Let_def)
  with frag show ?thesis by (simp add: url_Parse_def)
qed

lemma url_unnamed_False:
  "url_unnamed L u = Ok False \<longleftrightarrow>
     (\<exists>p m i. url_Parse L u = Some p \<and> u_Opaque p = m @ CHR '':'' # i
        \<and> CHR '':'' \<notin> set m \<and> m \<noteq> [] \<and> i \<noteq> [])"
proof (cases "url_Parse L u")
  case None
  then show ?thesis by (simp add: url_unnamed_def URL_Id_def)
next
  case (Some p)
  show ?thesis
  proof (cases "CHR '':'' \<in> set (u_Opaque p)")
    case True
    then obtain m i where mi: "u_Opaque p = m @ CHR '':'' # i" "CHR '':'' \<notin> set m"
      by (meson split_list_first)
    moreover have "m = m' \<and> i = i'"
      if "m @ CHR '':'' # i = m' @ CHR '':'' # i'" "CHR '':'' \<notin> set m'" for m' i'
      using that mi(2) cut_at by (metis prod.inject)
    ultimately show ?thesis
      using Some by (auto simp: url_unnamed_def URL_Id_def URL_Method_def cut_at)
  next
    case False
    with Some show ?thesis by (auto simp: url_unnamed_def URL_Id_def)
  qed
qed

lemma vms_valid_Ok:
  "vms_valid L vs = Ok () \<longleftrightarrow>
     (\<forall>v\<in>set vs. vm_Type v \<noteq> [] \<and> url_unnamed L (vm_ID v) = Ok False
        \<and> url_unnamed L (vm_Controller v) = Ok False)"
  by (induction vs) (auto simp: bindr_Ok)

lemma services_valid_Ok:
  "services_valid ss = Ok () \<longleftrightarrow>
     (\<forall>s\<in>set ss. svc_ID s \<noteq> [] \<and> svc_Type s \<noteq> [] \<and> svc_ServiceEndpoint s \<noteq> [])"
  by (induction ss) auto

end
