(* ===== verification/Validator_Model.thy ===== *)
theory Validator_Model
  imports Store_Chain W3c_Did
begin

text \<open>
  \<^verbatim>\<open>pkg/storage/validator.go\<close>: the checks on a transaction and on a block, and the replay of the
  blocks from a tip. \<^verbatim>\<open>pkg/storage/mock/validator.go\<close> accepts everything. The operations are
  over the \<^verbatim>\<open>Store\<close> interface; \<^verbatim>\<open>isDIDTxValid\<close> clears the signature of the transaction it is given, so
  the checks return the transaction as they leave it.
\<close>

section \<open>Transactions\<close>

text \<open>The lookup's error and the document pointer, as the two results of \<^verbatim>\<open>LookupDID\<close>.\<close>

definition isDIDTxValid :: "'z lib_scheme \<Rightarrow> 's Store \<Rightarrow> 's \<Rightarrow> Tx \<Rightarrow> Tx \<times> unit result" where
  "isDIDTxValid L S s t =
     (case tx_Data t of
        DataDID d \<Rightarrow>
          (case did_Document d of
             None \<Rightarrow> (t, Panic)
           | Some doc \<Rightarrow>
               (case LookupDID S s (doc_ID doc) of
                  Panic \<Rightarrow> (t, Panic)
                | Diverge \<Rightarrow> (t, Diverge)
                | lookup \<Rightarrow>
                    (let signature = tx_Signature t; t' = t\<lparr>tx_Signature := []\<rparr> in
                     case wrap ''marshalling tx for signature'' (Tx_Marshal L t') of
                       Ok sigmsg \<Rightarrow>
                         (t', case Document_IsValid L doc of
                            Err _ \<Rightarrow> Err ErrDIDInvalid
                          | Panic \<Rightarrow> Panic
                          | Diverge \<Rightarrow> Diverge
                          | Ok _ \<Rightarrow>
                              if tx_Action t' = TxActionAdd then
                                (if lookup \<noteq> Err ErrNotFound then Err ErrDIDAlreadyExists
                                 else (case Document_Signed L doc signature sigmsg of
                                         Err _ \<Rightarrow> Err ErrDIDInvalidSignature | r \<Rightarrow> r))
                              else if tx_Action t' = TxActionUpdate \<or> tx_Action t' = TxActionRevoke then
                                (case lookup of
                                   Ok (Some existing) \<Rightarrow>
                                     (case Document_Signed L existing signature sigmsg of
                                        Err _ \<Rightarrow> Err ErrDIDInvalidSignature | r \<Rightarrow> r)
                                 | Ok None \<Rightarrow> Panic
                                 | _ \<Rightarrow> (case errors_Wrap_nil L ''tx validation'' of
                                           None \<Rightarrow> Ok () | Some e \<Rightarrow> Err e))
                              else Err ErrOpNotSupported)
                     | r \<Rightarrow> (t', fail_as r ()))))
      | _ \<Rightarrow> (t, Panic))"

definition isVCTxValid :: "Tx \<Rightarrow> unit result" where
  "isVCTxValid t = Ok ()"

definition isNodeTxValid :: "Tx \<Rightarrow> unit result" where
  "isNodeTxValid t = Err ErrOpNotSupported"

definition IsTxValid :: "'z lib_scheme \<Rightarrow> 's Store \<Rightarrow> 's \<Rightarrow> Tx \<Rightarrow> Tx \<times> unit result" where
  "IsTxValid L S s t =
     (if tx_Version t \<noteq> Version1 then (t, Err ErrTxVersionNotSupported)
      else if tx_Ts t = 0 then (t, Err ErrTxMissingTimestamp)
      else if tx_From t = [] then (t, Err ErrTxMissingFrom)
      else if tx_Data t = DataNil then (t, Err ErrTxMissingData)
      else if tx_Type t = TxType_DID then isDIDTxValid L S s t
      else if tx_Type t = TxType_VC then (t, isVCTxValid t)
      else if tx_Type t = TxType_Node then (t, isNodeTxValid t)
      else (t, Err ErrTxUnsupportedType))"

section \<open>Blocks\<close>

text \<open>The loop of \<^verbatim>\<open>IsBlockValid\<close> over the transactions of the block, on the test store.\<close>

fun check_txs :: "'z lib_scheme \<Rightarrow> 's Store \<Rightarrow> bool \<Rightarrow> 's \<Rightarrow> (cid \<times> Tx) list \<Rightarrow> 's \<times> unit result" where
  "check_txs L S isNewBlock s [] = (s, Ok ())"
| "check_txs L S isNewBlock s ((c, t) # txs) =
     (case IsTxValid L S s t of
        (t', Ok _) \<Rightarrow>
          (case (if isNewBlock
                 then (case GetTxBlock S s c of
                         Ok _ \<Rightarrow> Err (ErrNew ''tx already in previous block'')
                       | Err e \<Rightarrow> if errors_Is e ErrNotFound then Ok ()
                                 else Err (ErrWrap ''checking for preexisting tx'' e)
                       | Panic \<Rightarrow> Panic
                       | Diverge \<Rightarrow> Diverge)
                 else Ok ()) of
             Ok _ \<Rightarrow>
               (case ApplyTx S s c t' of
                  (s', Ok _) \<Rightarrow> check_txs L S isNewBlock s' txs
                | (s', r) \<Rightarrow> (s', wrap ''applying test tx'' r))
           | r \<Rightarrow> (s, r))
      | (t', r) \<Rightarrow> (s, wrap ''invalid tx in block'' r))"

text \<open>
  \<^verbatim>\<open>IsBlockValid\<close> works on the store \<open>s\<close> and on a test store started from it; the deferred function
  completes the test on the first store, and only logs its error.
\<close>

definition complete_test :: "'s Store \<Rightarrow> 's \<Rightarrow> unit result \<Rightarrow> 's \<times> unit result" where
  "complete_test S s r =
     (case CompleteTest S s of
        (s', Panic) \<Rightarrow> (s', Panic)
      | (s', Diverge) \<Rightarrow> (s', Diverge)
      | (s', _) \<Rightarrow> (s', r))"

definition IsBlockValid ::
    "'z lib_scheme \<Rightarrow> 's Store \<Rightarrow> range_order \<Rightarrow> 's \<Rightarrow> Block \<Rightarrow> bool \<Rightarrow> 's \<times> unit result" where
  "IsBlockValid L S ord s b isNewBlock =
     (case MarkBlock S ord s (b_ID b) BlockStateUnvalidated of
        (s1, Ok _) \<Rightarrow>
          (case wrap ''getting block txs'' (AllTx S s1 b) of
             Ok txs \<Rightarrow>
               (case wrap ''failed to start test apply'' (StartTest S s1) of
                  Ok test \<Rightarrow>
                    complete_test S s1
                      (case check_txs L S isNewBlock test (ord txs) of
                         (test', Ok _) \<Rightarrow>
                           wrap ''marking block validated''
                             (snd (MarkBlock S ord test' (b_ID b) BlockStateValidated))
                       | (test', r) \<Rightarrow> r)
                | r \<Rightarrow> (s1, fail_as r ()))
           | r \<Rightarrow> (s1, fail_as r ()))
      | (s1, r) \<Rightarrow> (s1, wrap ''marking block unvalidated'' r))"

section \<open>Replay from a tip\<close>

text \<open>
  The queue of blocks from the tip back to the last applied block or to a block without an
  identifier, newest first; \<open>None\<close> where the walk never ends.
\<close>

partial_function (option) fetch_blocks ::
    "('s \<Rightarrow> cid \<Rightarrow> Block result) \<Rightarrow> 's \<Rightarrow> cid \<Rightarrow> cid \<Rightarrow> Block \<Rightarrow> Block list \<Rightarrow> Block list result option" where
  "fetch_blocks getBlock s undef lastID currentTip queue =
     (if b_ID currentTip \<noteq> lastID \<and> b_ID currentTip \<noteq> undef
      then (case wrap ''getting block'' (getBlock s (b_Parent currentTip)) of
              Ok b \<Rightarrow> fetch_blocks getBlock s undef lastID b (queue @ [b])
            | Err e \<Rightarrow> Some (Err e)
            | Panic \<Rightarrow> Some Panic
            | Diverge \<Rightarrow> Some Diverge)
      else Some (Ok queue))"

text \<open>Each block of the queue is validated and marked; the orders of the ranges vary by position.\<close>

fun apply_blocks ::
    "'z lib_scheme \<Rightarrow> 's Store \<Rightarrow> (nat \<Rightarrow> range_order) \<Rightarrow> (nat \<Rightarrow> range_order) \<Rightarrow> 's \<Rightarrow> nat \<Rightarrow> Block list
       \<Rightarrow> 's \<times> unit result" where
  "apply_blocks L S vord mord s i [] = (s, Ok ())"
| "apply_blocks L S vord mord s i (b # bs) =
     (case IsBlockValid L S (vord i) s b True of
        (s1, Ok _) \<Rightarrow>
          (case MarkBlock S (mord i) s1 (b_ID b) BlockStateAccepted of
             (s2, Ok _) \<Rightarrow> apply_blocks L S vord mord s2 (Suc i) bs
           | (s2, r) \<Rightarrow> (s2, wrap ''indexing block'' r))
      | (s1, r) \<Rightarrow> (s1, wrap ''validating block'' r))"

definition ApplyFromTip ::
    "'z lib_scheme \<Rightarrow> 's Store \<Rightarrow> (nat \<Rightarrow> range_order) \<Rightarrow> (nat \<Rightarrow> range_order) \<Rightarrow> 's \<Rightarrow> cid
       \<Rightarrow> 's \<times> unit result" where
  "ApplyFromTip L S vord mord s i =
     (case wrap ''getting last applied block'' (GetLastApplied S s) of
        Ok lastApplied \<Rightarrow>
          (case wrap ''getting tip block'' (GetBlock S s i) of
             Ok tip \<Rightarrow>
               (case lastApplied of
                  None \<Rightarrow> (s, Panic)
                | Some la \<Rightarrow>
                    (case fetch_blocks (GetBlock S) s (cid_Undef L) (b_ID la) tip [tip] of
                       None \<Rightarrow> (s, Diverge)
                     | Some (Ok queue) \<Rightarrow> apply_blocks L S vord mord s 0 (rev queue)
                     | Some r \<Rightarrow> (s, fail_as r ())))
           | r \<Rightarrow> (s, fail_as r ()))
      | r \<Rightarrow> (s, fail_as r ()))"

section \<open>The mock validator\<close>

definition Mock_IsBlockValid :: "'s \<Rightarrow> Block \<Rightarrow> bool \<Rightarrow> 's \<times> unit result" where
  "Mock_IsBlockValid s b isNewBlock = (s, Ok ())"

definition Mock_IsTxValid :: "Tx \<Rightarrow> Tx \<times> unit result" where
  "Mock_IsTxValid t = (t, Ok ())"

definition Mock_ApplyFromTip :: "'s \<Rightarrow> cid \<Rightarrow> 's \<times> unit result" where
  "Mock_ApplyFromTip s i = (s, Ok ())"

end
