(* ===== verification/Consensus_Types.thy ===== *)
theory Consensus_Types
  imports MemPool_Model Validator_Model
begin

text \<open>
  \<^verbatim>\<open>pkg/did/consensus/msg.go\<close>, \<^verbatim>\<open>state.go\<close>, \<^verbatim>\<open>crypto.go\<close> and \<^verbatim>\<open>internal/utils/resync\<close>: the messages of the
  protocol, the round state, the resettable once, the timers, and the record of a consensus node.
  Pointers of a message are options, since a decoded message may leave any of them nil.
\<close>

section \<open>Messages\<close>

type_synonym peer_ID = string

abbreviation MsgTypeTx :: "16 word" where "MsgTypeTx \<equiv> 1"
abbreviation MsgTypeBlock :: "16 word" where "MsgTypeBlock \<equiv> 2"
abbreviation MsgTypeConsensus :: "16 word" where "MsgTypeConsensus \<equiv> 3"

abbreviation ConsensusMsgTypeNewRound :: uint8 where "ConsensusMsgTypeNewRound \<equiv> 1"
abbreviation ConsensusMsgTypeProposal :: uint8 where "ConsensusMsgTypeProposal \<equiv> 2"
abbreviation ConsensusMsgTypeVote :: uint8 where "ConsensusMsgTypeVote \<equiv> 3"
abbreviation ConsensusMsgTypeBlock :: uint8 where "ConsensusMsgTypeBlock \<equiv> 4"
abbreviation ConsensusMsgTypeEvidence :: uint8 where "ConsensusMsgTypeEvidence \<equiv> 5"

abbreviation VoteTypePreVote :: uint8 where "VoteTypePreVote \<equiv> 1"
abbreviation VoteTypePreCommit :: uint8 where "VoteTypePreCommit \<equiv> 2"

record TxMsg =
  txm_Tx :: "Tx option"
  txm_TTL :: int

record BlockMsg =
  bm_Block :: "Block option"

record ConsensusMsgNewRound =
  nr_Height :: uint64
  nr_Round :: uint32
  nr_LastCommitRound :: uint32
  nr_Timestamp :: int

record ConsensusMsgProposal =
  pr_Height :: uint64
  pr_Round :: uint32
  pr_BlockID :: string
  pr_Timestamp :: int

record ConsensusMsgVote =
  v_Type :: uint8
  v_Height :: uint64
  v_Round :: uint32
  v_BlockID :: string
  v_Timestamp :: int
  v_Validator :: string

record ConsensusMsgEvidence =
  ev_Vote :: ConsensusMsgVote
  ev_Accepted :: bool

record ConsensusMsgBlock =
  cb_Height :: uint64
  cb_Round :: uint32
  cb_CID :: string
  cb_Validators :: bytes
  cb_Signature :: bytes

record ConsensusMsg =
  cm_Type :: uint8
  cm_NewRound :: "ConsensusMsgNewRound option"
  cm_Proposal :: "ConsensusMsgProposal option"
  cm_Vote :: "ConsensusMsgVote option"
  cm_Block :: "ConsensusMsgBlock option"
  cm_Evidence :: "ConsensusMsgEvidence option"

record Msg =
  m_Type :: "16 word"
  m_From :: peer_ID
  m_Chain :: bytes
  m_Tx :: "TxMsg option"
  m_Block :: "BlockMsg option"
  m_Consensus :: "ConsensusMsg option"
  m_Timestamp :: int
  m_Signature :: bytes
  m_Key :: bytes

text \<open>The interface value \<^verbatim>\<open>sendMsg\<close> is called with: a pointer to one of the five bodies.\<close>

datatype body =
    BodyNewRound ConsensusMsgNewRound
  | BodyProposal ConsensusMsgProposal
  | BodyVote ConsensusMsgVote
  | BodyEvidence ConsensusMsgEvidence
  | BodyBlock ConsensusMsgBlock

section \<open>Third-party operations of the protocol\<close>

text \<open>
  Peer identifiers of libp2p, the message codec, and the signing side of the BLS scheme (the
  aggregate of public keys comes in its marshalled form).
\<close>

record clib = lib +
  peer_String :: "peer_ID \<Rightarrow> string"
  peer_MarshalBinary :: "peer_ID \<Rightarrow> bytes option"
  peer_Marshal :: "peer_ID \<Rightarrow> bytes option"
  mp_enc_msg :: "Msg \<Rightarrow> bytes option"
  mp_dec_msg :: "bytes \<Rightarrow> Msg option"
  bls_Sign :: "bytes \<Rightarrow> bytes \<Rightarrow> bytes option"
  bls_AggregatePublicKeys :: "bytes list \<Rightarrow> bytes option"
  bls_AggregateSignatures :: "bytes list \<Rightarrow> bytes option"

definition Msg_Marshal :: "'z clib_scheme \<Rightarrow> Msg \<Rightarrow> bytes result" where
  "Msg_Marshal L m = (case mp_enc_msg L m of None \<Rightarrow> Err (ErrNew ''msgpack'') | Some b \<Rightarrow> Ok b)"

text \<open>
  \<^verbatim>\<open>signatureData\<close> clears the signature while it marshals; on an error the message stays cleared.
\<close>

definition signatureData :: "'z clib_scheme \<Rightarrow> Msg \<Rightarrow> Msg \<times> bytes result" where
  "signatureData L m =
     (let sig = m_Signature m; m' = m\<lparr>m_Signature := []\<rparr> in
      case Msg_Marshal L m' of
        Ok d \<Rightarrow> (m'\<lparr>m_Signature := sig\<rparr>, Ok d)
      | r \<Rightarrow> (m', r))"

definition AggregateSignatures :: "'z clib_scheme \<Rightarrow> bytes list \<Rightarrow> bytes result" where
  "AggregateSignatures L sigs =
     (case bls_AggregateSignatures L sigs of None \<Rightarrow> Err (ErrNew ''bls'') | Some s \<Rightarrow> Ok s)"

definition AggregatePublicKeys :: "'z clib_scheme \<Rightarrow> bytes list \<Rightarrow> bytes result" where
  "AggregatePublicKeys L pks =
     (case bls_AggregatePublicKeys L pks of None \<Rightarrow> Err (ErrNew ''bls'') | Some k \<Rightarrow> Ok k)"

section \<open>Once\<close>

text \<open>
  \<^verbatim>\<open>resync.Once\<close>: the flag, \<^verbatim>\<open>Do\<close> and \<^verbatim>\<open>Reset\<close>. \<^verbatim>\<open>Do\<close> works on the once found by \<open>get\<close> in a state,
  and the flag is set after the action has run.
\<close>

record Once =
  once_done :: uint32

definition once_Reset :: "Once \<Rightarrow> Once" where
  "once_Reset o' = o'\<lparr>once_done := 0\<rparr>"

definition once_Do :: "('s \<Rightarrow> Once) \<Rightarrow> ((Once \<Rightarrow> Once) \<Rightarrow> 's \<Rightarrow> 's) \<Rightarrow> ('s, unit) op \<Rightarrow> ('s, unit) op" where
  "once_Do get upd f = (\<lambda>s.
     if once_done (get s) = 1 then (s, Ok ())
     else if once_done (get s) = 0 then
       (case f s of (s', r) \<Rightarrow> (upd (once_done_update (\<lambda>_. 1)) s', r))
     else (s, Ok ()))"

section \<open>Round state\<close>

datatype Step = propose | prevote | precommit | block

text \<open>
  \<^verbatim>\<open>consensus.State\<close>, used both for the committed state and for the round in progress. A vote map
  is \<open>None\<close> while it is nil (before the first round), and otherwise a list with distinct keys.
\<close>

record State =
  AmProposer :: bool
  Proposer :: string
  Height :: uint64
  Round :: uint32
  st_Step :: Step
  st_Block :: cid
  ParentBlock :: cid
  st_f :: uint64
  PreVotes :: "(peer_ID \<times> Msg) list option"
  PreCommits :: "(peer_ID \<times> Msg) list option"
  PreVotesEvidence :: "(string \<rightharpoonup> ConsensusMsgEvidence) option"
  PreCommitsEvidence :: "(string \<rightharpoonup> ConsensusMsgEvidence) option"
  lockedValue :: cid
  lockedRound :: uint32
  pvOnce :: Once
  pcOnce :: Once
  sbOnce :: Once

definition setStep :: "Step \<Rightarrow> State \<Rightarrow> State" where
  "setStep s st = st\<lparr>st_Step := s\<rparr>"

definition resetOnces :: "State \<Rightarrow> State" where
  "resetOnces st =
     st\<lparr>pvOnce := once_Reset (pvOnce st), pcOnce := once_Reset (pcOnce st), sbOnce := once_Reset (sbOnce st)\<rparr>"

text \<open>The zero value of the struct.\<close>

definition zero_State :: "'z lib_scheme \<Rightarrow> State" where
  "zero_State L =
     \<lparr>AmProposer = False, Proposer = [], Height = 0, Round = 0, st_Step = propose,
      st_Block = cid_Undef L, ParentBlock = cid_Undef L, st_f = 0, PreVotes = None, PreCommits = None,
      PreVotesEvidence = None, PreCommitsEvidence = None, lockedValue = cid_Undef L, lockedRound = 0,
      pvOnce = \<lparr>once_done = 0\<rparr>, pcOnce = \<lparr>once_done = 0\<rparr>, sbOnce = \<lparr>once_done = 0\<rparr>\<rparr>"

text \<open>The vote maps of a round are made anew together.\<close>

definition clearVotes :: "State \<Rightarrow> State" where
  "clearVotes st = st\<lparr>PreVotes := Some [], PreCommits := Some [],
     PreVotesEvidence := Some (\<lambda>_. None), PreCommitsEvidence := Some (\<lambda>_. None)\<rparr>"

section \<open>The node\<close>

text \<open>A timer with its remaining duration in seconds, or with an expiry waiting in its channel.\<close>

datatype timer = TimerStopped | TimerRunning nat | TimerFired

abbreviation timeoutPropose :: nat where "timeoutPropose \<equiv> 60"
abbreviation timeoutPrevote :: nat where "timeoutPrevote \<equiv> 60"
abbreviation timeoutPrecommit :: nat where "timeoutPrecommit \<equiv> 60"
abbreviation timeoutBlock :: nat where "timeoutBlock \<equiv> 60"

text \<open>
  \<^verbatim>\<open>stopTimer\<close>: stopping a running timer succeeds; otherwise an expiry that is waiting is drained.
\<close>

definition stopTimer :: "timer \<Rightarrow> timer" where
  "stopTimer t = (case t of TimerRunning _ \<Rightarrow> TimerStopped | TimerFired \<Rightarrow> TimerStopped | TimerStopped \<Rightarrow> TimerStopped)"

definition timer_Reset :: "nat \<Rightarrow> timer \<Rightarrow> timer" where
  "timer_Reset d t = (if t = TimerFired then TimerFired else TimerRunning d)"

definition restartTimer :: "nat \<Rightarrow> timer \<Rightarrow> timer" where
  "restartTimer d t = timer_Reset d (stopTimer t)"

text \<open>Work a handler leaves to a goroutine or to \<^verbatim>\<open>time.AfterFunc\<close>.\<close>

datatype task = TaskTx "TxMsg option" string | TaskSendBlock

text \<open>
  The \<^verbatim>\<open>Consensus\<close> struct over a store state \<open>'s\<close>: \<^verbatim>\<open>propsalState\<close> keeps its name. The topics of \<^verbatim>\<open>p2p\<close>
  are the channels joined; \<open>c_sent\<close> logs what was published and \<open>c_tasks\<close> the pending work. The
  store and the validator are the method tables the operations are given.
\<close>

record 's Consensus =
  c_chain :: bytes
  c_id :: peer_ID
  c_signingKey :: "bytes option"
  c_genesis :: "GenesisInfo option"
  c_memPool :: TxMemPool
  c_store :: 's
  c_state :: State
  c_propsalState :: State
  c_timerPropose :: timer
  c_timerPrevote :: timer
  c_timerPrecommit :: timer
  c_timerBlock :: timer
  c_topics :: "string list"
  c_clock :: int
  c_sent :: "(string \<times> Msg) list"
  c_tasks :: "task list"

text \<open>
  What the surroundings decide during one call: the order of map ranges, the nonce the random
  source yields, whether joining a topic, subscribing to it and publishing succeed.
\<close>

record env =
  env_ord :: range_order
  env_ord' :: range_order
  env_votes :: "(peer_ID \<times> Msg) list \<Rightarrow> (peer_ID \<times> Msg) list"
  env_nonce :: "bytes option"
  env_join :: "string \<Rightarrow> bool"
  env_subscribe :: "string \<Rightarrow> bool"
  env_publish :: "bytes \<Rightarrow> bool"

definition env_ok :: "env \<Rightarrow> bool" where
  "env_ok e \<longleftrightarrow> range_ok (env_ord e) \<and> range_ok (env_ord' e) \<and> (\<forall>xs. mset (env_votes e xs) = mset xs)"

text \<open>The \<^verbatim>\<open>Validator\<close> interface, on the store the node shares with its validator.\<close>

record 's Validator =
  V_IsBlockValid :: "range_order \<Rightarrow> 's \<Rightarrow> Block \<Rightarrow> bool \<Rightarrow> 's \<times> unit result"
  V_IsTxValid :: "'s \<Rightarrow> Tx \<Rightarrow> Tx \<times> unit result"

definition NewTxValidator :: "'z lib_scheme \<Rightarrow> 's Store \<Rightarrow> 's Validator" where
  "NewTxValidator L S = \<lparr>V_IsBlockValid = IsBlockValid L S, V_IsTxValid = IsTxValid L S\<rparr>"

abbreviation pubsubMsgsChanName :: string where "pubsubMsgsChanName \<equiv> ''/did/msgs''"
abbreviation pubsubTxChanName :: string where "pubsubTxChanName \<equiv> ''/did/tx''"

end
