(* ===== verification/Consensus_Model.thy ===== *)
theory Consensus_Model
  imports Consensus_Types
begin

text \<open>
  \<^verbatim>\<open>pkg/did/consensus/consensus.go\<close>, \<^verbatim>\<open>blocks.go\<close>, \<^verbatim>\<open>p2p.go\<close> and \<^verbatim>\<open>options.go\<close>: every handler of the
  consensus engine as an operation on the node, in the order of the code's statements. Logging and
  the tracer's callbacks have no effect on the node and are left out.
\<close>

section \<open>Access to the parts of a node\<close>

definition modState :: "(State \<Rightarrow> State) \<Rightarrow> ('s Consensus, unit) op" where
  "modState f = modify (\<lambda>c. c\<lparr>c_propsalState := f (c_propsalState c)\<rparr>)"

definition onStore :: "('s, 'a) op \<Rightarrow> ('s Consensus, 'a) op" where
  "onStore f = (\<lambda>c. case f (c_store c) of (s, r) \<Rightarrow> (c\<lparr>c_store := s\<rparr>, r))"

definition doOnce :: "(State \<Rightarrow> Once) \<Rightarrow> ((Once \<Rightarrow> Once) \<Rightarrow> State \<Rightarrow> State) \<Rightarrow> ('s Consensus, unit) op
    \<Rightarrow> ('s Consensus, unit) op" where
  "doOnce get upd f =
     once_Do (\<lambda>c. get (c_propsalState c)) (\<lambda>g c. c\<lparr>c_propsalState := upd g (c_propsalState c)\<rparr>) f"

definition restartPropose :: "('s Consensus, unit) op" where
  "restartPropose = modify (\<lambda>c. c\<lparr>c_timerPropose := restartTimer timeoutPropose (c_timerPropose c)\<rparr>)"

definition restartPrevote :: "('s Consensus, unit) op" where
  "restartPrevote = modify (\<lambda>c. c\<lparr>c_timerPrevote := restartTimer timeoutPrevote (c_timerPrevote c)\<rparr>)"

definition restartPrecommit :: "('s Consensus, unit) op" where
  "restartPrecommit =
     modify (\<lambda>c. c\<lparr>c_timerPrecommit := restartTimer timeoutPrecommit (c_timerPrecommit c)\<rparr>)"

definition restartBlock :: "('s Consensus, unit) op" where
  "restartBlock = modify (\<lambda>c. c\<lparr>c_timerBlock := restartTimer timeoutBlock (c_timerBlock c)\<rparr>)"

section \<open>Publishing and receiving\<close>

definition PublishContext :: "'z clib_scheme \<Rightarrow> env \<Rightarrow> string \<Rightarrow> Msg \<Rightarrow> ('s Consensus, unit) op" where
  "PublishContext L e channel m = inspect (\<lambda>c.
     if channel \<notin> set (c_topics c) then raise (ErrNew ''not subscribed'')
     else bindM (wrapM [] (lift (Msg_Marshal L m))) (\<lambda>b.
       if env_publish e b then modify (\<lambda>c. c\<lparr>c_sent := c_sent c @ [(channel, m)]\<rparr>)
       else raise (ErrNew ''publish'')))"

text \<open>A message as it comes from the router: the sender's identifier, the data and the key.\<close>

record RawMsg =
  raw_From :: bytes
  raw_Data :: bytes
  raw_Key :: bytes

text \<open>The receiving loop of \<^verbatim>\<open>Msgs\<close>: own messages and undecodable ones are skipped.\<close>

definition receive :: "'z clib_scheme \<Rightarrow> peer_ID \<Rightarrow> RawMsg \<Rightarrow> Msg option" where
  "receive L self raw =
     (let selfBytes = (case peer_Marshal L self of Some b \<Rightarrow> b | None \<Rightarrow> []) in
      if selfBytes = raw_From raw then None
      else case mp_dec_msg L (raw_Data raw) of
             None \<Rightarrow> None
           | Some m \<Rightarrow> Some (m\<lparr>m_Key := raw_Key raw\<rparr>))"

text \<open>\<^verbatim>\<open>Msgs\<close> joins the topic of a channel unless that was done before, and subscribes to it.\<close>

definition Msgs :: "env \<Rightarrow> string \<Rightarrow> ('s Consensus, unit) op" where
  "Msgs e channel =
     andThen
       (inspect (\<lambda>c.
          if channel \<in> set (c_topics c) then ret ()
          else if env_join e channel then modify (\<lambda>c. c\<lparr>c_topics := channel # c_topics c\<rparr>)
          else raise (ErrWrap ''join data topic'' (ErrNew ''join''))))
       (if env_subscribe e channel then ret ()
        else raise (ErrWrap ''subscribing to data topic'' (ErrNew ''subscribe'')))"

section \<open>Sending\<close>

definition wrapper :: "body \<Rightarrow> ConsensusMsg" where
  "wrapper b =
     (let w = \<lparr>cm_Type = 0, cm_NewRound = None, cm_Proposal = None, cm_Vote = None, cm_Block = None,
               cm_Evidence = None\<rparr> in
      case b of
        BodyNewRound m \<Rightarrow> w\<lparr>cm_Type := ConsensusMsgTypeNewRound, cm_NewRound := Some m\<rparr>
      | BodyProposal m \<Rightarrow> w\<lparr>cm_Type := ConsensusMsgTypeProposal, cm_Proposal := Some m\<rparr>
      | BodyVote m \<Rightarrow> w\<lparr>cm_Type := ConsensusMsgTypeVote, cm_Vote := Some m\<rparr>
      | BodyEvidence m \<Rightarrow> w\<lparr>cm_Type := ConsensusMsgTypeEvidence, cm_Evidence := Some m\<rparr>
      | BodyBlock m \<Rightarrow> w\<lparr>cm_Type := ConsensusMsgTypeBlock, cm_Block := Some m\<rparr>)"

text \<open>The signed message of a body, without the publication.\<close>

definition signedMsg :: "'z clib_scheme \<Rightarrow> 's Consensus \<Rightarrow> bytes \<Rightarrow> body \<Rightarrow> Msg result" where
  "signedMsg L c key b =
     (let hl = \<lparr>m_Type = MsgTypeConsensus, m_From = c_id c, m_Chain = c_chain c, m_Tx = None,
                m_Block = None, m_Consensus = Some (wrapper b), m_Timestamp = c_clock c,
                m_Signature = [], m_Key = []\<rparr> in
      case peer_MarshalBinary L (c_id c) of
        None \<Rightarrow> Err (ErrWrap ''marshaling id'' (ErrNew ''peer''))
      | Some d \<Rightarrow>
          (case signatureData L hl of
             (hl', r) \<Rightarrow>
               bindr (wrap ''unable to create sign data'' r) (\<lambda>signData.
                 case bls_Sign L key (d @ signData) of
                   None \<Rightarrow> Err (ErrWrap ''signing vote data'' (ErrNew ''bls''))
                 | Some sig \<Rightarrow> Ok (hl'\<lparr>m_Signature := sig\<rparr>))))"

definition sendMsg :: "'z clib_scheme \<Rightarrow> env \<Rightarrow> body \<Rightarrow> ('s Consensus, unit) op" where
  "sendMsg L e b = inspect (\<lambda>c.
     case c_signingKey c of
       None \<Rightarrow> ret ()
     | Some key \<Rightarrow> bindM (lift (signedMsg L c key b)) (\<lambda>hl. PublishContext L e pubsubMsgsChanName hl))"

definition sendNewRound :: "'z clib_scheme \<Rightarrow> env \<Rightarrow> ('s Consensus, unit) op" where
  "sendNewRound L e = inspect (\<lambda>c.
     sendMsg L e (BodyNewRound
       \<lparr>nr_Height = Height (c_propsalState c), nr_Round = Round (c_propsalState c),
        nr_LastCommitRound = Round (c_state c), nr_Timestamp = c_clock c\<rparr>))"

definition sendProposal :: "'z clib_scheme \<Rightarrow> env \<Rightarrow> ('s Consensus, unit) op" where
  "sendProposal L e = inspect (\<lambda>c.
     sendMsg L e (BodyProposal
       \<lparr>pr_Height = Height (c_propsalState c), pr_Round = Round (c_propsalState c),
        pr_BlockID = cid_String L (st_Block (c_propsalState c)), pr_Timestamp = c_clock c\<rparr>))"

definition sendVote :: "'z clib_scheme \<Rightarrow> env \<Rightarrow> uint8 \<Rightarrow> string \<Rightarrow> ('s Consensus, unit) op" where
  "sendVote L e t value = inspect (\<lambda>c.
     sendMsg L e (BodyVote
       \<lparr>v_Type = t, v_Height = Height (c_propsalState c), v_Round = Round (c_propsalState c),
        v_BlockID = value, v_Timestamp = c_clock c, v_Validator = peer_String L (c_id c)\<rparr>))"

text \<open>A write to a nil map panics.\<close>

definition putPreVotesEvidence :: "string \<Rightarrow> ConsensusMsgEvidence \<Rightarrow> ('s Consensus, unit) op" where
  "putPreVotesEvidence k m = inspect (\<lambda>c.
     case PreVotesEvidence (c_propsalState c) of
       None \<Rightarrow> panic
     | Some ev \<Rightarrow> modState (\<lambda>p. p\<lparr>PreVotesEvidence := Some (ev(k \<mapsto> m))\<rparr>))"

definition putPreCommitsEvidence :: "string \<Rightarrow> ConsensusMsgEvidence \<Rightarrow> ('s Consensus, unit) op" where
  "putPreCommitsEvidence k m = inspect (\<lambda>c.
     case PreCommitsEvidence (c_propsalState c) of
       None \<Rightarrow> panic
     | Some ev \<Rightarrow> modState (\<lambda>p. p\<lparr>PreCommitsEvidence := Some (ev(k \<mapsto> m))\<rparr>))"

definition sendEvidence :: "'z clib_scheme \<Rightarrow> env \<Rightarrow> ConsensusMsgVote \<Rightarrow> ('s Consensus, unit) op" where
  "sendEvidence L e v =
     (let m = \<lparr>ev_Vote = v, ev_Accepted = True\<rparr> in
      andThen (if v_Type v = VoteTypePreVote then putPreVotesEvidence (v_Validator v) m
               else if v_Type v = VoteTypePreCommit then putPreCommitsEvidence (v_Validator v) m
               else ret ())
        (sendMsg L e (BodyEvidence m)))"

text \<open>The loop of \<^verbatim>\<open>sendBlock\<close> over the precommits: the voters' keys and their signatures.\<close>

fun gather :: "'z clib_scheme \<Rightarrow> 's Store \<Rightarrow> 's \<Rightarrow> (peer_ID \<times> Msg) list \<Rightarrow> (bytes list \<times> bytes list) result" where
  "gather L S s [] = Ok ([], [])"
| "gather L S s ((p, vote) # rest) =
     bindr (wrap ''finding node'' (GetNode S s (peer_String L p))) (\<lambda>n.
     bindr (wrap ''unmarshalling node key'' (NewBls12381PublicKey L (node_Key n))) (\<lambda>pk.
     bindr (gather L S s rest) (\<lambda>(pks, sigs). Ok (pk # pks, m_Signature vote # sigs))))"

definition votes_of :: "(peer_ID \<times> Msg) list option \<Rightarrow> (peer_ID \<times> Msg) list" where
  "votes_of vs = (case vs of None \<Rightarrow> [] | Some xs \<Rightarrow> xs)"

definition blockMsg :: "'z clib_scheme \<Rightarrow> 's Store \<Rightarrow> env \<Rightarrow> 's Consensus \<Rightarrow> ConsensusMsgBlock result" where
  "blockMsg L S e c =
     (let p = c_propsalState c in
      bindr (gather L S (c_store c) (env_votes e (votes_of (PreCommits p)))) (\<lambda>(pks, sigs).
      bindr (wrap ''aggregating public keys'' (AggregatePublicKeys L pks)) (\<lambda>v.
      bindr (wrap ''aggregating signatures'' (AggregateSignatures L sigs)) (\<lambda>s.
        Ok \<lparr>cb_Height = Height p, cb_Round = lockedRound p, cb_CID = cid_String L (lockedValue p),
            cb_Validators = v, cb_Signature = s\<rparr>))))"

definition sendBlock :: "'z clib_scheme \<Rightarrow> 's Store \<Rightarrow> env \<Rightarrow> ('s Consensus, ConsensusMsgBlock) op" where
  "sendBlock L S e = inspect (\<lambda>c.
     bindM (lift (blockMsg L S e c)) (\<lambda>msg. andThen (sendMsg L e (BodyBlock msg)) (ret msg)))"

section \<open>Making a block\<close>

definition takeTxs :: "nat \<Rightarrow> ('s Consensus, Tx list) op" where
  "takeTxs n = (\<lambda>c.
     case drain TxMemPool_GetTx n (c_memPool c) of
       Ok (ts, p) \<Rightarrow> (c\<lparr>c_memPool := p\<rparr>, Ok ts)
     | Err e \<Rightarrow> (c, Err e)
     | Panic \<Rightarrow> (c, Panic)
     | Diverge \<Rightarrow> (c, Diverge))"

fun putTxs :: "'s Store \<Rightarrow> Tx list \<Rightarrow> ('s, cid list) op" where
  "putTxs S [] = ret []"
| "putTxs S (t # ts) =
     bindM (wrapM ''storing tx'' (\<lambda>s. PutTx S s t)) (\<lambda>c. bindM (putTxs S ts) (\<lambda>cs. ret (c # cs)))"

text \<open>
  \<^verbatim>\<open>makeBlock\<close>; \<open>None\<close> is the nil block of an empty pool. The clock counts nanoseconds.
\<close>

definition makeBlock :: "'z clib_scheme \<Rightarrow> 's Store \<Rightarrow> env \<Rightarrow> ('s Consensus, Block option) op" where
  "makeBlock L S e = inspect (\<lambda>c.
     case env_nonce e of
       None \<Rightarrow> raise (ErrNew ''rand'')
     | Some nonce \<Rightarrow>
         (let n = (if TxMemPool_Len (c_memPool c) < MaxBlockTxCount then TxMemPool_Len (c_memPool c)
                   else MaxBlockTxCount) in
          if n = 0 then ret None
          else
            bindM (takeTxs n) (\<lambda>txs.
            bindM (onStore (putTxs S txs)) (\<lambda>txCids.
            bindM (wrapM ''creating block bloom filter'' (lift (MakeBloom L txCids))) (\<lambda>bloom.
            bindM (wrapM ''creating tx set'' (onStore (\<lambda>s. NewTxSet L S s txCids))) (\<lambda>txSet.
            bindM (wrapM ''storing tx set'' (onStore (\<lambda>s. PutSet S s txSet))) (\<lambda>txsCid.
              ret (Some \<lparr>b_Version = Chain_Version, b_ID = cid_Undef L,
                         b_Parent = st_Block (c_state c), b_Height = Height (c_propsalState c),
                         b_CreatedAt = c_clock c div 1000000000,
                         b_Proposer = peer_String L (c_id c), b_Signature = [], b_Nonce = nonce,
                         b_Bloom = bloom, b_TxRoot = txsCid\<rparr>))))))))"

section \<open>Rounds\<close>

text \<open>
  The loop that removes the node itself from the list of nodes, over the indices of the list it
  started with: the last element moves to the hole and the slice is cut. \<open>None\<close> is an index out of
  range. The result is the array and the length of the slice.
\<close>

fun removeSelf :: "string \<Rightarrow> nat list \<Rightarrow> string list \<Rightarrow> nat \<Rightarrow> (string list \<times> nat) option" where
  "removeSelf me [] arr len = Some (arr, len)"
| "removeSelf me (i # is) arr len =
     (if arr ! i = me then
        (if i < len then removeSelf me is (arr[i := arr ! (len - 1)]) (len - 1) else None)
      else removeSelf me is arr len)"

definition threshold :: "nat \<Rightarrow> uint64" where
  "threshold n = (of_nat n div 3) * 2 + 1"

definition setThreshold :: "'z clib_scheme \<Rightarrow> 's Store \<Rightarrow> ('s Consensus, unit) op" where
  "setThreshold L S = inspect (\<lambda>c.
     bindM (wrapM ''getting nodes'' (lift (Nodes S (c_store c)))) (\<lambda>n.
       case removeSelf (peer_String L (c_id c)) [0..<length n] n (length n) of
         None \<Rightarrow> panic
       | Some (_, len) \<Rightarrow> modState (\<lambda>p. p\<lparr>st_f := threshold len\<rparr>)))"

definition buildBlock :: "'z clib_scheme \<Rightarrow> 's Store \<Rightarrow> env \<Rightarrow> ('s Consensus, unit) op" where
  "buildBlock L S e = inspect (\<lambda>c.
     whenM (st_Block (c_propsalState c) = cid_Undef L)
       (bindM (wrapM ''making new block'' (makeBlock L S e)) (\<lambda>b.
          case b of
            None \<Rightarrow> ret ()
          | Some blk \<Rightarrow>
              bindM (wrapM ''storing new block'' (onStore (\<lambda>s. PutBlock S s blk)))
                (\<lambda>k. modState (\<lambda>p. p\<lparr>st_Block := k\<rparr>)))))"

definition beginRound :: "'z clib_scheme \<Rightarrow> bool \<Rightarrow> 's Consensus \<Rightarrow> 's Consensus" where
  "beginRound L inc c =
     (let p = resetOnces (clearVotes ((setStep propose
                ((c_propsalState c)\<lparr>AmProposer := (Proposer (c_state c) = peer_String L (c_id c)),
                   lockedRound := 0, lockedValue := cid_Undef L\<rparr>))
                \<lparr>Height := Height (c_state c) + 1\<rparr>));
          p' = (if inc then setStep prevote (p\<lparr>Round := Round p + 1\<rparr>)
                else p\<lparr>Round := 1, st_Block := cid_Undef L\<rparr>)
      in c\<lparr>c_propsalState := p'\<rparr>)"

definition startRound :: "'z clib_scheme \<Rightarrow> 's Store \<Rightarrow> env \<Rightarrow> bool \<Rightarrow> ('s Consensus, unit) op" where
  "startRound L S e inc =
     andThen (modify (beginRound L inc))
       (inspect (\<lambda>c.
          if \<not> AmProposer (c_propsalState c) then
            andThen (modState (\<lambda>p. if st_Block p = cid_Undef L \<and> Round p > 1 then setStep propose p else p))
              restartPropose
          else
            seqM [restartPrevote,
                  wrapM ''sending new round'' (sendNewRound L e),
                  setThreshold L S,
                  buildBlock L S e,
                  wrapM ''sending proposal'' (sendProposal L e),
                  modState (setStep prevote)]))"

text \<open>
  The proposer of a beacon value: \<open>Ok None\<close> where the node list cannot be read, a division by zero
  where it is empty.
\<close>

definition proposer :: "'s Store \<Rightarrow> 's \<Rightarrow> uint64 \<Rightarrow> string option result" where
  "proposer S s b =
     (case Nodes S s of
        Err _ \<Rightarrow> Ok None
      | Panic \<Rightarrow> Panic
      | Diverge \<Rightarrow> Diverge
      | Ok nodes \<Rightarrow>
          if (of_nat (length nodes) :: uint64) = 0 then Panic
          else Ok (Some (nodes ! unat (b mod of_nat (length nodes)))))"

definition watchProposer :: "'z clib_scheme \<Rightarrow> 's Store \<Rightarrow> env \<Rightarrow> uint64 \<Rightarrow> ('s Consensus, unit) op" where
  "watchProposer L S e b = inspect (\<lambda>c.
     bindM (lift (proposer S (c_store c) b)) (\<lambda>r.
       case r of
         None \<Rightarrow> ret ()
       | Some i \<Rightarrow>
           seqM [modState (setStep propose),
                 modify (\<lambda>c. c\<lparr>c_state := (c_state c)\<lparr>Proposer := i\<rparr>\<rparr>),
                 logged (startRound L S e False)]))"

section \<open>Votes\<close>

definition votes_len :: "(peer_ID \<times> Msg) list option \<Rightarrow> uint64" where
  "votes_len vs = of_nat (length (votes_of vs))"

definition putPreVote :: "Msg \<Rightarrow> ('s Consensus, unit) op" where
  "putPreVote msg = inspect (\<lambda>c.
     case PreVotes (c_propsalState c) of
       None \<Rightarrow> panic
     | Some vs \<Rightarrow> modState (\<lambda>p. p\<lparr>PreVotes := Some (alist_put (m_From msg) msg vs)\<rparr>))"

definition putPreCommit :: "Msg \<Rightarrow> ('s Consensus, unit) op" where
  "putPreCommit msg = inspect (\<lambda>c.
     case PreCommits (c_propsalState c) of
       None \<Rightarrow> panic
     | Some vs \<Rightarrow> modState (\<lambda>p. p\<lparr>PreCommits := Some (alist_put (m_From msg) msg vs)\<rparr>))"

definition lockBlock :: "'z clib_scheme \<Rightarrow> env \<Rightarrow> ('s Consensus, unit) op" where
  "lockBlock L e =
     seqM [modify (\<lambda>c. c\<lparr>c_timerPrevote := stopTimer (c_timerPrevote c)\<rparr>),
           modState (setStep precommit),
           modState (\<lambda>p. p\<lparr>lockedValue := st_Block p\<rparr>),
           modState (\<lambda>p. p\<lparr>lockedRound := Round p\<rparr>),
           inspect (\<lambda>c. logged
             (andThen (sendVote L e VoteTypePreCommit (cid_String L (st_Block (c_propsalState c))))
                restartPrecommit))]"

definition onPreVote :: "'z clib_scheme \<Rightarrow> env \<Rightarrow> Msg \<Rightarrow> ('s Consensus, unit) op" where
  "onPreVote L e msg = inspect (\<lambda>c.
     if st_Step (c_propsalState c) \<noteq> prevote then ret ()
     else seqM [whenM (AmProposer (c_propsalState c)) restartPrecommit,
                putPreVote msg,
                inspect (\<lambda>c. whenM (votes_len (PreVotes (c_propsalState c)) > st_f (c_propsalState c))
                  (doOnce pcOnce pcOnce_update (lockBlock L e)))])"

definition endVotes :: "('s Consensus, unit) op" where
  "endVotes =
     seqM [modify (\<lambda>c. c\<lparr>c_timerPrecommit := stopTimer (c_timerPrecommit c)\<rparr>),
           modState (setStep block),
           inspect (\<lambda>c.
             if AmProposer (c_propsalState c)
             then modify (\<lambda>c. c\<lparr>c_tasks := c_tasks c @ [TaskSendBlock]\<rparr>)
             else restartBlock)]"

definition onPreCommit :: "Msg \<Rightarrow> ('s Consensus, unit) op" where
  "onPreCommit msg = inspect (\<lambda>c.
     if st_Step (c_propsalState c) \<noteq> precommit then ret ()
     else seqM [whenM (AmProposer (c_propsalState c)) restartPrecommit,
                putPreCommit msg,
                inspect (\<lambda>c. whenM (votes_len (PreCommits (c_propsalState c)) > st_f (c_propsalState c))
                  (doOnce sbOnce sbOnce_update endVotes))])"

definition onVote :: "'z clib_scheme \<Rightarrow> env \<Rightarrow> Msg \<Rightarrow> string \<Rightarrow> ('s Consensus, unit) op" where
  "onVote L e msg from = inspect (\<lambda>c.
     case m_Consensus msg of
       None \<Rightarrow> panic
     | Some cm \<Rightarrow>
         if from = Proposer (c_state c) then ret ()
         else
           (case cm_Vote cm of
              None \<Rightarrow> panic
            | Some vote \<Rightarrow>
                if v_Height vote \<noteq> Height (c_propsalState c)
                   \<or> v_BlockID vote \<noteq> cid_String L (st_Block (c_propsalState c))
                   \<or> v_Round vote \<noteq> Round (c_propsalState c)
                then ret ()
                else
                  andThen
                    (if v_Type vote = VoteTypePreVote then onPreVote L e msg
                     else if v_Type vote = VoteTypePreCommit then onPreCommit msg
                     else ret ())
                    (inspect (\<lambda>c. whenM (AmProposer (c_propsalState c)) (logged (sendEvidence L e vote))))))"

section \<open>Messages of the proposer\<close>

definition onNewRound :: "'z clib_scheme \<Rightarrow> ConsensusMsgNewRound option \<Rightarrow> string \<Rightarrow> ('s Consensus, unit) op" where
  "onNewRound L msg from = inspect (\<lambda>c.
     if from \<noteq> Proposer (c_state c) then ret ()
     else
       (case msg of
          None \<Rightarrow> panic
        | Some m \<Rightarrow>
            andThen
              (modState (\<lambda>p. resetOnces (clearVotes ((setStep propose
                 (p\<lparr>lockedRound := 0, lockedValue := cid_Undef L\<rparr>))\<lparr>Height := nr_Height m, Round := nr_Round m\<rparr>))))
              restartPropose))"

text \<open>\<^verbatim>\<open>validate\<close> returns an undefined identifier with every error.\<close>

definition validate :: "'z clib_scheme \<Rightarrow> 's Store \<Rightarrow> 's Validator \<Rightarrow> env \<Rightarrow> string \<Rightarrow> ('s Consensus, cid) op" where
  "validate L S V e value =
     (if value = cid_String L (cid_Undef L) then ret (cid_Undef L)
      else
        (case cid_Parse L value of
           None \<Rightarrow> raise (ErrWrap ''unable to parse CID'' (ErrNew ''cid''))
         | Some cv \<Rightarrow>
             inspect (\<lambda>c.
               bindM (wrapM ''getting block'' (lift (GetBlock S (c_store c) cv))) (\<lambda>blk.
               bindM (wrapM ''invalid block'' (onStore (\<lambda>s. V_IsBlockValid V (env_ord e) s blk True))) (\<lambda>_.
                 ret cv)))))"

definition orUndef :: "'z clib_scheme \<Rightarrow> ('s Consensus, cid) op \<Rightarrow> ('s Consensus, cid) op" where
  "orUndef L m = (\<lambda>c. case m c of (c', Err _) \<Rightarrow> (c', Ok (cid_Undef L)) | (c', r) \<Rightarrow> (c', r))"

definition acceptProposal :: "'z clib_scheme \<Rightarrow> env \<Rightarrow> string \<Rightarrow> cid \<Rightarrow> ('s Consensus, unit) op" where
  "acceptProposal L e value bc =
     seqM [modState (\<lambda>p. p\<lparr>st_Block := bc\<rparr>),
           modify (\<lambda>c. c\<lparr>c_timerPropose := stopTimer (c_timerPropose c)\<rparr>),
           logged (andThen
             (sendVote L e VoteTypePreVote (if bc = cid_Undef L then cid_String L (cid_Undef L) else value))
             (andThen restartPrevote (modState (setStep prevote))))]"

definition onProposal ::
    "'z clib_scheme \<Rightarrow> 's Store \<Rightarrow> 's Validator \<Rightarrow> env \<Rightarrow> ConsensusMsgProposal option \<Rightarrow> string
       \<Rightarrow> ('s Consensus, unit) op" where
  "onProposal L S V e msg from = inspect (\<lambda>c.
     if from \<noteq> Proposer (c_state c) then ret ()
     else if st_Step (c_propsalState c) \<noteq> propose then ret ()
     else
       (case msg of
          None \<Rightarrow> panic
        | Some m \<Rightarrow>
            bindM (orUndef L (validate L S V e (pr_BlockID m))) (\<lambda>bc.
              doOnce pvOnce pvOnce_update (acceptProposal L e (pr_BlockID m) bc))))"

definition onEvidence :: "ConsensusMsgEvidence option \<Rightarrow> string \<Rightarrow> ('s Consensus, unit) op" where
  "onEvidence msg from = inspect (\<lambda>c.
     if from \<noteq> Proposer (c_state c) then ret ()
     else
       (case msg of
          None \<Rightarrow> panic
        | Some m \<Rightarrow>
            if v_Type (ev_Vote m) = VoteTypePreVote then putPreVotesEvidence from m
            else if v_Type (ev_Vote m) = VoteTypePreCommit then putPreCommitsEvidence from m
            else ret ()))"

definition commit :: "'s Consensus \<Rightarrow> 's Consensus" where
  "commit c =
     c\<lparr>c_state := (c_state c)\<lparr>Height := Height (c_propsalState c), ParentBlock := st_Block (c_state c),
                           st_Block := lockedValue (c_propsalState c)\<rparr>\<rparr>"

definition acceptBlock :: "'z clib_scheme \<Rightarrow> 's Store \<Rightarrow> env \<Rightarrow> cid \<Rightarrow> ('s Consensus, unit) op" where
  "acceptBlock L S e v =
     seqM [whenM (v \<noteq> cid_Undef L)
             (logged (onStore (\<lambda>s. MarkBlock S (env_ord' e) s v BlockStateAccepted))),
           modify (\<lambda>c. c\<lparr>c_timerBlock := stopTimer (c_timerBlock c)\<rparr>),
           logged (onStore (\<lambda>s. UpdateLastApplied S s v)),
           modify commit]"

definition onBlock ::
    "'z clib_scheme \<Rightarrow> 's Store \<Rightarrow> env \<Rightarrow> ConsensusMsgBlock option \<Rightarrow> string \<Rightarrow> ('s Consensus, unit) op" where
  "onBlock L S e msg from = inspect (\<lambda>c.
     if from \<noteq> Proposer (c_state c) \<or> st_Step (c_propsalState c) \<noteq> block then ret ()
     else
       (case msg of
          None \<Rightarrow> panic
        | Some m \<Rightarrow>
            if cb_CID m \<noteq> cid_String L (lockedValue (c_propsalState c))
               \<or> lockedRound (c_propsalState c) \<noteq> cb_Round m then ret ()
            else acceptBlock L S e (lockedValue (c_propsalState c))))"

section \<open>Dispatch\<close>

definition onConsensusMsg ::
    "'z clib_scheme \<Rightarrow> 's Store \<Rightarrow> 's Validator \<Rightarrow> env \<Rightarrow> Msg \<Rightarrow> string \<Rightarrow> ('s Consensus, unit) op" where
  "onConsensusMsg L S V e msg from =
     (case m_Consensus msg of
        None \<Rightarrow> panic
      | Some cm \<Rightarrow>
          if cm_Type cm = ConsensusMsgTypeNewRound then onNewRound L (cm_NewRound cm) from
          else if cm_Type cm = ConsensusMsgTypeProposal then onProposal L S V e (cm_Proposal cm) from
          else if cm_Type cm = ConsensusMsgTypeVote then onVote L e msg from
          else if cm_Type cm = ConsensusMsgTypeBlock then onBlock L S e (cm_Block cm) from
          else if cm_Type cm = ConsensusMsgTypeEvidence then onEvidence (cm_Evidence cm) from
          else ret ())"

definition onTx :: "TxMsg option \<Rightarrow> string \<Rightarrow> ('s Consensus, unit) op" where
  "onTx msg from =
     (case msg of
        None \<Rightarrow> panic
      | Some m \<Rightarrow>
          logged (\<lambda>c. case TxMemPool_AddTx (c_memPool c) (txm_Tx m) (txm_TTL m) of
                        Ok p \<Rightarrow> (c\<lparr>c_memPool := p\<rparr>, Ok ())
                      | r \<Rightarrow> (c, fail_as r ())))"

text \<open>
  The signature check of \<^verbatim>\<open>onMsg\<close>. A public key that does not unmarshal is only logged, so the nil
  key is used: a panic. The outcome is \<open>Ok True\<close> where the message goes on to its handler.
\<close>

definition checkMsg :: "'z clib_scheme \<Rightarrow> 's Store \<Rightarrow> 's Consensus \<Rightarrow> Msg \<Rightarrow> bool result" where
  "checkMsg L S c msg =
     (if m_Chain msg \<noteq> c_chain c then Ok False
      else
        (case GetNode S (c_store c) (peer_String L (m_From msg)) of
           Err _ \<Rightarrow> Ok False
         | Panic \<Rightarrow> Panic
         | Diverge \<Rightarrow> Diverge
         | Ok node \<Rightarrow>
             (case peer_MarshalBinary L (m_From msg) of
                None \<Rightarrow> Ok False
              | Some sd \<Rightarrow>
                  (case signatureData L msg of
                     (msg', Ok signData) \<Rightarrow>
                       (case mb_Decode L (bytes_string (node_Key node)) of
                          None \<Rightarrow> Ok False
                        | Some rawPk \<Rightarrow>
                            (case NewBls12381PublicKey L rawPk of
                               Ok pk \<Rightarrow>
                                 Ok (Bls12381PublicKey_Verify L pk (m_Signature msg') (sd @ signData) = Ok True)
                             | _ \<Rightarrow> Panic))
                   | _ \<Rightarrow> Ok False))))"

definition onMsg ::
    "'z clib_scheme \<Rightarrow> 's Store \<Rightarrow> 's Validator \<Rightarrow> env \<Rightarrow> Msg \<Rightarrow> ('s Consensus, unit) op" where
  "onMsg L S V e msg = inspect (\<lambda>c.
     bindM (lift (checkMsg L S c msg)) (\<lambda>ok.
       if \<not> ok then ret ()
       else if m_Type msg = MsgTypeConsensus then onConsensusMsg L S V e msg (peer_String L (m_From msg))
       else if m_Type msg = MsgTypeTx
       then modify (\<lambda>c. c\<lparr>c_tasks := c_tasks c @ [TaskTx (m_Tx msg) (peer_String L (m_From msg))]\<rparr>)
       else ret ()))"

section \<open>Timeouts\<close>

definition onTimeoutProposal :: "'z clib_scheme \<Rightarrow> env \<Rightarrow> ('s Consensus, unit) op" where
  "onTimeoutProposal L e = inspect (\<lambda>c.
     if Height (c_propsalState c) \<noteq> Height (c_state c) \<and> st_Step (c_propsalState c) \<noteq> propose then ret ()
     else
       andThen (modState (setStep prevote))
         (doOnce pvOnce pvOnce_update
            (andThen (logged (sendVote L e VoteTypePreVote [])) restartPrevote)))"

definition onTimeoutPrevote :: "'z clib_scheme \<Rightarrow> env \<Rightarrow> ('s Consensus, unit) op" where
  "onTimeoutPrevote L e = inspect (\<lambda>c.
     if Height (c_propsalState c) \<noteq> Height (c_state c) \<and> st_Step (c_propsalState c) \<noteq> prevote then ret ()
     else
       andThen (modState (setStep precommit))
         (doOnce pcOnce pcOnce_update
            (andThen (logged (sendVote L e VoteTypePreCommit [])) restartPrecommit)))"

definition onTimeoutPrecommit :: "'z clib_scheme \<Rightarrow> 's Store \<Rightarrow> env \<Rightarrow> ('s Consensus, unit) op" where
  "onTimeoutPrecommit L S e = logged (startRound L S e True)"

text \<open>\<^verbatim>\<open>onTimeoutBlock\<close> has no effect beyond its log lines, on either side of its guard.\<close>

definition onTimeoutBlock :: "('s Consensus, unit) op" where
  "onTimeoutBlock = inspect (\<lambda>c.
     if Height (c_propsalState c) \<noteq> Height (c_state c) \<and> st_Step (c_propsalState c) \<noteq> precommit then ret ()
     else ret ())"

text \<open>The function \<^verbatim>\<open>time.AfterFunc\<close> runs after the grace period.\<close>

definition afterGrace :: "'z clib_scheme \<Rightarrow> 's Store \<Rightarrow> env \<Rightarrow> ('s Consensus, unit) op" where
  "afterGrace L S e = inspect (\<lambda>c.
     logged (bindM (sendBlock L S e) (\<lambda>msg. onBlock L S e (Some msg) (peer_String L (c_id c)))))"

definition runTask :: "'z clib_scheme \<Rightarrow> 's Store \<Rightarrow> env \<Rightarrow> task \<Rightarrow> ('s Consensus, unit) op" where
  "runTask L S e t = (case t of TaskTx m from \<Rightarrow> onTx m from | TaskSendBlock \<Rightarrow> afterGrace L S e)"

section \<open>Construction\<close>

definition setupTimers :: "'s Consensus \<Rightarrow> 's Consensus" where
  "setupTimers c =
     c\<lparr>c_timerPropose := stopTimer (TimerRunning 60), c_timerPrevote := stopTimer (TimerRunning 60),
       c_timerPrecommit := stopTimer (TimerRunning 60), c_timerBlock := stopTimer (TimerRunning 60)\<rparr>"

datatype Option = WithSigningKey bytes | WithGenesis GenesisInfo

fun apply_option :: "Option \<Rightarrow> 's Consensus \<Rightarrow> 's Consensus" where
  "apply_option (WithSigningKey priv) c = c\<lparr>c_signingKey := Some priv\<rparr>"
| "apply_option (WithGenesis g) c = c\<lparr>c_chain := string_bytes (g_ChainID g), c_genesis := Some g\<rparr>"

definition blankConsensus :: "'z lib_scheme \<Rightarrow> peer_ID \<Rightarrow> 's \<Rightarrow> TxMemPool \<Rightarrow> int \<Rightarrow> 's Consensus" where
  "blankConsensus L i s pool now =
     \<lparr>c_chain = [], c_id = i, c_signingKey = None, c_genesis = None, c_memPool = pool, c_store = s,
      c_state = zero_State L, c_propsalState = zero_State L, c_timerPropose = TimerStopped,
      c_timerPrevote = TimerStopped, c_timerPrecommit = TimerStopped, c_timerBlock = TimerStopped,
      c_topics = [], c_clock = now, c_sent = [], c_tasks = []\<rparr>"

definition restoreState :: "'z lib_scheme \<Rightarrow> 's Store \<Rightarrow> ('s Consensus, unit) op" where
  "restoreState L S = inspect (\<lambda>c.
     bindM (wrapM ''fetching last applied block'' (lift (GetLastApplied S (c_store c)))) (\<lambda>b.
       case b of
         None \<Rightarrow> ret ()
       | Some blk \<Rightarrow>
           modify (\<lambda>c. c\<lparr>c_state := (c_state c)\<lparr>st_Block := b_ID blk, Height := b_Height blk,
                                              ParentBlock := b_Parent blk\<rparr>\<rparr>)))"

text \<open>
  \<^verbatim>\<open>NewConsensus\<close> on the store of \<^verbatim>\<open>WithBlockStore\<close>; the other options in the order they are given.
\<close>

definition NewConsensus ::
    "'z clib_scheme \<Rightarrow> 's Store \<Rightarrow> env \<Rightarrow> peer_ID \<Rightarrow> 's \<Rightarrow> int \<Rightarrow> Option list \<Rightarrow> 's Consensus result" where
  "NewConsensus L S e i s now opts =
     bindr NewTxMemPool (\<lambda>pool.
       (let c0 = fold apply_option opts (setupTimers (blankConsensus L i s pool now));
            init = andThen
              (case c_genesis c0 of
                 Some gen \<Rightarrow>
                   whenM (\<not> HasGenesisApplied S s)
                     (wrapM ''applying genesis'' (onStore (\<lambda>s. ApplyGenesis S (env_ord e) s gen)))
               | None \<Rightarrow> ret ())
              (restoreState L S)
        in case init c0 of (c1, r) \<Rightarrow> bindr r (\<lambda>_. Ok c1)))"

definition Start :: "env \<Rightarrow> ('s Consensus, unit) op" where
  "Start e =
     seqM [modify setupTimers,
           wrapM ''watching msgs'' (wrapM ''subscribing to consensus msgs'' (Msgs e pubsubMsgsChanName)),
           wrapM ''watching tx'' (wrapM ''subscribing to tx msgs'' (Msgs e pubsubTxChanName))]"

section \<open>Steps\<close>

text \<open>
  One step of a node: a message arrives on either channel, the beacon yields a value, a timer
  expires or its expiry is handled, a pending task runs, time passes, or another part of the program
  changes the shared store. Handlers run one at a time; a step is a call that returns.
\<close>

inductive cstep :: "'z clib_scheme \<Rightarrow> 's Store \<Rightarrow> 's Validator \<Rightarrow> 's Consensus \<Rightarrow> 's Consensus \<Rightarrow> bool"
  for L :: "'z clib_scheme" and S :: "'s Store" and V :: "'s Validator" where
  msg: "receive L (c_id c) raw = Some m \<Longrightarrow> onMsg L S V e m c = (c', Ok u) \<Longrightarrow> cstep L S V c c'"
| beacon: "watchProposer L S e b c = (c', Ok u) \<Longrightarrow> cstep L S V c c'"
| expire_propose: "c_timerPropose c = TimerRunning d \<Longrightarrow> cstep L S V c (c\<lparr>c_timerPropose := TimerFired\<rparr>)"
| expire_prevote: "c_timerPrevote c = TimerRunning d \<Longrightarrow> cstep L S V c (c\<lparr>c_timerPrevote := TimerFired\<rparr>)"
| expire_precommit: "c_timerPrecommit c = TimerRunning d \<Longrightarrow> cstep L S V c (c\<lparr>c_timerPrecommit := TimerFired\<rparr>)"
| expire_block: "c_timerBlock c = TimerRunning d \<Longrightarrow> cstep L S V c (c\<lparr>c_timerBlock := TimerFired\<rparr>)"
| timeout_propose: "c_timerPropose c = TimerFired \<Longrightarrow>
    onTimeoutProposal L e (c\<lparr>c_timerPropose := TimerStopped\<rparr>) = (c', Ok u) \<Longrightarrow> cstep L S V c c'"
| timeout_prevote: "c_timerPrevote c = TimerFired \<Longrightarrow>
    onTimeoutPrevote L e (c\<lparr>c_timerPrevote := TimerStopped\<rparr>) = (c', Ok u) \<Longrightarrow> cstep L S V c c'"
| timeout_precommit: "c_timerPrecommit c = TimerFired \<Longrightarrow>
    onTimeoutPrecommit L S e (c\<lparr>c_timerPrecommit := TimerStopped\<rparr>) = (c', Ok u) \<Longrightarrow> cstep L S V c c'"
| timeout_block: "c_timerBlock c = TimerFired \<Longrightarrow>
    onTimeoutBlock (c\<lparr>c_timerBlock := TimerStopped\<rparr>) = (c', Ok u) \<Longrightarrow> cstep L S V c c'"
| task: "t \<in> set (c_tasks c) \<Longrightarrow>
    runTask L S e t (c\<lparr>c_tasks := remove1 t (c_tasks c)\<rparr>) = (c', Ok u) \<Longrightarrow> cstep L S V c c'"
| time: "c_clock c \<le> now \<Longrightarrow> cstep L S V c (c\<lparr>c_clock := now\<rparr>)"
| store: "cstep L S V c (c\<lparr>c_store := s\<rparr>)"

inductive reachable :: "'z clib_scheme \<Rightarrow> 's Store \<Rightarrow> 's Validator \<Rightarrow> 's Consensus \<Rightarrow> bool"
  for L :: "'z clib_scheme" and S :: "'s Store" and V :: "'s Validator" where
  start: "NewConsensus L S e i s now opts = Ok c \<Longrightarrow> Start e' c = (c', Ok u) \<Longrightarrow> reachable L S V c'"
| step: "reachable L S V c \<Longrightarrow> cstep L S V c c' \<Longrightarrow> reachable L S V c'"

end
