(* ===== verification/Consensus_Laws.thy ===== *)
theory Consensus_Laws
  imports Consensus_Model
begin

text \<open>
  The invariant of a consensus node: the collected votes are for the height, the round and the
  block of the round in progress, a lock is backed by more than the threshold of prevotes, and a
  finished vote by more than the threshold of precommits. Every step keeps it.
\<close>

section \<open>The invariant\<close>

definition vote_for :: "'z clib_scheme \<Rightarrow> State \<Rightarrow> uint8 \<Rightarrow> Msg \<Rightarrow> bool" where
  "vote_for L p ty m \<longleftrightarrow>
     (\<exists>cm v. m_Consensus m = Some cm \<and> cm_Vote cm = Some v \<and> v_Type v = ty \<and> v_Height v = Height p
        \<and> v_Round v = Round p \<and> v_BlockID v = cid_String L (st_Block p))"

definition votes_ok :: "'z clib_scheme \<Rightarrow> string \<Rightarrow> State \<Rightarrow> uint8 \<Rightarrow> (peer_ID \<times> Msg) list \<Rightarrow> bool" where
  "votes_ok L who p ty vs \<longleftrightarrow>
     alist_ok vs \<and> (\<forall>(k, m)\<in>set vs. m_From m = k \<and> peer_String L k \<noteq> who \<and> vote_for L p ty m)"

definition round_inv :: "'z clib_scheme \<Rightarrow> string \<Rightarrow> State \<Rightarrow> bool" where
  "round_inv L who p \<longleftrightarrow>
     (st_Step p = propose \<longrightarrow> votes_of (PreVotes p) = [] \<and> votes_of (PreCommits p) = [])
   \<and> votes_ok L who p VoteTypePreVote (votes_of (PreVotes p))
   \<and> votes_ok L who p VoteTypePreCommit (votes_of (PreCommits p))
   \<and> (lockedValue p \<noteq> cid_Undef L \<longrightarrow>
        lockedValue p = st_Block p \<and> lockedRound p = Round p
      \<and> unat (st_f p) < length (votes_of (PreVotes p)) \<and> st_Step p \<noteq> propose)
   \<and> (st_Step p = block \<longrightarrow> unat (st_f p) < length (votes_of (PreCommits p)))"

definition node_inv :: "'z clib_scheme \<Rightarrow> 's Consensus \<Rightarrow> bool" where
  "node_inv L c \<longleftrightarrow> round_inv L (Proposer (c_state c)) (c_propsalState c)"

text \<open>A round that has just begun: no votes, no lock.\<close>

definition fresh :: "'z clib_scheme \<Rightarrow> State \<Rightarrow> bool" where
  "fresh L p \<longleftrightarrow> votes_of (PreVotes p) = [] \<and> votes_of (PreCommits p) = []
     \<and> lockedValue p = cid_Undef L \<and> st_Step p \<noteq> block"

definition fresh_node :: "'z clib_scheme \<Rightarrow> 's Consensus \<Rightarrow> bool" where
  "fresh_node L c \<longleftrightarrow> fresh L (c_propsalState c)"

lemma fresh_inv: "fresh_node L c \<Longrightarrow> node_inv L c"
  by (simp add: fresh_node_def fresh_def node_inv_def round_inv_def votes_ok_def alist_ok_def)

section \<open>Operations that leave the states alone\<close>

text \<open>\<open>framed m\<close>: the operation changes neither of the two states, nor the node's identity.\<close>

definition framed :: "('s Consensus, 'a) op \<Rightarrow> bool" where
  "framed m \<longleftrightarrow> (\<forall>c. c_state (fst (m c)) = c_state c \<and> c_propsalState (fst (m c)) = c_propsalState c)"

named_theorems frame_intros \<open>rules that an operation is framed\<close>

lemma framed_eq: "framed m \<longleftrightarrow> (\<forall>x y. keepsM (\<lambda>c. c_state c = x \<and> c_propsalState c = y) m)"
  by (auto simp: framed_def keepsM_def)

lemma framed_state: "framed m \<Longrightarrow> m c = (c', r) \<Longrightarrow> c_state c' = c_state c"
  unfolding framed_def by (metis fst_conv)

lemma framed_propsalState: "framed m \<Longrightarrow> m c = (c', r) \<Longrightarrow> c_propsalState c' = c_propsalState c"
  unfolding framed_def by (metis fst_conv)

lemma framed_keeps:
  assumes "framed m" and "\<And>c c'. c_state c' = c_state c \<Longrightarrow> c_propsalState c' = c_propsalState c \<Longrightarrow> P c' = P c"
  shows "keepsM P m"
  using assms unfolding framed_def keepsM_def by metis

lemma framed_node_inv: "framed m \<Longrightarrow> keepsM (node_inv L) m"
  by (rule framed_keeps) (simp_all add: node_inv_def)

lemma framed_fresh: "framed m \<Longrightarrow> keepsM (fresh_node L) m"
  by (rule framed_keeps) (simp_all add: fresh_node_def)

lemma framed_ret [frame_intros]: "framed (ret a)"
  by (simp add: framed_eq keeps_intros)

lemma framed_raise [frame_intros]: "framed (raise e)"
  by (simp add: framed_eq keeps_intros)

lemma framed_panic [frame_intros]: "framed panic"
  by (simp add: framed_eq keeps_intros)

lemma framed_lift [frame_intros]: "framed (lift r)"
  by (simp add: framed_eq keeps_intros)

lemma framed_inspect [frame_intros]: "(\<And>c. framed (f c)) \<Longrightarrow> framed (inspect f)"
  by (simp add: framed_eq keeps_intros)

lemma framed_bindM [frame_intros]: "framed m \<Longrightarrow> (\<And>a. framed (f a)) \<Longrightarrow> framed (bindM m f)"
  by (simp add: framed_eq keeps_intros)

lemma framed_andThen [frame_intros]: "framed m \<Longrightarrow> framed n \<Longrightarrow> framed (andThen m n)"
  by (simp add: framed_eq keeps_intros)

lemma framed_wrapM [frame_intros]: "framed m \<Longrightarrow> framed (wrapM x m)"
  by (simp add: framed_eq keeps_intros)

lemma framed_logged [frame_intros]: "framed m \<Longrightarrow> framed (logged m)"
  by (simp add: framed_eq keeps_intros)

lemma framed_if [frame_intros]: "framed m \<Longrightarrow> framed n \<Longrightarrow> framed (if b then m else n)"
  by simp

lemma framed_whenM [frame_intros]: "framed m \<Longrightarrow> framed (whenM b m)"
  by (simp add: whenM_def framed_ret)

lemma framed_option [frame_intros]:
  "framed m \<Longrightarrow> (\<And>x. framed (f x)) \<Longrightarrow> framed (case x of None \<Rightarrow> m | Some x \<Rightarrow> f x)"
  by (cases x) auto

lemma framed_onStore [frame_intros]: "framed (onStore f)"
  by (simp add: framed_def onStore_def case_prod_beta)

lemma framed_modify_rest [frame_intros]:
  "framed (modify (\<lambda>c. c\<lparr>c_sent := g1 c\<rparr>))" "framed (modify (\<lambda>c. c\<lparr>c_topics := g2 c\<rparr>))"
  "framed (modify (\<lambda>c. c\<lparr>c_tasks := g3 c\<rparr>))" "framed (modify (\<lambda>c. c\<lparr>c_timerPropose := g4 c\<rparr>))"
  "framed (modify (\<lambda>c. c\<lparr>c_timerPrevote := g5 c\<rparr>))" "framed (modify (\<lambda>c. c\<lparr>c_timerPrecommit := g6 c\<rparr>))"
  "framed (modify (\<lambda>c. c\<lparr>c_timerBlock := g7 c\<rparr>))"
  by (simp_all add: framed_def modify_def)

lemma framed_takeTxs [frame_intros]: "framed (takeTxs n)"
  by (auto simp: framed_def takeTxs_def split: result.splits prod.splits)

lemma framed_restart [frame_intros]:
  "framed restartPropose" "framed restartPrevote" "framed restartPrecommit" "framed restartBlock"
  by (simp_all add: restartPropose_def restartPrevote_def restartPrecommit_def restartBlock_def frame_intros)

lemma framed_PublishContext [frame_intros]: "framed (PublishContext L e ch m)"
  unfolding PublishContext_def by (intro frame_intros)

lemma framed_sendMsg [frame_intros]: "framed (sendMsg L e b)"
  unfolding sendMsg_def by (intro frame_intros)

lemma framed_sends [frame_intros]:
  "framed (sendVote L e t v)" "framed (sendNewRound L e)" "framed (sendProposal L e)"
  unfolding sendVote_def sendNewRound_def sendProposal_def by (intro frame_intros)+

lemma framed_sendBlock [frame_intros]: "framed (sendBlock L S e)"
  unfolding sendBlock_def by (intro frame_intros)

lemma framed_makeBlock [frame_intros]: "framed (makeBlock L S e)"
  unfolding makeBlock_def Let_def by (intro frame_intros)

lemma framed_validate [frame_intros]: "framed (validate L S V e v)"
  unfolding validate_def by (intro frame_intros)

lemma framed_orUndef [frame_intros]: "framed m \<Longrightarrow> framed (orUndef L m)"
  by (auto simp: framed_def orUndef_def split: prod.splits result.splits) (metis fst_conv)+

lemma framed_onTx [frame_intros]: "framed (onTx m from)"
  unfolding onTx_def by (intro frame_intros) (auto simp: framed_def split: result.splits)

section \<open>Rounds begin fresh\<close>

lemma modState_keeps_fresh:
  "(\<And>p. fresh L p \<Longrightarrow> fresh L (f p)) \<Longrightarrow> keepsM (fresh_node L) (modState f)"
  unfolding modState_def by (rule keepsM_modify) (simp add: fresh_node_def)

lemma beginRound_fresh: "fresh_node L (beginRound L inc c)"
  by (simp add: fresh_node_def fresh_def beginRound_def Let_def resetOnces_def clearVotes_def
      setStep_def votes_of_def)

lemma fresh_updates:
  "fresh L p \<Longrightarrow> fresh L (p\<lparr>st_f := x\<rparr>)" "fresh L p \<Longrightarrow> fresh L (p\<lparr>st_Block := k\<rparr>)"
  "fresh L p \<Longrightarrow> s \<noteq> block \<Longrightarrow> fresh L (setStep s p)"
  by (simp_all add: fresh_def setStep_def)

lemma setThreshold_fresh: "keepsM (fresh_node L) (setThreshold L S)"
  unfolding setThreshold_def
  by (intro keepsM_inspect keepsM_bindM keepsM_wrapM keepsM_lift)
     (auto intro!: keeps_intros modState_keeps_fresh simp: fresh_updates split: option.splits)

lemma buildBlock_fresh: "keepsM (fresh_node L) (buildBlock L S e)"
  unfolding buildBlock_def
  by (intro keeps_intros framed_fresh frame_intros modState_keeps_fresh) (simp add: fresh_updates)

lemmas fresh_frames =
  framed_fresh [OF framed_restart(1)] framed_fresh [OF framed_restart(2)]
  framed_fresh [OF framed_sends(2)] framed_fresh [OF framed_sends(3)]

lemma startRound_fresh: "fresh_node L (fst (startRound L S e inc c))"
  unfolding startRound_def
proof (rule andThen_post)
  show "fresh_node L (fst (modify (beginRound L inc) c))" by (simp add: modify_def beginRound_fresh)
  show "keepsM (fresh_node L) (inspect (\<lambda>c.
          if \<not> AmProposer (c_propsalState c) then
            andThen (modState (\<lambda>p. if st_Block p = cid_Undef L \<and> Round p > 1 then setStep propose p else p))
              restartPropose
          else
            seqM [restartPrevote, wrapM ''sending new round'' (sendNewRound L e), setThreshold L S,
                  buildBlock L S e, wrapM ''sending proposal'' (sendProposal L e), modState (setStep prevote)]))"
    by (auto intro!: keepsM_inspect keepsM_if keepsM_andThen keepsM_seqM keepsM_wrapM setThreshold_fresh
        buildBlock_fresh modState_keeps_fresh fresh_frames simp: fresh_updates)
qed

lemma logged_fst: "fst (logged m c) = fst (m c)"
  by (auto simp: logged_def split: prod.splits result.splits)

lemma onTimeoutPrecommit_inv: "keepsM (node_inv L) (onTimeoutPrecommit L S e)"
  by (simp add: keepsM_def onTimeoutPrecommit_def logged_fst fresh_inv startRound_fresh)

lemma watchProposer_inv: "keepsM (node_inv L) (watchProposer L S e b)"
proof -
  have "node_inv L (fst (seqM [modState (setStep propose),
      modify (\<lambda>c. c\<lparr>c_state := (c_state c)\<lparr>Proposer := i\<rparr>\<rparr>), logged (startRound L S e False)] c))"
    for i and c :: "'a Consensus"
    by (simp add: andThen_def bindM_def modState_def modify_def ret_def logged_fst fresh_inv startRound_fresh
        split: prod.splits result.splits)
       (metis fresh_inv fst_conv logged_fst startRound_fresh)
  then show ?thesis
    unfolding watchProposer_def
    by (intro keepsM_inspect keepsM_bindM keepsM_lift keepsM_option keepsM_ret) (simp add: keepsM_def)
qed

lemma modState_fresh_inv: "(\<And>p. fresh L (f p)) \<Longrightarrow> keepsM (node_inv L) (modState f)"
  unfolding modState_def by (rule keepsM_modify) (simp add: fresh_inv fresh_node_def)

lemma onNewRound_inv: "keepsM (node_inv L) (onNewRound L msg from)"
  unfolding onNewRound_def
  by (intro keepsM_inspect keepsM_if keepsM_option keepsM_andThen keepsM_ret keepsM_panic
      modState_fresh_inv framed_node_inv [OF framed_restart(1)])
     (simp add: fresh_def resetOnces_def clearVotes_def setStep_def votes_of_def)

section \<open>Votes keep the invariant\<close>

lemma of_nat_less_uint64: "(x :: uint64) < of_nat n \<Longrightarrow> unat x < n"
  by (simp add: word_less_nat_alt unat_of_nat)

lemma votes_ok_put:
  assumes "votes_ok L who p ty vs" and "vote_for L p ty m" and "peer_String L (m_From m) \<noteq> who"
  shows "votes_ok L who p ty (alist_put (m_From m) m vs)"
  using assms in_set_alist_put by (fastforce simp: votes_ok_def)

lemma node_inv_once:
  "node_inv L c \<Longrightarrow> node_inv L (c\<lparr>c_propsalState := pvOnce_update g (c_propsalState c)\<rparr>)"
  "node_inv L c \<Longrightarrow> node_inv L (c\<lparr>c_propsalState := pcOnce_update g (c_propsalState c)\<rparr>)"
  "node_inv L c \<Longrightarrow> node_inv L (c\<lparr>c_propsalState := sbOnce_update g (c_propsalState c)\<rparr>)"
  by (simp_all add: node_inv_def round_inv_def votes_ok_def vote_for_def)

lemma doOnce_inv:
  assumes "node_inv L c" and "node_inv L (fst (f c))"
  shows "node_inv L (fst (doOnce pvOnce pvOnce_update f c))"
    and "node_inv L (fst (doOnce pcOnce pcOnce_update f c))"
    and "node_inv L (fst (doOnce sbOnce sbOnce_update f c))"
  using assms by (simp_all add: doOnce_def once_Do_def case_prod_beta node_inv_once)

lemma doOnce_keeps:
  assumes "keepsM (node_inv L) f"
  shows "keepsM (node_inv L) (doOnce pvOnce pvOnce_update f)"
    and "keepsM (node_inv L) (doOnce pcOnce pcOnce_update f)"
    and "keepsM (node_inv L) (doOnce sbOnce sbOnce_update f)"
  using assms by (auto simp: keepsM_def doOnce_def once_Do_def case_prod_beta node_inv_once)

lemma andThen_modify [simp]: "andThen (modify f) n c = n (f c)"
  by (simp add: andThen_def bindM_def modify_def)

lemma andThen_modState [simp]:
  "andThen (modState f) n c = n (c\<lparr>c_propsalState := f (c_propsalState c)\<rparr>)"
  by (simp add: modState_def)

lemma andThen_ret [simp]: "andThen m (ret ()) = m"
  by (auto simp: andThen_def bindM_def ret_def fun_eq_iff split: prod.splits result.splits)

lemma seqM_last [simp]: "seqM [m] = m"
  by simp

text \<open>Locking is a change of the round's state followed by work that leaves the states alone.\<close>

definition locked :: "State \<Rightarrow> State" where
  "locked p = p\<lparr>st_Step := precommit, lockedValue := st_Block p, lockedRound := Round p\<rparr>"

lemma locked_round_inv:
  assumes "round_inv L who p" and "unat (st_f p) < length (votes_of (PreVotes p))"
  shows "round_inv L who (locked p)"
  using assms by (auto simp: round_inv_def locked_def votes_ok_def vote_for_def)

lemma lockBlock_states:
  "c_propsalState (fst (lockBlock L e c)) = locked (c_propsalState c) \<and> c_state (fst (lockBlock L e c)) = c_state c"
proof -
  let ?tail = "inspect (\<lambda>c. logged
       (andThen (sendVote L e VoteTypePreCommit (cid_String L (st_Block (c_propsalState c)))) restartPrecommit))"
  have f: "framed ?tail" by (intro frame_intros)
  show ?thesis
    unfolding lockBlock_def by (simp add: f [unfolded framed_def] locked_def setStep_def)
qed

lemma lockBlock_inv:
  assumes inv: "node_inv L c"
    and votes: "unat (st_f (c_propsalState c)) < length (votes_of (PreVotes (c_propsalState c)))"
  shows "node_inv L (fst (lockBlock L e c))"
  using locked_round_inv [OF inv [unfolded node_inv_def] votes] by (simp add: node_inv_def lockBlock_states)

lemma andThen_when_modify [simp]: "andThen (whenM b (modify f)) n c = n (if b then f c else c)"
  by (simp add: whenM_def andThen_def bindM_def modify_def ret_def)

text \<open>Adding a vote to one of the maps.\<close>

lemma putPreVote_node_inv:
  assumes inv: "node_inv L c" and step: "st_Step (c_propsalState c) = prevote"
    and vote: "vote_for L (c_propsalState c) VoteTypePreVote msg"
    and other: "peer_String L (m_From msg) \<noteq> Proposer (c_state c)"
    and vs: "PreVotes (c_propsalState c) = Some vs"
  shows "node_inv L (c\<lparr>c_propsalState := (c_propsalState c)\<lparr>PreVotes := Some (alist_put (m_From msg) msg vs)\<rparr>\<rparr>)"
  using assms votes_ok_put [of L "Proposer (c_state c)" "c_propsalState c" VoteTypePreVote vs msg]
  by (auto simp: node_inv_def round_inv_def votes_of_def length_alist_put) (auto simp: votes_ok_def vote_for_def)

lemma putPreCommit_node_inv:
  assumes inv: "node_inv L c" and step: "st_Step (c_propsalState c) = precommit"
    and vote: "vote_for L (c_propsalState c) VoteTypePreCommit msg"
    and other: "peer_String L (m_From msg) \<noteq> Proposer (c_state c)"
    and vs: "PreCommits (c_propsalState c) = Some vs"
  shows "node_inv L (c\<lparr>c_propsalState := (c_propsalState c)\<lparr>PreCommits := Some (alist_put (m_From msg) msg vs)\<rparr>\<rparr>)"
  using assms votes_ok_put [of L "Proposer (c_state c)" "c_propsalState c" VoteTypePreCommit vs msg]
  by (auto simp: node_inv_def round_inv_def votes_of_def length_alist_put) (auto simp: votes_ok_def vote_for_def)

lemma andThen_panic [simp]: "andThen panic n c = (c, Panic)"
  by (simp add: andThen_def bindM_def panic_def)

lemma andThen_inspect: "andThen (inspect f) n c = andThen (f c) n c"
  by (simp add: andThen_def bindM_def inspect_def)

lemma onPreVote_inv:
  assumes inv: "node_inv L c" and vote: "vote_for L (c_propsalState c) VoteTypePreVote msg"
    and other: "peer_String L (m_From msg) \<noteq> Proposer (c_state c)"
  shows "node_inv L (fst (onPreVote L e msg c))"
proof (cases "st_Step (c_propsalState c) = prevote")
  case False
  then show ?thesis using inv by (simp add: onPreVote_def inspect_def ret_def)
next
  case True
  let ?n = "inspect (\<lambda>c. whenM (votes_len (PreVotes (c_propsalState c)) > st_f (c_propsalState c))
      (doOnce pcOnce pcOnce_update (lockBlock L e)))"
  have n: "node_inv L (fst (?n d))" if d: "node_inv L d" "st_Step (c_propsalState d) = prevote" for d
  proof (cases "votes_len (PreVotes (c_propsalState d)) > st_f (c_propsalState d)")
    case True
    then have "unat (st_f (c_propsalState d)) < length (votes_of (PreVotes (c_propsalState d)))"
      unfolding votes_len_def by (rule of_nat_less_uint64)
    then have "node_inv L (fst (doOnce pcOnce pcOnce_update (lockBlock L e) d))"
      using d(1) by (simp add: doOnce_inv(2) [where f = "lockBlock L e"] lockBlock_inv)
    then show ?thesis using True by (simp add: inspect_def whenM_def)
  next
    case False
    then show ?thesis using d(1) by (simp add: inspect_def whenM_def ret_def)
  qed
  define c0 where "c0 = (if AmProposer (c_propsalState c)
            then c\<lparr>c_timerPrecommit := restartTimer timeoutPrecommit (c_timerPrecommit c)\<rparr> else c)"
  have c: "node_inv L c0" "st_Step (c_propsalState c0) = prevote" "c_propsalState c0 = c_propsalState c"
      "c_state c0 = c_state c"
    using inv True by (auto simp: node_inv_def c0_def)
  have "onPreVote L e msg c = andThen (putPreVote msg) ?n c0"
    using True by (simp add: c0_def onPreVote_def inspect_def restartPrecommit_def del: seqM_last)
  moreover have "node_inv L (fst (andThen (putPreVote msg) ?n c0))"
  proof (cases "PreVotes (c_propsalState c)")
    case None
    then show ?thesis using c by (simp add: putPreVote_def andThen_inspect)
  next
    case (Some vs)
    have "node_inv L (c0\<lparr>c_propsalState := (c_propsalState c0)\<lparr>PreVotes := Some (alist_put (m_From msg) msg vs)\<rparr>\<rparr>)"
      by (rule putPreVote_node_inv [OF c(1,2)]) (simp_all only: c(3,4) vote other Some not_False_eq_True)
    then have "node_inv L (fst (?n (c0\<lparr>c_propsalState :=
        (c_propsalState c0)\<lparr>PreVotes := Some (alist_put (m_From msg) msg vs)\<rparr>\<rparr>)))"
      by (rule n) (use c in simp)
    then show ?thesis using c Some by (simp add: putPreVote_def andThen_inspect)
  qed
  ultimately show ?thesis by simp
qed

lemma endVotes_states:
  "c_propsalState (fst (endVotes c)) = (c_propsalState c)\<lparr>st_Step := block\<rparr> \<and> c_state (fst (endVotes c)) = c_state c"
proof -
  let ?tail = "inspect (\<lambda>c. if AmProposer (c_propsalState c)
      then modify (\<lambda>c. c\<lparr>c_tasks := c_tasks c @ [TaskSendBlock]\<rparr>) else restartBlock)"
  have f: "framed ?tail" by (intro frame_intros)
  show ?thesis unfolding endVotes_def by (simp add: f [unfolded framed_def] setStep_def)
qed

lemma endVotes_inv:
  assumes inv: "node_inv L c" and step: "st_Step (c_propsalState c) \<noteq> propose"
    and votes: "unat (st_f (c_propsalState c)) < length (votes_of (PreCommits (c_propsalState c)))"
  shows "node_inv L (fst (endVotes c))"
  using assms by (simp add: node_inv_def endVotes_states round_inv_def votes_ok_def vote_for_def)

lemma onPreCommit_inv:
  assumes inv: "node_inv L c" and vote: "vote_for L (c_propsalState c) VoteTypePreCommit msg"
    and other: "peer_String L (m_From msg) \<noteq> Proposer (c_state c)"
  shows "node_inv L (fst (onPreCommit msg c))"
proof (cases "st_Step (c_propsalState c) = precommit")
  case False
  then show ?thesis using inv by (simp add: onPreCommit_def inspect_def ret_def)
next
  case True
  let ?n = "inspect (\<lambda>c. whenM (votes_len (PreCommits (c_propsalState c)) > st_f (c_propsalState c))
      (doOnce sbOnce sbOnce_update endVotes))"
  have n: "node_inv L (fst (?n d))" if d: "node_inv L d" "st_Step (c_propsalState d) = precommit" for d
  proof (cases "votes_len (PreCommits (c_propsalState d)) > st_f (c_propsalState d)")
    case True
    then have "unat (st_f (c_propsalState d)) < length (votes_of (PreCommits (c_propsalState d)))"
      unfolding votes_len_def by (rule of_nat_less_uint64)
    then have "node_inv L (fst (endVotes d))" using d by (intro endVotes_inv) simp_all
    then have "node_inv L (fst (doOnce sbOnce sbOnce_update endVotes d))"
      using d(1) by (simp add: doOnce_inv(3) [where f = endVotes])
    then show ?thesis using True by (simp add: inspect_def whenM_def)
  next
    case False
    then show ?thesis using d(1) by (simp add: inspect_def whenM_def ret_def)
  qed
  define c0 where "c0 = (if AmProposer (c_propsalState c)
            then c\<lparr>c_timerPrecommit := restartTimer timeoutPrecommit (c_timerPrecommit c)\<rparr> else c)"
  have c: "node_inv L c0" "st_Step (c_propsalState c0) = precommit" "c_propsalState c0 = c_propsalState c"
      "c_state c0 = c_state c"
    using inv True by (auto simp: node_inv_def c0_def)
  have "onPreCommit msg c = andThen (putPreCommit msg) ?n c0"
    using True by (simp add: c0_def onPreCommit_def inspect_def restartPrecommit_def del: seqM_last)
  moreover have "node_inv L (fst (andThen (putPreCommit msg) ?n c0))"
  proof (cases "PreCommits (c_propsalState c)")
    case None
    then show ?thesis using c by (simp add: putPreCommit_def andThen_inspect)
  next
    case (Some vs)
    have "node_inv L (c0\<lparr>c_propsalState := (c_propsalState c0)\<lparr>PreCommits := Some (alist_put (m_From msg) msg vs)\<rparr>\<rparr>)"
      by (rule putPreCommit_node_inv [OF c(1,2)]) (simp_all only: c(3,4) vote other Some not_False_eq_True)
    then have "node_inv L (fst (?n (c0\<lparr>c_propsalState :=
        (c_propsalState c0)\<lparr>PreCommits := Some (alist_put (m_From msg) msg vs)\<rparr>\<rparr>)))"
      by (rule n) (use c in simp)
    then show ?thesis using c Some by (simp add: putPreCommit_def andThen_inspect)
  qed
  ultimately show ?thesis by simp
qed

lemma putEvidence_inv:
  "keepsM (node_inv L) (putPreVotesEvidence k m)" "keepsM (node_inv L) (putPreCommitsEvidence k m)"
proof -
  have "keepsM (node_inv L) (modState (\<lambda>p. p\<lparr>PreVotesEvidence := Some ev\<rparr>))"
    "keepsM (node_inv L) (modState (\<lambda>p. p\<lparr>PreCommitsEvidence := Some ev\<rparr>))" for ev
    unfolding modState_def
    by (rule keepsM_modify; simp add: node_inv_def round_inv_def votes_ok_def vote_for_def)+
  then show "keepsM (node_inv L) (putPreVotesEvidence k m)" "keepsM (node_inv L) (putPreCommitsEvidence k m)"
    unfolding putPreVotesEvidence_def putPreCommitsEvidence_def
    by (auto intro!: keepsM_inspect keepsM_option keepsM_panic)
qed

lemma sendEvidence_inv: "keepsM (node_inv L) (sendEvidence L e v)"
  unfolding sendEvidence_def Let_def
  by (intro keepsM_andThen keepsM_if putEvidence_inv keepsM_ret framed_node_inv [OF framed_sendMsg])

lemma onEvidence_inv: "keepsM (node_inv L) (onEvidence msg from)"
  unfolding onEvidence_def
  by (intro keepsM_inspect keepsM_if keepsM_option putEvidence_inv keepsM_ret keepsM_panic)

lemma onVote_inv:
  fixes c :: "'a Consensus"
  assumes inv: "node_inv L c"
  shows "node_inv L (fst (onVote L e msg (peer_String L (m_From msg)) c))"
proof -
  let ?tail = "\<lambda>vote. inspect (\<lambda>c. whenM (AmProposer (c_propsalState c)) (logged (sendEvidence L e vote)))"
  have tail: "keepsM (node_inv L) (?tail vote)" for vote
    by (intro keepsM_inspect keepsM_whenM keepsM_logged sendEvidence_inv)
  have vote: "node_inv L (fst (andThen (if v_Type vote = VoteTypePreVote then onPreVote L e msg
      else if v_Type vote = VoteTypePreCommit then onPreCommit msg else ret ()) (?tail vote) c))"
    if "m_Consensus msg = Some cm" "cm_Vote cm = Some vote" "peer_String L (m_From msg) \<noteq> Proposer (c_state c)"
      "v_Height vote = Height (c_propsalState c)" "v_BlockID vote = cid_String L (st_Block (c_propsalState c))"
      "v_Round vote = Round (c_propsalState c)" for cm vote
  proof -
    have "vote_for L (c_propsalState c) (v_Type vote) msg" using that by (simp add: vote_for_def)
    then have "node_inv L (fst ((if v_Type vote = VoteTypePreVote then onPreVote L e msg
      else if v_Type vote = VoteTypePreCommit then onPreCommit msg else ret ()) c))"
      using that onPreVote_inv [OF inv] onPreCommit_inv [OF inv] inv by (auto simp: ret_def)
    then show ?thesis by (rule andThen_post [where P = "node_inv L", OF _ tail])
  qed
  have at: "inspect f c = f c c" for f :: "'a Consensus \<Rightarrow> ('a Consensus, unit) op" by (simp add: inspect_def)
  show ?thesis
    unfolding onVote_def at using inv vote by (auto simp: ret_def panic_def split: option.splits)
qed

section \<open>Proposals, blocks and timeouts\<close>

lemma modState_step_inv: "s \<in> {prevote, precommit} \<Longrightarrow> keepsM (node_inv L) (modState (setStep s))"
  unfolding modState_def
  by (rule keepsM_modify) (auto simp: node_inv_def round_inv_def setStep_def votes_ok_def vote_for_def)

lemma acceptProposal_inv:
  assumes inv: "node_inv L c" and step: "st_Step (c_propsalState c) = propose"
  shows "node_inv L (fst (acceptProposal L e value bc c))"
proof -
  have "node_inv L (c\<lparr>c_propsalState := (c_propsalState c)\<lparr>st_Block := bc\<rparr>\<rparr>)"
    using assms by (auto simp: node_inv_def round_inv_def votes_ok_def)
  moreover have "keepsM (node_inv L) (seqM [modify (\<lambda>c. c\<lparr>c_timerPropose := stopTimer (c_timerPropose c)\<rparr>),
      logged (andThen (sendVote L e VoteTypePreVote v) (andThen restartPrevote (modState (setStep prevote))))])" for v
    by (auto intro!: keepsM_seqM keepsM_logged keepsM_andThen modState_step_inv
        framed_node_inv [OF framed_sends(1)] framed_node_inv [OF framed_restart(2)]
        framed_node_inv [OF framed_modify_rest(4)])
  ultimately show ?thesis
    unfolding acceptProposal_def seqM.simps(2) [of "modState _"] andThen_modState by (rule keepsM_D [rotated])
qed

lemma onProposal_inv: "keepsM (node_inv L) (onProposal L S V e msg from)"
  unfolding onProposal_def
proof (rule keepsM_inspect_at)
  fix c :: "'a Consensus" assume inv: "node_inv L c"
  have "node_inv L (fst (bindM (orUndef L (validate L S V e v)) (\<lambda>bc.
              doOnce pvOnce pvOnce_update (acceptProposal L e v bc)) c))"
    if step: "st_Step (c_propsalState c) = propose" for v
  proof -
    let ?P = "\<lambda>c. node_inv L c \<and> st_Step (c_propsalState c) = propose"
    obtain c' r where v: "orUndef L (validate L S V e v) c = (c', r)" by fastforce
    have "framed (orUndef L (validate L S V e v))" by (intro frame_intros)
    with v have "c_state c' = c_state c" "c_propsalState c' = c_propsalState c"
      by (auto dest: framed_state framed_propsalState)
    then have c': "node_inv L c'" "st_Step (c_propsalState c') = propose" using inv step by (simp_all add: node_inv_def)
    have "node_inv L (fst (doOnce pvOnce pvOnce_update (acceptProposal L e v bc) c'))" for bc
      using c' by (simp add: doOnce_inv(1) [where f = "acceptProposal L e v bc"] acceptProposal_inv)
    then show ?thesis using v c'(1) by (simp add: bindM_def split: result.splits)
  qed
  then show "node_inv L (fst ((if from \<noteq> Proposer (c_state c) then ret ()
      else if st_Step (c_propsalState c) \<noteq> propose then ret ()
      else case msg of None \<Rightarrow> panic
        | Some m \<Rightarrow> bindM (orUndef L (validate L S V e (pr_BlockID m))) (\<lambda>bc.
            doOnce pvOnce pvOnce_update (acceptProposal L e (pr_BlockID m) bc))) c))"
    using inv by (auto simp: ret_def panic_def split: option.splits)
qed

lemma commit_inv: "keepsM (node_inv L) (modify commit)"
  by (rule keepsM_modify) (simp add: node_inv_def commit_def)

lemma acceptBlock_inv: "keepsM (node_inv L) (acceptBlock L S e v)"
  unfolding acceptBlock_def
  by (rule keepsM_seqM)
     (auto intro: keepsM_whenM keepsM_logged commit_inv framed_node_inv [OF framed_onStore]
        framed_node_inv [OF framed_modify_rest(7)])

lemma onBlock_inv: "keepsM (node_inv L) (onBlock L S e msg from)"
  unfolding onBlock_def
  by (intro keepsM_inspect keepsM_if keepsM_option keepsM_ret keepsM_panic acceptBlock_inv)

lemma onTimeoutProposal_inv: "keepsM (node_inv L) (onTimeoutProposal L e)"
  unfolding onTimeoutProposal_def
proof (intro keepsM_inspect keepsM_if keepsM_ret keepsM_andThen modState_step_inv)
  have "framed (andThen (logged (sendVote L e VoteTypePreVote [])) restartPrevote)" by (intro frame_intros)
  then show "keepsM (node_inv L) (doOnce pvOnce pvOnce_update
      (andThen (logged (sendVote L e VoteTypePreVote [])) restartPrevote))"
    by (rule doOnce_keeps [OF framed_node_inv])
qed simp

lemma onTimeoutPrevote_inv: "keepsM (node_inv L) (onTimeoutPrevote L e)"
  unfolding onTimeoutPrevote_def
proof (intro keepsM_inspect keepsM_if keepsM_ret keepsM_andThen modState_step_inv)
  have "framed (andThen (logged (sendVote L e VoteTypePreCommit [])) restartPrecommit)" by (intro frame_intros)
  then show "keepsM (node_inv L) (doOnce pcOnce pcOnce_update
      (andThen (logged (sendVote L e VoteTypePreCommit [])) restartPrecommit))"
    by (rule doOnce_keeps [OF framed_node_inv])
qed simp

lemma onTimeoutBlock_inv: "keepsM (node_inv L) onTimeoutBlock"
  unfolding onTimeoutBlock_def by (intro keeps_intros)

section \<open>Every step keeps the invariant\<close>

lemma onConsensusMsg_inv:
  "node_inv L c \<Longrightarrow> node_inv L (fst (onConsensusMsg L S V e msg (peer_String L (m_From msg)) c))"
  unfolding onConsensusMsg_def
  by (auto simp: panic_def ret_def split: option.splits
      intro: onVote_inv keepsM_D [OF onNewRound_inv] keepsM_D [OF onProposal_inv] keepsM_D [OF onBlock_inv]
        keepsM_D [OF onEvidence_inv])

lemma onMsg_inv: "node_inv L c \<Longrightarrow> node_inv L (fst (onMsg L S V e msg c))"
  unfolding onMsg_def inspect_def
  by (auto simp: bindM_def lift_def ret_def modify_def onConsensusMsg_inv node_inv_def split: result.splits)
     (simp_all add: onConsensusMsg_inv [unfolded node_inv_def])

lemma afterGrace_inv: "keepsM (node_inv L) (afterGrace L S e)"
  unfolding afterGrace_def
  by (intro keepsM_inspect keepsM_logged keepsM_bindM onBlock_inv framed_node_inv [OF framed_sendBlock])

lemma runTask_inv: "keepsM (node_inv L) (runTask L S e t)"
  unfolding runTask_def
  by (cases t) (simp_all add: afterGrace_inv framed_node_inv [OF framed_onTx])

lemma cstep_inv:
  assumes "cstep L S V c c'" and "node_inv L c"
  shows "node_inv L c'"
  using assms
proof (cases rule: cstep.cases)
  case (msg raw m e u)
  then show ?thesis using onMsg_inv [OF assms(2), of S V e m] by simp
next
  case (beacon e b u)
  then show ?thesis using keepsM_D [OF watchProposer_inv assms(2), of S e b] by simp
next
  case (timeout_propose e u)
  then show ?thesis
    using keepsM_D [OF onTimeoutProposal_inv, of L "c\<lparr>c_timerPropose := TimerStopped\<rparr>" e] assms(2)
    by (simp add: node_inv_def)
next
  case (timeout_prevote e u)
  then show ?thesis
    using keepsM_D [OF onTimeoutPrevote_inv, of L "c\<lparr>c_timerPrevote := TimerStopped\<rparr>" e] assms(2)
    by (simp add: node_inv_def)
next
  case (timeout_precommit e u)
  then show ?thesis
    using keepsM_D [OF onTimeoutPrecommit_inv, of L "c\<lparr>c_timerPrecommit := TimerStopped\<rparr>" S e] assms(2)
    by (simp add: node_inv_def)
next
  case (timeout_block u)
  then show ?thesis
    using keepsM_D [OF onTimeoutBlock_inv, of L "c\<lparr>c_timerBlock := TimerStopped\<rparr>"] assms(2)
    by (simp add: node_inv_def)
next
  case (task t e u)
  then show ?thesis
    using keepsM_D [OF runTask_inv, of L "c\<lparr>c_tasks := remove1 t (c_tasks c)\<rparr>" S e t] assms(2)
    by (simp add: node_inv_def)
qed (auto simp: node_inv_def)

lemma setupTimers_states: "c_propsalState (setupTimers c) = c_propsalState c" "c_state (setupTimers c) = c_state c"
  by (simp_all add: setupTimers_def)

lemma framed_Msgs [frame_intros]: "framed (Msgs e ch)"
  unfolding Msgs_def by (intro frame_intros)

text \<open>A node whose round has not begun: the state of the round is the zero value.\<close>

definition newborn :: "'z lib_scheme \<Rightarrow> 's Consensus \<Rightarrow> bool" where
  "newborn L c \<longleftrightarrow> c_propsalState c = zero_State L"

lemma newborn_fresh: "newborn L c \<Longrightarrow> fresh_node L c"
  by (simp add: newborn_def fresh_node_def zero_State_def fresh_def votes_of_def)

lemma framed_newborn: "framed m \<Longrightarrow> keepsM (newborn L) m"
  by (rule framed_keeps) (simp_all add: newborn_def)

lemma setupTimers_newborn: "keepsM (newborn L) (modify setupTimers)"
  by (rule keepsM_modify) (simp add: newborn_def setupTimers_states)

lemma Start_newborn: "keepsM (newborn L) (Start e)"
  unfolding Start_def seqM.simps
  by (intro keepsM_andThen keepsM_wrapM keepsM_ret setupTimers_newborn framed_newborn [OF framed_Msgs])

lemma options_propsalState: "c_propsalState (fold apply_option opts c) = c_propsalState c"
proof (induction opts arbitrary: c)
  case (Cons x opts)
  then show ?case by (cases x) simp_all
qed simp

lemma restoreState_newborn: "keepsM (newborn L) (restoreState L S)"
proof -
  have "keepsM (newborn L) (modify (\<lambda>c. c\<lparr>c_state := (c_state c)\<lparr>st_Block := b_ID blk, Height := b_Height blk,
      ParentBlock := b_Parent blk\<rparr>\<rparr>))" for blk
    by (rule keepsM_modify) (simp add: newborn_def)
  then show ?thesis
    unfolding restoreState_def
    by (intro keepsM_inspect keepsM_bindM keepsM_wrapM keepsM_lift keepsM_option keepsM_ret)
qed

lemma NewConsensus_newborn:
  assumes "NewConsensus L S e i s now opts = Ok c"
  shows "newborn L c"
proof -
  obtain pool where pool: "NewTxMemPool = Ok pool" using assms by (auto simp: NewConsensus_def bindr_Ok)
  define c0 where "c0 = fold apply_option opts (setupTimers (blankConsensus L i s pool now))"
  define init where "init = andThen
      (case c_genesis c0 of
         Some gen \<Rightarrow> whenM (\<not> HasGenesisApplied S s)
             (wrapM ''applying genesis'' (onStore (\<lambda>s. ApplyGenesis S (env_ord e) s gen)))
       | None \<Rightarrow> ret ()) (restoreState L S)"
  have "newborn L c0"
    by (simp add: c0_def newborn_def options_propsalState setupTimers_states blankConsensus_def)
  moreover have "keepsM (newborn L) init"
    unfolding init_def
    by (intro keepsM_andThen keepsM_option keepsM_whenM keepsM_wrapM keepsM_ret restoreState_newborn
        framed_newborn [OF framed_onStore])
  moreover have "fst (init c0) = c"
    using assms
    unfolding NewConsensus_def pool bindr.simps Let_def c0_def [symmetric] init_def [symmetric]
    by (cases "init c0") (auto simp: bindr_Ok)
  ultimately show ?thesis using keepsM_D [of "newborn L" init c0] by simp
qed

lemma started_newborn:
  "NewConsensus L S e i s now opts = Ok c \<Longrightarrow> Start e' c = (c', r) \<Longrightarrow> newborn L c'"
  using keepsM_D [OF Start_newborn NewConsensus_newborn, of L S e i s now opts c e'] by simp

lemma reachable_inv: "reachable L S V c \<Longrightarrow> node_inv L c"
proof (induction rule: reachable.induct)
  case (start e i s now opts c e' c' u)
  then show ?case by (intro fresh_inv newborn_fresh started_newborn)
next
  case (step c c')
  then show ?case using cstep_inv by blast
qed

section \<open>The chain of a node\<close>

text \<open>The committed part of a node: the height, the last block and its parent.\<close>

definition chain :: "'s Consensus \<Rightarrow> uint64 \<times> cid \<times> cid" where
  "chain c = (Height (c_state c), ParentBlock (c_state c), st_Block (c_state c))"

text \<open>\<open>stable m\<close>: the operation leaves the committed part alone.\<close>

definition stable :: "('s Consensus, 'a) op \<Rightarrow> bool" where
  "stable m \<longleftrightarrow> (\<forall>c. chain (fst (m c)) = chain c)"

named_theorems stable_intros \<open>rules that an operation is stable\<close>

lemma stable_eq: "stable m \<longleftrightarrow> (\<forall>x. keepsM (\<lambda>c. chain c = x) m)"
  unfolding stable_def keepsM_def by metis

lemma stable_D: "stable m \<Longrightarrow> m c = (c', r) \<Longrightarrow> chain c' = chain c"
  unfolding stable_def by (metis fst_conv)

lemma stable_at: "stable m \<Longrightarrow> chain (fst (m c)) = chain c"
  by (simp add: stable_def)

lemma chain_rest [simp]:
  "chain (c\<lparr>c_timerPropose := t\<rparr>) = chain c" "chain (c\<lparr>c_timerPrevote := t\<rparr>) = chain c"
  "chain (c\<lparr>c_timerPrecommit := t\<rparr>) = chain c" "chain (c\<lparr>c_timerBlock := t\<rparr>) = chain c"
  "chain (c\<lparr>c_tasks := ts\<rparr>) = chain c" "chain (c\<lparr>c_clock := n\<rparr>) = chain c" "chain (c\<lparr>c_store := s\<rparr>) = chain c"
  by (simp_all add: chain_def)

lemma framed_stable: "framed m \<Longrightarrow> stable m"
  by (simp add: framed_def stable_def chain_def)

lemma stable_inspect [stable_intros]: "(\<And>c. stable (f c)) \<Longrightarrow> stable (inspect f)"
  by (simp add: stable_eq keeps_intros)

lemma stable_bindM [stable_intros]: "stable m \<Longrightarrow> (\<And>a. stable (f a)) \<Longrightarrow> stable (bindM m f)"
  by (simp add: stable_eq keeps_intros)

lemma stable_andThen [stable_intros]: "stable m \<Longrightarrow> stable n \<Longrightarrow> stable (andThen m n)"
  by (simp add: stable_eq keeps_intros)

lemma stable_seqM [stable_intros]: "(\<And>m. m \<in> set ms \<Longrightarrow> stable m) \<Longrightarrow> stable (seqM ms)"
  by (simp add: stable_eq keeps_intros)

lemma stable_wrapM [stable_intros]: "stable m \<Longrightarrow> stable (wrapM x m)"
  by (simp add: stable_eq keeps_intros)

lemma stable_logged [stable_intros]: "stable m \<Longrightarrow> stable (logged m)"
  by (simp add: stable_eq keeps_intros)

lemma stable_if [stable_intros]: "stable m \<Longrightarrow> stable n \<Longrightarrow> stable (if b then m else n)"
  by simp

lemma stable_option [stable_intros]:
  "stable m \<Longrightarrow> (\<And>x. stable (f x)) \<Longrightarrow> stable (case x of None \<Rightarrow> m | Some x \<Rightarrow> f x)"
  by (cases x) auto

lemma stable_whenM [stable_intros]: "stable m \<Longrightarrow> stable (whenM b m)"
  by (simp add: stable_eq keeps_intros)

lemma stable_modState [stable_intros]: "stable (modState f)"
  by (simp add: stable_def modState_def modify_def chain_def)

lemma stable_doOnce [stable_intros]: "stable m \<Longrightarrow> stable (doOnce get upd m)"
  by (auto simp: stable_def doOnce_def once_Do_def chain_def case_prod_beta)

lemma stable_leaves [stable_intros]:
  "stable (ret a)" "stable (raise e)" "stable panic" "stable (lift r)"
  by (rule framed_stable, intro frame_intros)+

lemma stable_frames [stable_intros]:
  "stable restartPropose" "stable restartPrevote" "stable restartPrecommit" "stable restartBlock"
  "stable (sendMsg L e b)" "stable (sendVote L e t v)" "stable (sendNewRound L e)" "stable (sendProposal L e)"
  "stable (makeBlock L S e)" "stable (onStore f)" "stable (orUndef L (validate L S V e v))"
  by (rule framed_stable, intro frame_intros)+

lemma stable_modify [stable_intros]:
  "stable (modify (\<lambda>c. c\<lparr>c_tasks := g3 c\<rparr>))" "stable (modify (\<lambda>c. c\<lparr>c_timerPropose := g4 c\<rparr>))"
  "stable (modify (\<lambda>c. c\<lparr>c_timerPrevote := g5 c\<rparr>))" "stable (modify (\<lambda>c. c\<lparr>c_timerPrecommit := g6 c\<rparr>))"
  "stable (modify (\<lambda>c. c\<lparr>c_timerBlock := g7 c\<rparr>))"
  "stable (modify (\<lambda>c. c\<lparr>c_state := (c_state c)\<lparr>Proposer := i\<rparr>\<rparr>))"
  by (simp_all add: stable_def modify_def chain_def)

lemma beginRound_stable [stable_intros]: "stable (modify (beginRound L inc))"
  by (simp add: stable_def modify_def chain_def beginRound_def Let_def)

lemma buildBlock_stable [stable_intros]: "stable (buildBlock L S e)"
  unfolding buildBlock_def by (intro stable_intros)

lemma setThreshold_stable [stable_intros]: "stable (setThreshold L S)"
  unfolding setThreshold_def
  by (intro stable_inspect stable_bindM stable_wrapM) (auto intro: stable_intros split: option.splits)

lemma startRound_stable [stable_intros]: "stable (startRound L S e inc)"
  unfolding startRound_def seqM.simps by (intro stable_intros)

lemma watchProposer_stable: "stable (watchProposer L S e b)"
  unfolding watchProposer_def seqM.simps by (intro stable_intros)

lemma put_stable [stable_intros]:
  "stable (putPreVote m)" "stable (putPreCommit m)" "stable (putPreVotesEvidence k ev)"
  "stable (putPreCommitsEvidence k ev)"
  unfolding putPreVote_def putPreCommit_def putPreVotesEvidence_def putPreCommitsEvidence_def
  by (intro stable_intros)+

lemma ends_stable [stable_intros]: "stable (lockBlock L e)" "stable endVotes"
  unfolding lockBlock_def endVotes_def seqM.simps by (intro stable_intros)+

lemma onVote_stable: "stable (onVote L e msg from)"
  unfolding onVote_def onPreVote_def onPreCommit_def sendEvidence_def Let_def seqM.simps
  by (intro stable_intros)

lemma onNewRound_stable: "stable (onNewRound L msg from)"
  unfolding onNewRound_def by (intro stable_intros)

lemma onProposal_stable: "stable (onProposal L S V e msg from)"
  unfolding onProposal_def acceptProposal_def seqM.simps by (intro stable_intros)

lemma onEvidence_stable: "stable (onEvidence msg from)"
  unfolding onEvidence_def by (intro stable_intros)

lemma timeouts_stable:
  "stable (onTimeoutProposal L e)" "stable (onTimeoutPrevote L e)" "stable (onTimeoutPrecommit L S e)"
  "stable onTimeoutBlock"
  unfolding onTimeoutProposal_def onTimeoutPrevote_def onTimeoutPrecommit_def onTimeoutBlock_def
  by (intro stable_intros)+

section \<open>Commits\<close>

text \<open>What \<^verbatim>\<open>onBlock\<close> does to the committed part, and when.\<close>

definition commits :: "'z clib_scheme \<Rightarrow> 's Consensus \<Rightarrow> 's Consensus \<Rightarrow> bool" where
  "commits L c c' \<longleftrightarrow>
     st_Step (c_propsalState c) = block
   \<and> chain c' = (Height (c_propsalState c), st_Block (c_state c), lockedValue (c_propsalState c))"

lemma andThen_assoc: "andThen (andThen a b) d = andThen a (andThen b d)"
  by (auto simp: andThen_def bindM_def fun_eq_iff split: prod.splits result.splits)

lemma framed_andThen_commit:
  assumes "framed m"
  shows "chain (fst (andThen m (modify commit) c)) = chain c
    \<or> chain (fst (andThen m (modify commit) c))
        = (Height (c_propsalState c), st_Block (c_state c), lockedValue (c_propsalState c))"
proof -
  obtain c' r where m: "m c = (c', r)" by fastforce
  from framed_state [OF assms m] framed_propsalState [OF assms m] show ?thesis
    by (cases r) (simp_all add: andThen_def bindM_def m chain_def commit_def modify_def)
qed

lemma acceptBlock_chain:
  "chain (fst (acceptBlock L S e v c)) = chain c
   \<or> chain (fst (acceptBlock L S e v c))
       = (Height (c_propsalState c), st_Block (c_state c), lockedValue (c_propsalState c))"
proof -
  have "acceptBlock L S e v = andThen
      (andThen (whenM (v \<noteq> cid_Undef L) (logged (onStore (\<lambda>s. MarkBlock S (env_ord' e) s v BlockStateAccepted))))
        (andThen (modify (\<lambda>c. c\<lparr>c_timerBlock := stopTimer (c_timerBlock c)\<rparr>))
          (logged (onStore (\<lambda>s. UpdateLastApplied S s v))))) (modify commit)"
    unfolding acceptBlock_def seqM.simps andThen_ret andThen_assoc ..
  then show ?thesis by (simp only:) (rule framed_andThen_commit, intro frame_intros)
qed

lemma onBlock_commits:
  "chain (fst (onBlock L S e msg from c)) = chain c \<or> commits L c (fst (onBlock L S e msg from c))"
proof (cases "from \<noteq> Proposer (c_state c) \<or> st_Step (c_propsalState c) \<noteq> block")
  case True
  then show ?thesis by (simp add: onBlock_def inspect_def ret_def)
next
  case False
  then show ?thesis
    using acceptBlock_chain [of L S e "lockedValue (c_propsalState c)" c]
    by (cases msg) (simp_all add: onBlock_def inspect_def ret_def panic_def commits_def)
qed

lemma onMsg_commits:
  "chain (fst (onMsg L S V e msg c)) = chain c \<or> commits L c (fst (onMsg L S V e msg c))"
proof -
  have "chain (fst (onConsensusMsg L S V e msg who c)) = chain c \<or> commits L c (fst (onConsensusMsg L S V e msg who c))"
    for who
    using onBlock_commits [of L S e _ who c]
    by (simp add: onConsensusMsg_def panic_def ret_def stable_at [OF onVote_stable] stable_at [OF onNewRound_stable]
        stable_at [OF onProposal_stable] stable_at [OF onEvidence_stable] split: option.splits)
  then show ?thesis
    by (simp add: onMsg_def inspect_def bindM_def lift_def ret_def modify_def split: result.splits)
qed

lemma afterGrace_commits:
  "chain (fst (afterGrace L S e c)) = chain c \<or> commits L c (fst (afterGrace L S e c))"
proof -
  obtain c' r where b: "sendBlock L S e c = (c', r)" by fastforce
  have same: "c_state c' = c_state c" "c_propsalState c' = c_propsalState c"
    using framed_state [OF framed_sendBlock b] framed_propsalState [OF framed_sendBlock b] by auto
  show ?thesis
  proof (cases r)
    case (Ok m)
    then show ?thesis
      using onBlock_commits [of L S e "Some m" "peer_String L (c_id c)" c'] same
      by (simp add: afterGrace_def inspect_def logged_fst bindM_def b commits_def chain_def)
  qed (simp_all add: afterGrace_def inspect_def logged_fst bindM_def b same chain_def)
qed

lemma cstep_commits:
  assumes "cstep L S V c c'"
  shows "chain c' = chain c \<or> commits L c c'"
  using assms
proof (cases rule: cstep.cases)
  case (msg raw m e u)
  then show ?thesis using onMsg_commits [of L S V e m c] by simp
next
  case (beacon e b u)
  then show ?thesis using stable_D [OF watchProposer_stable] by blast
next
  case (timeout_propose e u)
  then show ?thesis using stable_D [OF timeouts_stable(1) timeout_propose(2)] by simp
next
  case (timeout_prevote e u)
  then show ?thesis using stable_D [OF timeouts_stable(2) timeout_prevote(2)] by simp
next
  case (timeout_precommit e u)
  then show ?thesis using stable_D [OF timeouts_stable(3) timeout_precommit(2)] by simp
next
  case (timeout_block u)
  then show ?thesis using stable_D [OF timeouts_stable(4) timeout_block(2)] by simp
next
  case (task t e u)
  show ?thesis
  proof (cases t)
    case (TaskTx m who)
    then show ?thesis
      using task(2) stable_at [OF framed_stable [OF framed_onTx], of m who "c\<lparr>c_tasks := remove1 t (c_tasks c)\<rparr>"]
      by (simp add: runTask_def)
  next
    case TaskSendBlock
    then show ?thesis
      using task(2) afterGrace_commits [of L S e "c\<lparr>c_tasks := remove1 t (c_tasks c)\<rparr>"]
      by (simp add: runTask_def commits_def)
  qed
qed simp_all

end
