(* ===== verification/Consensus_Rounds.thy ===== *)
theory Consensus_Rounds
  imports Consensus_Laws
begin

text \<open>
  The arithmetic of the vote threshold, and the course of a round at a follower: enough prevotes lock
  the block, enough precommits end the vote, and the proposer's block message commits it.
\<close>

section \<open>The threshold\<close>

lemma unat_threshold:
  assumes "n < 2 ^ 64"
  shows "unat (threshold n) = 2 * (n div 3) + 1"
proof -
  define x where "x = (of_nat n div 3 :: uint64)"
  have "unat (of_nat n :: uint64) = n" using assms by (simp add: unat_of_nat)
  then have x: "unat x = n div 3" by (simp add: x_def unat_div)
  have le: "n div 3 * 2 + 1 < 2 ^ 64" using assms by simp
  have "unat (x * 2) = n div 3 * 2" using le by (simp add: unat_word_ariths x)
  then have "unat (threshold n) = n div 3 * 2 + 1"
    unfolding threshold_def x_def [symmetric] using le by (simp add: unat_word_ariths(1))
  then show ?thesis by simp
qed

lemma removeSelf_skip:
  "\<forall>j\<in>set is. arr ! j \<noteq> me \<Longrightarrow> removeSelf me (is @ js) arr n = removeSelf me js arr n"
  by (induction "is") auto

lemma removeSelf_absent:
  "\<forall>j\<in>set is. arr ! j \<noteq> me \<Longrightarrow> removeSelf me is arr n = Some (arr, n)"
  by (induction "is") auto

lemma removeSelf_once:
  assumes d: "distinct ns" and i: "i < length ns" and me: "ns ! i = me"
  shows "removeSelf me [0..<length ns] ns (length ns) = Some (ns[i := ns ! (length ns - 1)], length ns - 1)"
proof -
  have split: "[0..<length ns] = [0..<i] @ i # [Suc i..<length ns]"
    using i by (metis le_add_same_cancel1 less_imp_add_positive upt_add_eq_append upt_conv_Cons zero_le)
  have before: "\<forall>j\<in>set [0..<i]. ns ! j \<noteq> me"
    using d i me by (auto simp: nth_eq_iff_index_eq)
  have after: "\<forall>j\<in>set [Suc i..<length ns]. ns[i := ns ! (length ns - 1)] ! j \<noteq> me"
    using d i me by (auto simp: nth_eq_iff_index_eq)
  show ?thesis
    unfolding split removeSelf_skip [OF before]
    using i me removeSelf_absent [OF after] by simp
qed

lemma quorums_meet:
  assumes "finite V" and "A \<subseteq> V" and "B \<subseteq> V"
    and "2 * (card V div 3) + 1 < card A" and "2 * (card V div 3) + 1 < card B"
  shows "card V div 3 + 2 \<le> card (A \<inter> B)"
proof -
  have "finite A" "finite B" using assms finite_subset by auto
  then have "card A + card B = card (A \<union> B) + card (A \<inter> B)" by (rule card_Un_Int)
  moreover have "card (A \<union> B) \<le> card V" using assms by (intro card_mono) auto
  ultimately show ?thesis using assms(4,5) by linarith
qed

section \<open>Operations that neither panic nor touch the store\<close>

definition calm :: "('s Consensus, 'a) op \<Rightarrow> bool" where
  "calm m \<longleftrightarrow> (\<forall>c. snd (m c) \<noteq> Panic \<and> snd (m c) \<noteq> Diverge \<and> c_store (fst (m c)) = c_store c
     \<and> c_chain (fst (m c)) = c_chain c)"

named_theorems calm_intros \<open>rules that an operation is calm\<close>

lemma calm_leaves [calm_intros]: "calm (ret a)" "calm (raise e)"
  by (simp_all add: calm_def ret_def raise_def)

lemma calm_lift: "r \<noteq> Panic \<Longrightarrow> r \<noteq> Diverge \<Longrightarrow> calm (lift r)"
  by (simp add: calm_def lift_def)

lemma calm_inspect [calm_intros]: "(\<And>c. calm (f c)) \<Longrightarrow> calm (inspect f)"
  by (simp add: calm_def inspect_def)

lemma calm_bindM [calm_intros]: "calm m \<Longrightarrow> (\<And>a. calm (f a)) \<Longrightarrow> calm (bindM m f)"
  unfolding calm_def
proof
  fix c
  assume m: "\<forall>c. snd (m c) \<noteq> Panic \<and> snd (m c) \<noteq> Diverge \<and> c_store (fst (m c)) = c_store c
      \<and> c_chain (fst (m c)) = c_chain c"
    and f: "\<And>a. \<forall>c. snd (f a c) \<noteq> Panic \<and> snd (f a c) \<noteq> Diverge \<and> c_store (fst (f a c)) = c_store c
      \<and> c_chain (fst (f a c)) = c_chain c"
  from m [rule_format, of c] f
  show "snd (bindM m f c) \<noteq> Panic \<and> snd (bindM m f c) \<noteq> Diverge \<and> c_store (fst (bindM m f c)) = c_store c
      \<and> c_chain (fst (bindM m f c)) = c_chain c"
    by (cases "m c"; cases "snd (m c)") (auto simp: bindM_def)
qed

lemma calm_andThen [calm_intros]: "calm m \<Longrightarrow> calm n \<Longrightarrow> calm (andThen m n)"
  unfolding andThen_def by (rule calm_bindM)

lemma calm_wrapM [calm_intros]: "calm m \<Longrightarrow> calm (wrapM x m)"
  unfolding calm_def wrapM_def
proof
  fix c
  assume "\<forall>c. snd (m c) \<noteq> Panic \<and> snd (m c) \<noteq> Diverge \<and> c_store (fst (m c)) = c_store c
      \<and> c_chain (fst (m c)) = c_chain c"
  from this [rule_format, of c]
  show "snd (case m c of (s', r) \<Rightarrow> (s', wrap x r)) \<noteq> Panic
      \<and> snd (case m c of (s', r) \<Rightarrow> (s', wrap x r)) \<noteq> Diverge
      \<and> c_store (fst (case m c of (s', r) \<Rightarrow> (s', wrap x r))) = c_store c
      \<and> c_chain (fst (case m c of (s', r) \<Rightarrow> (s', wrap x r))) = c_chain c"
    by (cases "m c"; cases "snd (m c)") auto
qed

lemma calm_if [calm_intros]: "calm m \<Longrightarrow> calm n \<Longrightarrow> calm (if b then m else n)"
  by simp

lemma calm_option [calm_intros]:
  "calm m \<Longrightarrow> (\<And>x. calm (f x)) \<Longrightarrow> calm (case x of None \<Rightarrow> m | Some x \<Rightarrow> f x)"
  by (cases x) auto

lemma calm_sent [calm_intros]: "calm (modify (\<lambda>c. c\<lparr>c_sent := g c\<rparr>))"
  by (simp add: calm_def modify_def)

lemma calm_restart [calm_intros]: "calm restartPrevote" "calm restartPrecommit"
  by (simp_all add: calm_def restartPrevote_def restartPrecommit_def modify_def)

lemma calm_Marshal [calm_intros]: "calm (lift (Msg_Marshal L m))"
  by (rule calm_lift) (simp_all add: Msg_Marshal_def split: option.splits)

lemma calm_signedMsg [calm_intros]: "calm (lift (signedMsg L c key b))"
  by (rule calm_lift)
     (auto simp: signedMsg_def signatureData_def Msg_Marshal_def Let_def split: option.splits)

lemma calm_sendMsg [calm_intros]: "calm (sendMsg L e b)"
  unfolding sendMsg_def PublishContext_def by (intro calm_intros)

lemma calm_sendVote [calm_intros]: "calm (sendVote L e t v)"
  unfolding sendVote_def by (intro calm_intros)

text \<open>The parts of a node a round is about.\<close>

definition core :: "'s Consensus \<Rightarrow> State \<times> State \<times> 's \<times> bytes" where
  "core c = (c_state c, c_propsalState c, c_store c, c_chain c)"

lemma logged_quiet:
  assumes "framed m" and "calm m"
  shows "\<exists>c'. logged m c = (c', Ok ()) \<and> core c' = core c"
  using assms [unfolded framed_def calm_def, rule_format, of c]
  by (cases "m c"; cases "snd (m c)") (auto simp: logged_def core_def)

section \<open>The course of a round at a follower\<close>

lemma lockBlock_run:
  "\<exists>c'. lockBlock L e c = (c', Ok ()) \<and> core c' = (c_state c, locked (c_propsalState c), c_store c, c_chain c)"
proof -
  define c0 where "c0 = c\<lparr>c_timerPrevote := stopTimer (c_timerPrevote c), c_propsalState := locked (c_propsalState c)\<rparr>"
  let ?m = "andThen (sendVote L e VoteTypePreCommit (cid_String L (st_Block (c_propsalState c0)))) restartPrecommit"
  have "framed ?m" "calm ?m" by (intro frame_intros calm_intros)+
  from logged_quiet [OF this, of c0] obtain c' where c': "logged ?m c0 = (c', Ok ())" "core c' = core c0" by blast
  have "lockBlock L e c = logged ?m c0"
    unfolding lockBlock_def by (simp add: c0_def locked_def setStep_def inspect_def)
  with c' show ?thesis by (simp add: core_def c0_def)
qed

lemma endVotes_run:
  assumes "\<not> AmProposer (c_propsalState c)"
  shows "\<exists>c'. endVotes c = (c', Ok ())
    \<and> core c' = (c_state c, (c_propsalState c)\<lparr>st_Step := block\<rparr>, c_store c, c_chain c)"
  using assms
  by (simp add: endVotes_def setStep_def inspect_def restartBlock_def core_def) (simp add: modify_def)

lemma onVote_dispatch:
  assumes "vote_for L (c_propsalState c) ty m" and "peer_String L (m_From m) \<noteq> Proposer (c_state c)"
    and "ty \<in> {VoteTypePreVote, VoteTypePreCommit}"
    and run: "(if ty = VoteTypePreVote then onPreVote L e m else onPreCommit m) c = (c', Ok ())"
    and "\<not> AmProposer (c_propsalState c')"
  shows "onVote L e m (peer_String L (m_From m)) c = (c', Ok ())"
proof -
  from assms(1) obtain cm v where "m_Consensus m = Some cm" "cm_Vote cm = Some v" "v_Type v = ty"
    "v_Height v = Height (c_propsalState c)" "v_Round v = Round (c_propsalState c)"
    "v_BlockID v = cid_String L (st_Block (c_propsalState c))" by (auto simp: vote_for_def)
  then show ?thesis
    using assms(2-5)
    by (auto simp: onVote_def inspect_def andThen_def bindM_def whenM_def ret_def)
qed

text \<open>One prevote: it is added, and the block is locked when the votes are more than the threshold.\<close>

definition after_prevote :: "Msg \<Rightarrow> State \<Rightarrow> State" where
  "after_prevote m p =
     (let p' = p\<lparr>PreVotes := Some (alist_put (m_From m) m (votes_of (PreVotes p)))\<rparr> in
      if votes_len (PreVotes p') > st_f p' then (locked p')\<lparr>pcOnce := \<lparr>once_done = 1\<rparr>\<rparr> else p')"

definition after_precommit :: "Msg \<Rightarrow> State \<Rightarrow> State" where
  "after_precommit m p =
     (let p' = p\<lparr>PreCommits := Some (alist_put (m_From m) m (votes_of (PreCommits p)))\<rparr> in
      if votes_len (PreCommits p') > st_f p' then p'\<lparr>st_Step := block, sbOnce := \<lparr>once_done = 1\<rparr>\<rparr> else p')"

lemma after_prevote_round:
  "Height (after_prevote m p) = Height p" "Round (after_prevote m p) = Round p" "st_Block (after_prevote m p) = st_Block p"
  by (simp_all add: after_prevote_def Let_def locked_def)

lemma after_precommit_round:
  "Height (after_precommit m p) = Height p" "Round (after_precommit m p) = Round p" "st_Block (after_precommit m p) = st_Block p"
  by (simp_all add: after_precommit_def Let_def)

lemma onPreVote_run:
  assumes "\<not> AmProposer (c_propsalState c)" and "st_Step (c_propsalState c) = prevote"
    and "PreVotes (c_propsalState c) = Some vs" and "pcOnce (c_propsalState c) = \<lparr>once_done = 0\<rparr>"
  shows "\<exists>c'. onPreVote L e m c = (c', Ok ())
    \<and> core c' = (c_state c, after_prevote m (c_propsalState c), c_store c, c_chain c)"
proof -
  define c0 where "c0 = c\<lparr>c_propsalState := (c_propsalState c)\<lparr>PreVotes := Some (alist_put (m_From m) m vs)\<rparr>\<rparr>"
  obtain d where d: "lockBlock L e c0 = (d, Ok ())"
      "core d = (c_state c0, locked (c_propsalState c0), c_store c0, c_chain c0)"
    using lockBlock_run by blast
  have "onPreVote L e m c = whenM (votes_len (PreVotes (c_propsalState c0)) > st_f (c_propsalState c0))
      (doOnce pcOnce pcOnce_update (lockBlock L e)) c0"
    using assms
    by (simp add: onPreVote_def inspect_def whenM_def andThen_def bindM_def ret_def putPreVote_def modState_def
        modify_def c0_def del: seqM_last split: option.splits)
       (auto split: prod.splits result.splits)
  then show ?thesis
    using d assms
    by (auto simp: whenM_def ret_def doOnce_def once_Do_def core_def c0_def after_prevote_def votes_of_def Let_def)
qed

lemma onPreCommit_run:
  assumes "\<not> AmProposer (c_propsalState c)" and "st_Step (c_propsalState c) = precommit"
    and "PreCommits (c_propsalState c) = Some vs" and "sbOnce (c_propsalState c) = \<lparr>once_done = 0\<rparr>"
  shows "\<exists>c'. onPreCommit m c = (c', Ok ())
    \<and> core c' = (c_state c, after_precommit m (c_propsalState c), c_store c, c_chain c)"
proof -
  define c0 where "c0 = c\<lparr>c_propsalState := (c_propsalState c)\<lparr>PreCommits := Some (alist_put (m_From m) m vs)\<rparr>\<rparr>"
  have "\<not> AmProposer (c_propsalState c0)" using assms by (simp add: c0_def)
  from endVotes_run [OF this] obtain d where d: "endVotes c0 = (d, Ok ())"
      "core d = (c_state c0, (c_propsalState c0)\<lparr>st_Step := block\<rparr>, c_store c0, c_chain c0)" by blast
  have "onPreCommit m c = whenM (votes_len (PreCommits (c_propsalState c0)) > st_f (c_propsalState c0))
      (doOnce sbOnce sbOnce_update endVotes) c0"
    using assms
    by (simp add: onPreCommit_def inspect_def whenM_def andThen_def bindM_def ret_def putPreCommit_def modState_def
        modify_def c0_def del: seqM_last split: option.splits)
       (auto split: prod.splits result.splits)
  then show ?thesis
    using d assms
    by (auto simp: whenM_def ret_def doOnce_def once_Do_def core_def c0_def after_precommit_def votes_of_def Let_def)
qed

text \<open>A vote message that passes every check of a node, and the delivery of a sequence of messages.\<close>

definition vote_msg :: "'z clib_scheme \<Rightarrow> 's Store \<Rightarrow> 's Consensus \<Rightarrow> uint8 \<Rightarrow> Msg \<Rightarrow> bool" where
  "vote_msg L S c ty m \<longleftrightarrow>
     checkMsg L S c m = Ok True \<and> m_Type m = MsgTypeConsensus
   \<and> map_option cm_Type (m_Consensus m) = Some ConsensusMsgTypeVote
   \<and> vote_for L (c_propsalState c) ty m \<and> peer_String L (m_From m) \<noteq> Proposer (c_state c)"

definition deliver ::
    "'z clib_scheme \<Rightarrow> 's Store \<Rightarrow> 's Validator \<Rightarrow> (env \<times> Msg) list \<Rightarrow> ('s Consensus, unit) op" where
  "deliver L S V ms = seqM (map (\<lambda>(e, m). onMsg L S V e m) ms)"

lemma deliver_Nil [simp]: "deliver L S V [] c = (c, Ok ())"
  by (simp add: deliver_def ret_def)

lemma deliver_Cons:
  "onMsg L S V e m c = (c', Ok ()) \<Longrightarrow> deliver L S V ((e, m) # ms) c = deliver L S V ms c'"
  by (simp add: deliver_def andThen_def bindM_def)

lemma deliver_append:
  "deliver L S V ms c = (c', Ok ()) \<Longrightarrow> deliver L S V (ms @ ms') c = deliver L S V ms' c'"
proof (induction ms arbitrary: c)
  case (Cons em ms)
  obtain e m where em: "em = (e, m)" by fastforce
  obtain d r where d: "onMsg L S V e m c = (d, r)" by fastforce
  have "r = Ok ()" using Cons.prems d by (cases r) (simp_all add: em deliver_def andThen_def bindM_def)
  with d Cons show ?case by (simp add: em deliver_Cons)
qed simp

lemma checkMsg_core:
  "c_store c' = c_store c \<Longrightarrow> c_chain c' = c_chain c \<Longrightarrow> checkMsg L S c' m = checkMsg L S c m"
  by (simp add: checkMsg_def)

lemma vote_msg_core:
  assumes "core c' = (c_state c, p', c_store c, c_chain c)" and "Height p' = Height (c_propsalState c)"
    and "Round p' = Round (c_propsalState c)" and "st_Block p' = st_Block (c_propsalState c)"
  shows "vote_msg L S c' ty m = vote_msg L S c ty m"
  using assms checkMsg_core [of c' c L S m] by (simp add: vote_msg_def vote_for_def core_def)

lemma onMsg_vote:
  "vote_msg L S c ty m \<Longrightarrow> onMsg L S V e m c = onVote L e m (peer_String L (m_From m)) c"
  by (auto simp: vote_msg_def onMsg_def inspect_def bindM_def lift_def onConsensusMsg_def)

lemma onMsg_prevote:
  assumes m: "vote_msg L S c VoteTypePreVote m" and "\<not> AmProposer (c_propsalState c)"
    and "st_Step (c_propsalState c) = prevote" and "PreVotes (c_propsalState c) = Some vs"
    and "pcOnce (c_propsalState c) = \<lparr>once_done = 0\<rparr>"
  shows "\<exists>c'. onMsg L S V e m c = (c', Ok ())
    \<and> core c' = (c_state c, after_prevote m (c_propsalState c), c_store c, c_chain c)"
proof -
  from onPreVote_run [OF assms(2-5), of L e m] obtain c' where c': "onPreVote L e m c = (c', Ok ())"
    "core c' = (c_state c, after_prevote m (c_propsalState c), c_store c, c_chain c)" by blast
  have "\<not> AmProposer (c_propsalState c')"
    using c'(2) assms(2) by (simp add: core_def after_prevote_def Let_def locked_def split: if_splits)
  then have "onVote L e m (peer_String L (m_From m)) c = (c', Ok ())"
    using m c'(1) by (intro onVote_dispatch [where ty = VoteTypePreVote]) (simp_all add: vote_msg_def)
  then show ?thesis using c'(2) onMsg_vote [OF m, of V e] by simp
qed

lemma onMsg_precommit:
  assumes m: "vote_msg L S c VoteTypePreCommit m" and "\<not> AmProposer (c_propsalState c)"
    and "st_Step (c_propsalState c) = precommit" and "PreCommits (c_propsalState c) = Some vs"
    and "sbOnce (c_propsalState c) = \<lparr>once_done = 0\<rparr>"
  shows "\<exists>c'. onMsg L S V e m c = (c', Ok ())
    \<and> core c' = (c_state c, after_precommit m (c_propsalState c), c_store c, c_chain c)"
proof -
  from onPreCommit_run [OF assms(2-5), of m] obtain c' where c': "onPreCommit m c = (c', Ok ())"
    "core c' = (c_state c, after_precommit m (c_propsalState c), c_store c, c_chain c)" by blast
  have "\<not> AmProposer (c_propsalState c')"
    using c'(2) assms(2) by (simp add: core_def after_precommit_def Let_def split: if_splits)
  then have "onVote L e m (peer_String L (m_From m)) c = (c', Ok ())"
    using m c'(1) by (intro onVote_dispatch [where ty = VoteTypePreCommit]) (simp_all add: vote_msg_def)
  then show ?thesis using c'(2) onMsg_vote [OF m, of V e] by simp
qed

text \<open>Votes of a phase that is over change nothing.\<close>

lemma late_vote:
  assumes m: "vote_msg L S c ty m" and "\<not> AmProposer (c_propsalState c)"
    and "ty = VoteTypePreVote \<and> st_Step (c_propsalState c) \<noteq> prevote
       \<or> ty = VoteTypePreCommit \<and> st_Step (c_propsalState c) \<noteq> precommit"
  shows "onMsg L S V e m c = (c, Ok ())"
proof -
  have "onVote L e m (peer_String L (m_From m)) c = (c, Ok ())"
    using assms by (intro onVote_dispatch [where ty = ty])
      (auto simp: vote_msg_def onPreVote_def onPreCommit_def inspect_def ret_def)
  then show ?thesis using onMsg_vote [OF m, of V e] by simp
qed

lemma late_votes:
  assumes "\<forall>(e, m)\<in>set ms. vote_msg L S c ty m" and "\<not> AmProposer (c_propsalState c)"
    and "ty = VoteTypePreVote \<and> st_Step (c_propsalState c) \<noteq> prevote
       \<or> ty = VoteTypePreCommit \<and> st_Step (c_propsalState c) \<noteq> precommit"
  shows "deliver L S V ms c = (c, Ok ())"
  using assms(1)
proof (induction ms)
  case (Cons em ms)
  obtain e m where em: "em = (e, m)" by fastforce
  have "onMsg L S V e m c = (c, Ok ())" using Cons.prems by (intro late_vote [OF _ assms(2,3)]) (simp add: em)
  then show ?case using Cons by (simp add: em deliver_Cons)
qed simp

text \<open>Enough prevotes lock the block of the round.\<close>

lemma word_of_nat_less: "unat f < n \<Longrightarrow> n < 2 ^ 64 \<Longrightarrow> (f :: uint64) < of_nat n"
  by (simp add: word_less_nat_alt unat_of_nat)

lemma prevotes_lock:
  assumes "\<forall>(e, m)\<in>set ms. vote_msg L S c VoteTypePreVote m" and "distinct (map (m_From \<circ> snd) ms)"
    and "c_propsalState c = p\<lparr>PreVotes := Some vs\<rparr>" and "(m_From \<circ> snd) ` set ms \<inter> fst ` set vs = {}"
    and "\<not> AmProposer p" and "st_Step p = prevote" and "pcOnce p = \<lparr>once_done = 0\<rparr>"
    and "length vs \<le> unat (st_f p)" and "unat (st_f p) < length vs + length ms" and "length vs + length ms < 2 ^ 64"
  shows "\<exists>c' vs'. deliver L S V ms c = (c', Ok ())
    \<and> core c' = (c_state c, (locked p)\<lparr>PreVotes := Some vs', pcOnce := \<lparr>once_done = 1\<rparr>\<rparr>, c_store c, c_chain c)"
  using assms
proof (induction ms arbitrary: c vs)
  case (Cons em ms)
  obtain e m where em: "em = (e, m)" by fastforce
  let ?vs = "alist_put (m_From m) m vs"
  have len: "length ?vs = Suc (length vs)" using Cons.prems(4) by (simp add: length_alist_put em)
  have m: "vote_msg L S c VoteTypePreVote m" using Cons.prems(1) by (simp add: em)
  from onMsg_prevote [OF m, of vs V e] Cons.prems obtain d where d: "onMsg L S V e m c = (d, Ok ())"
    "core d = (c_state c, after_prevote m (c_propsalState c), c_store c, c_chain c)" by auto
  have rest: "\<forall>(e, m)\<in>set ms. vote_msg L S d VoteTypePreVote m"
    using Cons.prems(1) by (auto simp: vote_msg_core [OF d(2) after_prevote_round])
  show ?case
  proof (cases "unat (st_f p) < length ?vs")
    case True
    moreover have "length ?vs < 2 ^ 64" using Cons.prems(10) len by simp
    ultimately have "st_f p < of_nat (length ?vs)" by (rule word_of_nat_less)
    then have p': "c_propsalState d = (locked p)\<lparr>PreVotes := Some ?vs, pcOnce := \<lparr>once_done = 1\<rparr>\<rparr>"
      using d(2) Cons.prems(3) by (simp add: core_def after_prevote_def votes_len_def votes_of_def locked_def)
    then have "deliver L S V ms d = (d, Ok ())"
      using Cons.prems(5) by (intro late_votes [OF rest]) (simp_all add: locked_def)
    then have "deliver L S V (em # ms) c = (d, Ok ())" using d(1) by (simp add: em deliver_Cons)
    moreover have "core d = (c_state c, (locked p)\<lparr>PreVotes := Some ?vs, pcOnce := \<lparr>once_done = 1\<rparr>\<rparr>, c_store c, c_chain c)"
      using d(2) p' by (simp add: core_def)
    ultimately show ?thesis by blast
  next
    case False
    then have "\<not> st_f p < of_nat (length ?vs)" using of_nat_less_uint64 by blast
    then have p': "c_propsalState d = p\<lparr>PreVotes := Some ?vs\<rparr>"
      using d(2) Cons.prems(3) by (simp add: core_def after_prevote_def votes_len_def votes_of_def)
    have "\<exists>c' vs'. deliver L S V ms d = (c', Ok ())
      \<and> core c' = (c_state d, (locked p)\<lparr>PreVotes := Some vs', pcOnce := \<lparr>once_done = 1\<rparr>\<rparr>, c_store d, c_chain d)"
      using Cons.prems False len by (intro Cons.IH [OF rest _ p']) (auto simp: em)
    then show ?thesis using d by (simp add: em deliver_Cons core_def)
  qed
qed simp

text \<open>Enough precommits end the vote.\<close>

lemma precommits_end:
  assumes "\<forall>(e, m)\<in>set ms. vote_msg L S c VoteTypePreCommit m" and "distinct (map (m_From \<circ> snd) ms)"
    and "c_propsalState c = p\<lparr>PreCommits := Some vs\<rparr>" and "(m_From \<circ> snd) ` set ms \<inter> fst ` set vs = {}"
    and "\<not> AmProposer p" and "st_Step p = precommit" and "sbOnce p = \<lparr>once_done = 0\<rparr>"
    and "length vs \<le> unat (st_f p)" and "unat (st_f p) < length vs + length ms" and "length vs + length ms < 2 ^ 64"
  shows "\<exists>c' vs'. deliver L S V ms c = (c', Ok ())
    \<and> core c' = (c_state c, p\<lparr>PreCommits := Some vs', st_Step := block, sbOnce := \<lparr>once_done = 1\<rparr>\<rparr>, c_store c, c_chain c)"
  using assms
proof (induction ms arbitrary: c vs)
  case (Cons em ms)
  obtain e m where em: "em = (e, m)" by fastforce
  let ?vs = "alist_put (m_From m) m vs"
  have len: "length ?vs = Suc (length vs)" using Cons.prems(4) by (simp add: length_alist_put em)
  have m: "vote_msg L S c VoteTypePreCommit m" using Cons.prems(1) by (simp add: em)
  from onMsg_precommit [OF m, of vs V e] Cons.prems obtain d where d: "onMsg L S V e m c = (d, Ok ())"
    "core d = (c_state c, after_precommit m (c_propsalState c), c_store c, c_chain c)" by auto
  have rest: "\<forall>(e, m)\<in>set ms. vote_msg L S d VoteTypePreCommit m"
    using Cons.prems(1) by (auto simp: vote_msg_core [OF d(2) after_precommit_round])
  show ?case
  proof (cases "unat (st_f p) < length ?vs")
    case True
    moreover have "length ?vs < 2 ^ 64" using Cons.prems(10) len by simp
    ultimately have "st_f p < of_nat (length ?vs)" by (rule word_of_nat_less)
    then have p': "c_propsalState d = p\<lparr>PreCommits := Some ?vs, st_Step := block, sbOnce := \<lparr>once_done = 1\<rparr>\<rparr>"
      using d(2) Cons.prems(3) by (simp add: core_def after_precommit_def votes_len_def votes_of_def)
    then have "deliver L S V ms d = (d, Ok ())"
      using Cons.prems(5) by (intro late_votes [OF rest]) simp_all
    then have "deliver L S V (em # ms) c = (d, Ok ())" using d(1) by (simp add: em deliver_Cons)
    moreover have "core d = (c_state c, p\<lparr>PreCommits := Some ?vs, st_Step := block, sbOnce := \<lparr>once_done = 1\<rparr>\<rparr>,
        c_store c, c_chain c)"
      using d(2) p' by (simp add: core_def)
    ultimately show ?thesis by blast
  next
    case False
    then have "\<not> st_f p < of_nat (length ?vs)" using of_nat_less_uint64 by blast
    then have p': "c_propsalState d = p\<lparr>PreCommits := Some ?vs\<rparr>"
      using d(2) Cons.prems(3) by (simp add: core_def after_precommit_def votes_len_def votes_of_def)
    have "\<exists>c' vs'. deliver L S V ms d = (c', Ok ())
      \<and> core c' = (c_state d, p\<lparr>PreCommits := Some vs', st_Step := block, sbOnce := \<lparr>once_done = 1\<rparr>\<rparr>, c_store d, c_chain d)"
      using Cons.prems False len by (intro Cons.IH [OF rest _ p']) (auto simp: em)
    then show ?thesis using d by (simp add: em deliver_Cons core_def)
  qed
qed simp

text \<open>The block message of the proposer commits the locked block.\<close>

definition block_msg :: "'z clib_scheme \<Rightarrow> 's Store \<Rightarrow> 's Consensus \<Rightarrow> Msg \<Rightarrow> bool" where
  "block_msg L S c m \<longleftrightarrow>
     checkMsg L S c m = Ok True \<and> m_Type m = MsgTypeConsensus \<and> peer_String L (m_From m) = Proposer (c_state c)
   \<and> (\<exists>cm b. m_Consensus m = Some cm \<and> cm_Type cm = ConsensusMsgTypeBlock \<and> cm_Block cm = Some b
        \<and> cb_CID b = cid_String L (st_Block (c_propsalState c)) \<and> cb_Round b = Round (c_propsalState c))"

definition store_calm :: "'s Store \<Rightarrow> range_order \<Rightarrow> 's \<Rightarrow> cid \<Rightarrow> bool" where
  "store_calm S ord s b \<longleftrightarrow>
     snd (MarkBlock S ord s b BlockStateAccepted) \<notin> {Panic, Diverge}
   \<and> snd (UpdateLastApplied S s b) \<notin> {Panic, Diverge}
   \<and> snd (UpdateLastApplied S (fst (MarkBlock S ord s b BlockStateAccepted)) b) \<notin> {Panic, Diverge}"

lemma logged_onStore:
  "snd (f (c_store c)) \<notin> {Panic, Diverge} \<Longrightarrow> logged (onStore f) c = (c\<lparr>c_store := fst (f (c_store c))\<rparr>, Ok ())"
  by (cases "f (c_store c)"; cases "snd (f (c_store c))") (auto simp: logged_def onStore_def)

lemma acceptBlock_run:
  assumes "store_calm S (env_ord' e) (c_store c) v"
  shows "\<exists>c'. acceptBlock L S e v c = (c', Ok ())
    \<and> chain c' = (Height (c_propsalState c), st_Block (c_state c), lockedValue (c_propsalState c))"
proof -
  let ?mark = "\<lambda>s. MarkBlock S (env_ord' e) s v BlockStateAccepted"
  define c1 where "c1 = (if v = cid_Undef L then c else c\<lparr>c_store := fst (?mark (c_store c))\<rparr>)"
  have "whenM (v \<noteq> cid_Undef L) (logged (onStore ?mark)) c = (c1, Ok ())"
    using assms by (simp add: whenM_def c1_def ret_def logged_onStore store_calm_def)
  moreover define c2 where "c2 = c1\<lparr>c_timerBlock := stopTimer (c_timerBlock c1)\<rparr>"
  moreover have "logged (onStore (\<lambda>s. UpdateLastApplied S s v)) c2
      = (c2\<lparr>c_store := fst (UpdateLastApplied S (c_store c2) v)\<rparr>, Ok ())"
    using assms by (intro logged_onStore) (auto simp: c2_def c1_def store_calm_def)
  ultimately have "acceptBlock L S e v c = (commit (c2\<lparr>c_store := fst (UpdateLastApplied S (c_store c2) v)\<rparr>), Ok ())"
    by (simp add: acceptBlock_def andThen_def bindM_def modify_def ret_def)
  then show ?thesis by (simp add: chain_def commit_def c2_def c1_def)
qed

lemma onMsg_block:
  assumes m: "block_msg L S c m" and "st_Step (c_propsalState c) = block"
    and "lockedValue (c_propsalState c) = st_Block (c_propsalState c)"
    and "lockedRound (c_propsalState c) = Round (c_propsalState c)"
    and "store_calm S (env_ord' e) (c_store c) (st_Block (c_propsalState c))"
  shows "\<exists>c'. onMsg L S V e m c = (c', Ok ())
    \<and> chain c' = (Height (c_propsalState c), st_Block (c_state c), st_Block (c_propsalState c))"
proof -
  have "onMsg L S V e m c = acceptBlock L S e (st_Block (c_propsalState c)) c"
    using assms by (auto simp: block_msg_def onMsg_def inspect_def bindM_def lift_def onConsensusMsg_def onBlock_def)
  then show ?thesis using acceptBlock_run [OF assms(5), of L] assms(3) by simp
qed

lemma round_commits:
  assumes p: "p = c_propsalState c" and "\<not> AmProposer p" and "st_Step p = prevote"
    and "PreVotes p = Some []" and "PreCommits p = Some []"
    and "pcOnce p = \<lparr>once_done = 0\<rparr>" and "sbOnce p = \<lparr>once_done = 0\<rparr>"
    and pv: "\<forall>(e, m)\<in>set pvs. vote_msg L S c VoteTypePreVote m" "distinct (map (m_From \<circ> snd) pvs)"
      "unat (st_f p) < length pvs" "length pvs < 2 ^ 64"
    and pc: "\<forall>(e, m)\<in>set pcs. vote_msg L S c VoteTypePreCommit m" "distinct (map (m_From \<circ> snd) pcs)"
      "unat (st_f p) < length pcs" "length pcs < 2 ^ 64"
    and b: "block_msg L S c b" "store_calm S (env_ord' e) (c_store c) (st_Block p)"
  shows "\<exists>c'. deliver L S V (pvs @ pcs @ [(e, b)]) c = (c', Ok ())
    \<and> chain c' = (Height p, st_Block (c_state c), st_Block p)"
proof -
  from prevotes_lock [OF pv(1,2), where p = p and vs = "[]" and V = V] assms obtain c1 vs where c1: "deliver L S V pvs c = (c1, Ok ())"
    "core c1 = (c_state c, (locked p)\<lparr>PreVotes := Some vs, pcOnce := \<lparr>once_done = 1\<rparr>\<rparr>, c_store c, c_chain c)"
    by auto
  define p1 where "p1 = (locked p)\<lparr>PreVotes := Some vs, pcOnce := \<lparr>once_done = 1\<rparr>\<rparr>"
  have pc1: "\<forall>(e, m)\<in>set pcs. vote_msg L S c1 VoteTypePreCommit m"
    using pc(1) by (auto simp: vote_msg_core [OF c1(2)] p locked_def)
  have "\<exists>c' vs'. deliver L S V pcs c1 = (c', Ok ())
    \<and> core c' = (c_state c1, p1\<lparr>PreCommits := Some vs', st_Step := block, sbOnce := \<lparr>once_done = 1\<rparr>\<rparr>, c_store c1, c_chain c1)"
    using assms(2-7) pc c1(2)
    by (intro precommits_end [OF pc1, where vs = "[]"]) (simp_all add: core_def p1_def locked_def)
  then obtain c2 vs' where c2: "deliver L S V pcs c1 = (c2, Ok ())"
    "core c2 = (c_state c, p1\<lparr>PreCommits := Some vs', st_Step := block, sbOnce := \<lparr>once_done = 1\<rparr>\<rparr>, c_store c, c_chain c)"
    using c1(2) by (auto simp: core_def)
  have "block_msg L S c2 b"
    using b(1) c2(2) checkMsg_core [of c2 c L S b] by (simp add: block_msg_def core_def p1_def locked_def p)
  then have "\<exists>c'. onMsg L S V e b c2 = (c', Ok ())
      \<and> chain c' = (Height (c_propsalState c2), st_Block (c_state c2), st_Block (c_propsalState c2))"
    using c2(2) b(2) by (intro onMsg_block) (simp_all add: core_def p1_def locked_def)
  then obtain c3 where "onMsg L S V e b c2 = (c3, Ok ())" "chain c3 = (Height p, st_Block (c_state c), st_Block p)"
    using c2(2) by (auto simp: core_def p1_def locked_def)
  then show ?thesis by (simp add: deliver_append [OF c1(1)] deliver_append [OF c2(1)] deliver_Cons)
qed

end
