(* ===== verification/Consensus_Follower.thy ===== *)
theory Consensus_Follower
  imports Consensus_Rounds
begin

text \<open>
  The threshold of a follower: \<^verbatim>\<open>startRound\<close> computes it for the proposer only, so a node that has
  never been the proposer keeps the threshold zero it started with.
\<close>

definition idle :: "'s Consensus \<Rightarrow> bool" where
  "idle c \<longleftrightarrow> AmProposer (c_propsalState c) \<or> st_f (c_propsalState c) = 0"

definition proposing :: "'s Consensus \<Rightarrow> bool" where
  "proposing c \<longleftrightarrow> AmProposer (c_propsalState c)"

lemma proposing_idle: "proposing c \<Longrightarrow> idle c"
  by (simp add: proposing_def idle_def)

lemma framed_idle: "framed m \<Longrightarrow> keepsM idle m"
  by (rule framed_keeps) (simp_all add: idle_def)

lemma framed_proposing: "framed m \<Longrightarrow> keepsM proposing m"
  by (rule framed_keeps) (simp_all add: proposing_def)

lemma modState_idle:
  "(\<And>p. AmProposer (f p) = AmProposer p) \<Longrightarrow> (\<And>p. st_f (f p) = st_f p) \<Longrightarrow> keepsM idle (modState f)"
  unfolding modState_def by (rule keepsM_modify) (simp add: idle_def)

lemma modState_proposing: "(\<And>p. AmProposer (f p) = AmProposer p) \<Longrightarrow> keepsM proposing (modState f)"
  unfolding modState_def by (rule keepsM_modify) (simp add: proposing_def)

lemma doOnce_idle:
  assumes "keepsM idle m"
  shows "keepsM idle (doOnce pvOnce pvOnce_update m)" "keepsM idle (doOnce pcOnce pcOnce_update m)"
    "keepsM idle (doOnce sbOnce sbOnce_update m)"
  using assms by (auto simp: keepsM_def doOnce_def once_Do_def case_prod_beta idle_def)

lemma startRound_idle:
  assumes "st_f (c_propsalState c) = 0"
  shows "idle (fst (startRound L S e inc c))"
proof -
  let ?follow = "andThen (modState (\<lambda>p. if st_Block p = cid_Undef L \<and> Round p > 1 then setStep propose p else p)) restartPropose"
  let ?lead = "seqM [restartPrevote, wrapM ''sending new round'' (sendNewRound L e), setThreshold L S,
      buildBlock L S e, wrapM ''sending proposal'' (sendProposal L e), modState (setStep prevote)]"
  have follow: "keepsM idle ?follow"
    by (intro keepsM_andThen modState_idle framed_idle [OF framed_restart(1)]) (simp_all add: setStep_def)
  have "keepsM proposing (setThreshold L S)"
    unfolding setThreshold_def
    by (intro keepsM_inspect keepsM_bindM keepsM_wrapM keepsM_lift)
       (auto intro!: keepsM_panic modState_proposing split: option.splits)
  moreover have "keepsM proposing (buildBlock L S e)"
    unfolding buildBlock_def
    by (intro keepsM_inspect keepsM_whenM keepsM_bindM keepsM_wrapM keepsM_option keepsM_ret modState_proposing
        framed_proposing [OF framed_makeBlock] framed_proposing [OF framed_onStore]) simp
  ultimately have lead: "keepsM proposing ?lead"
    unfolding seqM.simps
    by (intro keepsM_andThen keepsM_ret keepsM_wrapM framed_proposing [OF framed_restart(2)]
        framed_proposing [OF framed_sends(2)] framed_proposing [OF framed_sends(3)] modState_proposing)
       (simp_all add: setStep_def)
  have b: "st_f (c_propsalState (beginRound L inc c)) = 0"
    using assms by (simp add: beginRound_def Let_def setStep_def resetOnces_def clearVotes_def)
  have "idle (fst (inspect (\<lambda>c. if \<not> AmProposer (c_propsalState c) then ?follow else ?lead) (beginRound L inc c)))"
  proof (cases "AmProposer (c_propsalState (beginRound L inc c))")
    case True
    then show ?thesis
      unfolding inspect_def using proposing_idle keepsM_D [OF lead, of "beginRound L inc c"] by (simp add: proposing_def)
  next
    case False
    then show ?thesis unfolding inspect_def using keepsM_D [OF follow, of "beginRound L inc c"] b by (simp add: idle_def)
  qed
  then show ?thesis unfolding startRound_def by simp
qed

lemma watchProposer_idle:
  assumes "st_f (c_propsalState c) = 0"
  shows "idle (fst (watchProposer L S e b c))"
proof -
  have i: "idle c" using assms by (simp add: idle_def)
  have "idle (fst (seqM [modState (setStep propose), modify (\<lambda>c. c\<lparr>c_state := (c_state c)\<lparr>Proposer := x\<rparr>\<rparr>),
      logged (startRound L S e False)] c))" for x
    using assms by (simp add: logged_fst startRound_idle setStep_def del: seqM_last)
  then show ?thesis
    using i by (simp add: watchProposer_def inspect_def bindM_def lift_def ret_def split: result.splits option.splits)
qed

lemma put_idle:
  "keepsM idle (putPreVote m)" "keepsM idle (putPreCommit m)" "keepsM idle (putPreVotesEvidence k ev)"
  "keepsM idle (putPreCommitsEvidence k ev)"
  unfolding putPreVote_def putPreCommit_def putPreVotesEvidence_def putPreCommitsEvidence_def
  by (intro keepsM_inspect keepsM_option keepsM_panic modState_idle; simp)+

lemma ends_idle: "keepsM idle (lockBlock L e)" "keepsM idle endVotes"
  by (simp_all add: keepsM_def idle_def lockBlock_states endVotes_states locked_def)

lemma sendEvidence_idle: "keepsM idle (sendEvidence L e v)"
  unfolding sendEvidence_def Let_def
  by (intro keepsM_andThen keepsM_if put_idle keepsM_ret framed_idle [OF framed_sendMsg])

lemma onVote_idle: "keepsM idle (onVote L e msg who)"
  unfolding onVote_def onPreVote_def onPreCommit_def seqM.simps
  by (intro keepsM_inspect keepsM_option keepsM_if keepsM_andThen keepsM_whenM keepsM_logged keepsM_ret keepsM_panic
      put_idle ends_idle doOnce_idle sendEvidence_idle framed_idle [OF framed_restart(3)])

lemma onNewRound_idle: "keepsM idle (onNewRound L msg who)"
  unfolding onNewRound_def
  by (intro keepsM_inspect keepsM_option keepsM_if keepsM_andThen keepsM_ret keepsM_panic modState_idle
      framed_idle [OF framed_restart(1)]) (simp_all add: resetOnces_def clearVotes_def setStep_def)

lemma onProposal_idle: "keepsM idle (onProposal L S V e msg who)"
  unfolding onProposal_def acceptProposal_def seqM.simps
  by (intro keepsM_inspect keepsM_option keepsM_if keepsM_bindM keepsM_andThen keepsM_logged keepsM_ret keepsM_panic
      doOnce_idle modState_idle framed_idle [OF framed_orUndef [OF framed_validate]]
      framed_idle [OF framed_restart(2)] framed_idle [OF framed_sends(1)] framed_idle [OF framed_modify_rest(4)])
     (simp_all add: setStep_def)

lemma onEvidence_idle: "keepsM idle (onEvidence msg who)"
  unfolding onEvidence_def
  by (intro keepsM_inspect keepsM_if keepsM_option put_idle keepsM_ret keepsM_panic)

lemma onBlock_idle: "keepsM idle (onBlock L S e msg who)"
proof -
  have "keepsM idle (modify commit)" by (rule keepsM_modify) (simp add: idle_def commit_def)
  then have "keepsM idle (acceptBlock L S e v)" for v
    unfolding acceptBlock_def
    by (intro keepsM_seqM) (auto intro: keepsM_whenM keepsM_logged framed_idle [OF framed_onStore]
        framed_idle [OF framed_modify_rest(7)])
  then show ?thesis
    unfolding onBlock_def by (intro keepsM_inspect keepsM_if keepsM_option keepsM_ret keepsM_panic)
qed

lemma onMsg_idle: "keepsM idle (onMsg L S V e msg)"
proof -
  have "keepsM idle (modify (\<lambda>c. c\<lparr>c_tasks := g c\<rparr>))" for g :: "'a Consensus \<Rightarrow> task list"
    by (rule framed_idle [OF framed_modify_rest(3)])
  then show ?thesis
    unfolding onMsg_def onConsensusMsg_def
    by (intro keepsM_inspect keepsM_bindM keepsM_lift keepsM_if keepsM_option keepsM_ret keepsM_panic onVote_idle
        onNewRound_idle onProposal_idle onEvidence_idle onBlock_idle)
qed

lemma onTimeout_idle: "keepsM idle (onTimeoutProposal L e)" "keepsM idle (onTimeoutPrevote L e)"
  unfolding onTimeoutProposal_def onTimeoutPrevote_def
  by (intro keepsM_inspect keepsM_if keepsM_ret keepsM_andThen keepsM_logged modState_idle doOnce_idle
      framed_idle [OF framed_sends(1)] framed_idle [OF framed_restart(2)] framed_idle [OF framed_restart(3)];
      simp add: setStep_def)+

lemma onTimeoutPrecommit_idle: "st_f (c_propsalState c) = 0 \<Longrightarrow> idle (fst (onTimeoutPrecommit L S e c))"
  by (simp add: onTimeoutPrecommit_def logged_fst startRound_idle)

lemma onTimeoutBlock_idle: "keepsM idle onTimeoutBlock"
  unfolding onTimeoutBlock_def by (intro keeps_intros)

lemma runTask_idle: "keepsM idle (runTask L S e t)"
proof -
  have "keepsM idle (afterGrace L S e)"
    unfolding afterGrace_def
    by (intro keepsM_inspect keepsM_logged keepsM_bindM onBlock_idle framed_idle [OF framed_sendBlock])
  then show ?thesis unfolding runTask_def by (cases t) (simp_all add: framed_idle [OF framed_onTx])
qed

lemma cstep_idle:
  assumes "cstep L S V c c'" and f: "st_f (c_propsalState c) = 0"
  shows "idle c'"
proof -
  have i: "idle c" using f by (simp add: idle_def)
  note same = idle_def
  from assms(1) show ?thesis
  proof (cases rule: cstep.cases)
    case (msg raw m e u)
    then show ?thesis using keepsM_D [OF onMsg_idle i, of L S V e m] by simp
  next
    case (beacon e b u)
    then show ?thesis using watchProposer_idle [OF f, of L S e b] by simp
  next
    case (timeout_propose e u)
    then show ?thesis using keepsM_D [OF onTimeout_idle(1), of "c\<lparr>c_timerPropose := TimerStopped\<rparr>" L e] i by (simp add: same)
  next
    case (timeout_prevote e u)
    then show ?thesis using keepsM_D [OF onTimeout_idle(2), of "c\<lparr>c_timerPrevote := TimerStopped\<rparr>" L e] i by (simp add: same)
  next
    case (timeout_precommit e u)
    then show ?thesis using onTimeoutPrecommit_idle [of "c\<lparr>c_timerPrecommit := TimerStopped\<rparr>" L S e] f by simp
  next
    case (task t e u)
    then show ?thesis using keepsM_D [OF runTask_idle, of "c\<lparr>c_tasks := remove1 t (c_tasks c)\<rparr>" L S e t] i by (simp add: same)
  next
    case (timeout_block u)
    then show ?thesis using keepsM_D [OF onTimeoutBlock_idle, of "c\<lparr>c_timerBlock := TimerStopped\<rparr>"] i by (simp add: same)
  qed (use i in \<open>simp_all add: same\<close>)
qed

text \<open>The nodes reached by a run in which the node was never the proposer.\<close>

inductive follows :: "'z clib_scheme \<Rightarrow> 's Store \<Rightarrow> 's Validator \<Rightarrow> 's Consensus \<Rightarrow> bool"
  for L :: "'z clib_scheme" and S :: "'s Store" and V :: "'s Validator" where
  booted: "NewConsensus L S e i s now opts = Ok c \<Longrightarrow> Start e' c = (c', Ok u) \<Longrightarrow> follows L S V c'"
| next_step: "follows L S V c \<Longrightarrow> cstep L S V c c' \<Longrightarrow> \<not> AmProposer (c_propsalState c') \<Longrightarrow> follows L S V c'"

lemma follows_reachable: "follows L S V c \<Longrightarrow> reachable L S V c"
  by (induction rule: follows.induct) (auto intro: reachable.intros)

lemma follows_f:
  assumes "follows L S V c"
  shows "\<not> AmProposer (c_propsalState c) \<and> st_f (c_propsalState c) = 0"
  using assms
proof (induction rule: follows.induct)
  case (booted e i s now opts c e' c' u)
  then have "newborn L c'" by (rule started_newborn)
  then show ?case by (simp add: newborn_def zero_State_def)
next
  case (next_step c c')
  then show ?case using cstep_idle [OF next_step.hyps(2)] by (simp add: idle_def)
qed

end
