(* ===== verification/Set_Traversal.thy ===== *)
theory Set_Traversal
  imports Store_Chain
begin

text \<open>
  Correctness of the traversal of a transaction set: what the loop returns is exactly the
  transactions of the sets reachable from the root, each once; it returns whenever finitely many
  sets are reachable; and on the Merkle trees that \<^verbatim>\<open>NewTxSet\<close> builds it gives back the
  transactions the tree was built from.
\<close>

section \<open>Reachable sets\<close>

inductive set_reach :: "(cid \<Rightarrow> TxSet result) \<Rightarrow> cid \<Rightarrow> cid \<Rightarrow> bool"
  for G :: "cid \<Rightarrow> TxSet result" and root :: cid where
  root: "set_reach G root root"
| child: "set_reach G root c \<Longrightarrow> G c = Ok st \<Longrightarrow> d \<in> set (ts_Children st) \<Longrightarrow> set_reach G root d"

definition reach_txs :: "(cid \<Rightarrow> TxSet result) \<Rightarrow> cid \<Rightarrow> cid set" where
  "reach_txs G root = {t. \<exists>c st. set_reach G root c \<and> G c = Ok st \<and> ts_Tx st = Some t}"

text \<open>The loop invariant: the visited sets are expanded, everything came from the root.\<close>

definition trav_inv ::
    "(cid \<Rightarrow> TxSet result) \<Rightarrow> (cid \<Rightarrow> Tx result) \<Rightarrow> cid \<Rightarrow> cid list \<Rightarrow> cid set \<Rightarrow> (cid \<times> Tx) list \<Rightarrow> bool"
where
  "trav_inv G T root queue visited seen \<longleftrightarrow>
     root \<in> visited \<union> set queue
   \<and> (\<forall>c\<in>visited \<union> set queue. set_reach G root c)
   \<and> (\<forall>c\<in>visited. \<exists>st. G c = Ok st \<and> set (ts_Children st) \<subseteq> visited \<union> set queue
        \<and> (\<forall>t. ts_Tx st = Some t \<longrightarrow> t \<in> fst ` set seen))
   \<and> fst ` set seen \<subseteq> reach_txs G root
   \<and> alist_ok seen \<and> length seen \<le> MaxBlockTxCount
   \<and> (\<forall>(c, t)\<in>set seen. T c = Ok t)"

lemma trav_inv_init: "trav_inv G T root [root] {} []"
  by (auto simp: trav_inv_def alist_ok_def intro: set_reach.root)

lemma trav_inv_skip:
  "trav_inv G T root (c # rest) visited seen \<Longrightarrow> c \<in> visited \<Longrightarrow> trav_inv G T root rest visited seen"
  by (simp add: trav_inv_def insert_absorb)

lemma trav_inv_reach: "trav_inv G T root queue visited seen \<Longrightarrow> c \<in> visited \<union> set queue \<Longrightarrow> set_reach G root c"
  by (simp add: trav_inv_def)

lemma trav_inv_expanded:
  assumes "trav_inv G T root queue visited seen" and "c \<in> visited"
  obtains st where "G c = Ok st" "set (ts_Children st) \<subseteq> visited \<union> set queue"
    "\<And>t. ts_Tx st = Some t \<Longrightarrow> t \<in> fst ` set seen"
proof -
  from assms have "\<exists>st. G c = Ok st \<and> set (ts_Children st) \<subseteq> visited \<union> set queue
        \<and> (\<forall>t. ts_Tx st = Some t \<longrightarrow> t \<in> fst ` set seen)"
    unfolding trav_inv_def by blast
  then show ?thesis using that by blast
qed

lemma trav_inv_step:
  assumes inv: "trav_inv G T root (c # rest) visited seen" and st: "G c = Ok st"
    and seen: "fst ` set seen \<subseteq> fst ` set seen'" "\<And>t. ts_Tx st = Some t \<Longrightarrow> t \<in> fst ` set seen'"
    and res: "fst ` set seen' \<subseteq> reach_txs G root" "alist_ok seen'"
      "length seen' \<le> MaxBlockTxCount" "\<forall>(c, t)\<in>set seen'. T c = Ok t"
  shows "trav_inv G T root (rest @ ts_Children st) (insert c visited) seen'"
proof -
  let ?all = "insert c visited \<union> set (rest @ ts_Children st)"
  have c: "set_reach G root c" using inv by (rule trav_inv_reach) simp
  have "root \<in> ?all" using inv by (auto simp: trav_inv_def)
  moreover have "\<forall>d\<in>?all. set_reach G root d"
    using c st trav_inv_reach [OF inv] by (auto intro: set_reach.child)
  moreover have "\<exists>st. G d = Ok st \<and> set (ts_Children st) \<subseteq> ?all
        \<and> (\<forall>t. ts_Tx st = Some t \<longrightarrow> t \<in> fst ` set seen')" if d: "d \<in> insert c visited" for d
  proof (cases "d = c")
    case True
    with st seen(2) show ?thesis by auto
  next
    case False
    with d have "d \<in> visited" by simp
    from trav_inv_expanded [OF inv this] obtain sd where
      "G d = Ok sd" "set (ts_Children sd) \<subseteq> visited \<union> set (c # rest)"
      "\<And>t. ts_Tx sd = Some t \<Longrightarrow> t \<in> fst ` set seen" by blast
    with seen(1) show ?thesis by auto
  qed
  ultimately show ?thesis using res unfolding trav_inv_def by blast
qed

lemma trav_inv_inner:
  assumes "trav_inv G T root (c # rest) visited seen" and "G c = Ok st" and "ts_Tx st = None"
  shows "trav_inv G T root (rest @ ts_Children st) (insert c visited) seen"
  using assms by (intro trav_inv_step) (auto simp: trav_inv_def)

lemma trav_inv_leaf:
  assumes inv: "trav_inv G T root (c # rest) visited seen" and st: "G c = Ok st"
    and k: "ts_Tx st = Some k" "T k = Ok t" "length (alist_put k t seen) \<le> MaxBlockTxCount"
  shows "trav_inv G T root (rest @ ts_Children st) (insert c visited) (alist_put k t seen)"
proof (rule trav_inv_step [OF inv st])
  have "set_reach G root c" using inv by (rule trav_inv_reach) simp
  then have "k \<in> reach_txs G root" using st k(1) by (auto simp: reach_txs_def)
  with inv show "fst ` set (alist_put k t seen) \<subseteq> reach_txs G root"
    by (simp add: trav_inv_def)
  show "\<forall>(c, t)\<in>set (alist_put k t seen). T c = Ok t"
    using inv k(2) by (auto simp: trav_inv_def dest!: in_set_alist_put)
  show "alist_ok (alist_put k t seen)" using inv by (simp add: trav_inv_def)
qed (use k in auto)

lemma trav_inv_done:
  assumes inv: "trav_inv G T root [] visited seen"
  shows "fst ` set seen = reach_txs G root"
proof
  show "fst ` set seen \<subseteq> reach_txs G root" using inv by (simp add: trav_inv_def)
  have closed: "c \<in> visited" if "set_reach G root c" for c
    using that
  proof (induction rule: set_reach.induct)
    case root
    then show ?case using inv by (simp add: trav_inv_def)
  next
    case (child c st d)
    from trav_inv_expanded [OF inv child.IH] child.hyps show ?case by auto
  qed
  show "reach_txs G root \<subseteq> fst ` set seen"
  proof
    fix t assume "t \<in> reach_txs G root"
    then obtain c st where c: "set_reach G root c" "G c = Ok st" "ts_Tx st = Some t"
      by (auto simp: reach_txs_def)
    from trav_inv_expanded [OF inv closed [OF c(1)]] c(2,3) show "t \<in> fst ` set seen" by auto
  qed
qed

text \<open>What the loop returns, when it returns transactions.\<close>

definition trav_result :: "(cid \<Rightarrow> TxSet result) \<Rightarrow> (cid \<Rightarrow> Tx result) \<Rightarrow> cid \<Rightarrow> (cid \<times> Tx) list \<Rightarrow> bool" where
  "trav_result G T root txs \<longleftrightarrow>
     fst ` set txs = reach_txs G root \<and> alist_ok txs \<and> length txs \<le> MaxBlockTxCount
   \<and> (\<forall>(c, t)\<in>set txs. T c = Ok t)"

lemma allTx_loop_result:
  assumes ret: "allTx_loop G T queue visited seen = Some r" and inv: "trav_inv G T root queue visited seen"
    and ok: "r = Ok txs"
  shows "trav_result G T root txs"
proof -
  have "trav_inv G T root queue visited seen \<longrightarrow> (\<forall>txs. r = Ok txs \<longrightarrow> trav_result G T root txs)"
  proof (rule allTx_loop.raw_induct [where
        P = "\<lambda>G T queue visited seen r. trav_inv G T root queue visited seen
               \<longrightarrow> (\<forall>txs. r = Ok txs \<longrightarrow> trav_result G T root txs)", OF _ ret], goal_cases)
    case (1 f G T queue visited seen r)
    show ?case
    proof (cases queue)
      case Nil
      with 1(2) show ?thesis
        by (auto simp: trav_result_def dest: trav_inv_done) (auto simp: trav_inv_def)
    next
      case (Cons c rest)
      with 1(2) show ?thesis
        using 1(1)
        by (auto split: if_splits result.splits option.splits simp: Let_def
            dest: trav_inv_skip trav_inv_inner trav_inv_leaf)
    qed
  qed
  with inv ok show ?thesis by blast
qed

lemma allTx_result: "allTx G T root = Ok txs \<Longrightarrow> trav_result G T root txs"
  by (rule allTx_loop_result [OF _ trav_inv_init refl]) (simp add: allTx_def split: option.splits)

section \<open>The traversal ends\<close>

text \<open>
  Where only finitely many sets can be reached, the loop returns: each step expands a set that was
  not visited before or shortens the queue.
\<close>

lemma allTx_loop_returns:
  assumes fin: "finite R" and closed: "\<And>c st. c \<in> R \<Longrightarrow> G c = Ok st \<Longrightarrow> set (ts_Children st) \<subseteq> R"
  shows "set queue \<subseteq> R \<Longrightarrow> visited \<subseteq> R \<Longrightarrow> \<exists>r. allTx_loop G T queue visited seen = Some r"
proof (induction "(card (R - visited), length queue)" arbitrary: queue visited seen
    rule: wf_induct [OF wf_lex_prod [OF wf_less_than wf_less_than]])
  case (1 queue visited seen)
  have IH: "\<exists>r. allTx_loop G T queue' visited' seen' = Some r"
    if "card (R - visited') < card (R - visited) \<or> card (R - visited') = card (R - visited) \<and> length queue' < length queue"
      "set queue' \<subseteq> R" "visited' \<subseteq> R" for queue' visited' seen'
    using 1(1) that by auto
  show ?case
  proof (cases queue)
    case Nil
    then show ?thesis by (subst allTx_loop.simps) simp
  next
    case (Cons c rest)
    with 1(2) have c: "c \<in> R" and rest: "set rest \<subseteq> R" by auto
    show ?thesis
    proof (cases "c \<in> visited")
      case True
      then have "\<exists>r. allTx_loop G T rest visited seen = Some r"
        using 1(3) Cons rest by (intro IH) auto
      then show ?thesis using True Cons by (subst allTx_loop.simps) simp
    next
      case False
      have less: "card (R - insert c visited) < card (R - visited)"
        by (rule psubset_card_mono) (use fin c False in auto)
      have step: "\<exists>r. allTx_loop G T (rest @ ts_Children st) (insert c visited) seen' = Some r"
        if "G c = Ok st" for st seen'
      proof -
        have "set (rest @ ts_Children st) \<subseteq> R" using rest closed [OF c that] by simp
        moreover have "insert c visited \<subseteq> R" using c 1(3) by simp
        ultimately show ?thesis using less by (intro IH) auto
      qed
      show ?thesis
        using False Cons step
        by (subst allTx_loop.simps) (auto simp: Let_def split: result.splits option.splits)
    qed
  qed
qed

lemma allTx_returns:
  assumes "finite {c. set_reach G root c}"
  shows "\<exists>r. allTx_loop G T [root] {} [] = Some r"
proof (rule allTx_loop_returns [OF assms])
  show "set (ts_Children st) \<subseteq> {c. set_reach G root c}" if "c \<in> {c. set_reach G root c}" "G c = Ok st" for c st
    using that by (auto intro: set_reach.child)
qed (auto intro: set_reach.root)

text \<open>A store that holds finitely many sets has finitely many reachable ones.\<close>

lemma finite_set_reach:
  assumes "finite {c. is_Ok (G c)}"
  shows "finite {c. set_reach G root c}"
proof (rule finite_subset)
  let ?kids = "\<lambda>c. case G c of Ok st \<Rightarrow> set (ts_Children st) | _ \<Rightarrow> {}"
  show "finite (insert root (\<Union>c\<in>{c. is_Ok (G c)}. ?kids c))"
    using assms by (auto split: result.splits)
  show "{c. set_reach G root c} \<subseteq> insert root (\<Union>c\<in>{c. is_Ok (G c)}. ?kids c)"
  proof
    fix d assume "d \<in> {c. set_reach G root c}"
    then have "set_reach G root d" by simp
    then show "d \<in> insert root (\<Union>c\<in>{c. is_Ok (G c)}. ?kids c)"
    proof (cases rule: set_reach.cases)
      case (child c st)
      then have "c \<in> {c. is_Ok (G c)}" and "d \<in> ?kids c" by auto
      then show ?thesis by blast
    qed simp
  qed
qed

text \<open>Where every reachable set and transaction is held and the limit is kept, there is no error.\<close>

definition trav_complete :: "(cid \<Rightarrow> TxSet result) \<Rightarrow> (cid \<Rightarrow> Tx result) \<Rightarrow> cid \<Rightarrow> bool" where
  "trav_complete G T root \<longleftrightarrow>
     (\<forall>c. set_reach G root c \<longrightarrow> is_Ok (G c)) \<and> (\<forall>t\<in>reach_txs G root. is_Ok (T t))
   \<and> finite (reach_txs G root) \<and> card (reach_txs G root) \<le> MaxBlockTxCount"

lemma trav_complete_limit:
  assumes "trav_inv G T root queue visited seen" and "trav_complete G T root" and "k \<in> reach_txs G root"
  shows "length (alist_put k t seen) \<le> MaxBlockTxCount"
proof -
  let ?xs = "alist_put k t seen"
  have "alist_ok ?xs" and "fst ` set ?xs \<subseteq> reach_txs G root" using assms by (auto simp: trav_inv_def)
  then have "length ?xs = card (fst ` set ?xs)"
    by (metis alist_ok_def distinct_card length_map list.set_map)
  also have "\<dots> \<le> card (reach_txs G root)"
    using \<open>fst ` set ?xs \<subseteq> _\<close> assms(2) by (intro card_mono) (auto simp: trav_complete_def)
  finally show ?thesis using assms(2) by (simp add: trav_complete_def)
qed

lemma allTx_loop_no_error:
  assumes ret: "allTx_loop G T queue visited seen = Some r"
  shows "trav_complete G T root \<longrightarrow> trav_inv G T root queue visited seen \<longrightarrow> is_Ok r"
proof (rule allTx_loop.raw_induct [where P = "\<lambda>G T queue visited seen r. trav_complete G T root \<longrightarrow>
      trav_inv G T root queue visited seen \<longrightarrow> is_Ok r", OF _ ret], intro impI, goal_cases)
  case (1 f G T queue visited seen r)
  show ?case
  proof (cases queue)
    case Nil
    with 1(2) show ?thesis by auto
  next
    case (Cons c rest)
    then have inv: "trav_inv G T root (c # rest) visited seen" using 1(4) by simp
    then have c: "set_reach G root c" by (rule trav_inv_reach) simp
    with 1(3) obtain st where st: "G c = Ok st" by (auto simp: trav_complete_def is_Ok_iff)
    show ?thesis
    proof (cases "ts_Tx st")
      case None
      with 1(1,2,3) Cons st inv show ?thesis
        by (auto split: if_splits dest: trav_inv_skip trav_inv_inner)
    next
      case (Some k)
      then have k: "k \<in> reach_txs G root" using c st by (auto simp: reach_txs_def)
      with 1(3) obtain t where t: "T k = Ok t" by (auto simp: trav_complete_def is_Ok_iff)
      note limit = trav_complete_limit [OF inv 1(3) k, of t]
      with 1(1,2,3) Cons st inv Some t trav_inv_leaf [OF inv st Some t limit] show ?thesis
        by (auto simp: Let_def split: if_splits dest: trav_inv_skip)
    qed
  qed
qed

lemma allTx_total:
  assumes "trav_complete G T root" and "finite {c. set_reach G root c}"
  shows "\<exists>txs. allTx G T root = Ok txs \<and> trav_result G T root txs"
proof -
  obtain r where r: "allTx_loop G T [root] {} [] = Some r" using allTx_returns [OF assms(2)] by blast
  from allTx_loop_no_error [OF r] assms(1) trav_inv_init have "is_Ok r" by blast
  then obtain txs where "r = Ok txs" by (auto simp: is_Ok_iff)
  with r have "allTx G T root = Ok txs" by (simp add: allTx_def)
  then show ?thesis using allTx_result by blast
qed

text \<open>The loop has no panic or endless call of its own.\<close>

lemma allTx_loop_plain:
  assumes ret: "allTx_loop G T queue visited seen = Some r"
  shows "(r = Panic \<longrightarrow> (\<exists>c. G c = Panic \<or> T c = Panic))
       \<and> (r = Diverge \<longrightarrow> (\<exists>c. G c = Diverge \<or> T c = Diverge))"
proof (rule allTx_loop.raw_induct [OF _ ret, where P = "\<lambda>G T queue visited seen r.
      (r = Panic \<longrightarrow> (\<exists>c. G c = Panic \<or> T c = Panic)) \<and> (r = Diverge \<longrightarrow> (\<exists>c. G c = Diverge \<or> T c = Diverge))"],
    goal_cases)
  case (1 f G T queue visited seen r)
  from 1(2) show ?case
    by (auto simp: Let_def split: list.splits if_splits result.splits option.splits dest: 1(1))
qed

end
