(* ===== verification/TxSet_Tree.thy ===== *)
theory TxSet_Tree
  imports Set_Traversal
begin

text \<open>
  The shape of what \<^verbatim>\<open>NewTxSet\<close> (\<^verbatim>\<open>pkg/storage/chain.go\<close>) stores: a perfect binary tree whose first
  leaves are the sorted transactions. The laws the builder needs of a store are the locale
  \<open>SetStore\<close>; the tree is shown to be one that the traversal of \<^verbatim>\<open>AllTx\<close> reads back completely.
\<close>

section \<open>Perfect trees of sets\<close>

text \<open>\<open>ptree G h c ts\<close>: below the set \<open>c\<close> there is a perfect tree of height \<open>h\<close> with the leaves \<open>ts\<close>.\<close>

inductive ptree :: "(cid \<Rightarrow> TxSet result) \<Rightarrow> nat \<Rightarrow> cid \<Rightarrow> cid list \<Rightarrow> bool" for G :: "cid \<Rightarrow> TxSet result" where
  leaf: "G c = Ok st \<Longrightarrow> ts_Tx st = Some t \<Longrightarrow> ts_Children st = [] \<Longrightarrow> ptree G 0 c [t]"
| node: "G c = Ok st \<Longrightarrow> ts_Tx st = None \<Longrightarrow> ts_Children st = [a, b] \<Longrightarrow>
         ptree G h a ts \<Longrightarrow> ptree G h b us \<Longrightarrow> ptree G (Suc h) c (ts @ us)"

lemma ptree_mono:
  assumes "ptree G h c ts" and "\<And>c st. G c = Ok st \<Longrightarrow> G' c = Ok st"
  shows "ptree G' h c ts"
  using assms by induction (auto intro: ptree.intros)

lemma ptree_length: "ptree G h c ts \<Longrightarrow> length ts = 2 ^ h"
  by (induction rule: ptree.induct) auto

lemma ptree_held: "ptree G h c ts \<Longrightarrow> \<exists>st. G c = Ok st"
  by (cases rule: ptree.cases) auto

text \<open>Everything reachable from a tree's root is the root of one of its subtrees.\<close>

lemma ptree_reach:
  assumes reach: "set_reach G root d" and tree: "ptree G h root ts"
  shows "\<exists>k us. ptree G k d us \<and> set us \<subseteq> set ts"
  using reach
proof (induction rule: set_reach.induct)
  case root
  then show ?case using tree by blast
next
  case (child c st d)
  then obtain k us where k: "ptree G k c us" "set us \<subseteq> set ts" by blast
  from k(1) child.hyps show ?case
  proof (cases rule: ptree.cases)
    case (node st' a b h' as bs)
    with child.hyps have "d = a \<or> d = b" by auto
    with node k(2) show ?thesis by fastforce
  qed auto
qed

lemma set_reach_trans: "set_reach G b c \<Longrightarrow> set_reach G a b \<Longrightarrow> set_reach G a c"
  by (induction rule: set_reach.induct) (auto intro: set_reach.intros)

lemma ptree_leaves_reach: "ptree G h c ts \<Longrightarrow> set ts \<subseteq> reach_txs G c"
proof (induction rule: ptree.induct)
  case (leaf c st t)
  then show ?case by (auto simp: reach_txs_def intro: set_reach.root)
next
  case (node c st a b h ts us)
  have "set_reach G c a" "set_reach G c b"
    using node.hyps by (auto intro: set_reach.child [OF set_reach.root])
  then have "reach_txs G a \<subseteq> reach_txs G c" "reach_txs G b \<subseteq> reach_txs G c"
    unfolding reach_txs_def by (auto intro: set_reach_trans)
  with node.IH show ?case by auto
qed

lemma ptree_reach_txs: "ptree G h root ts \<Longrightarrow> reach_txs G root = set ts"
proof
  assume tree: "ptree G h root ts"
  then show "set ts \<subseteq> reach_txs G root" by (rule ptree_leaves_reach)
  show "reach_txs G root \<subseteq> set ts"
  proof
    fix t assume "t \<in> reach_txs G root"
    then obtain c st where c: "set_reach G root c" "G c = Ok st" "ts_Tx st = Some t"
      by (auto simp: reach_txs_def)
    from ptree_reach [OF c(1) tree] obtain k us where k: "ptree G k c us" "set us \<subseteq> set ts" by blast
    from k(1) c(2,3) k(2) show "t \<in> set ts" by (cases rule: ptree.cases) auto
  qed
qed

text \<open>The traversal reads a tree back, transaction by transaction.\<close>

lemma allTx_ptree:
  assumes tree: "ptree G h root ts" and txs: "\<And>t. t \<in> set ts \<Longrightarrow> is_Ok (T t)"
    and limit: "card (set ts) \<le> MaxBlockTxCount" and fin: "finite {c. set_reach G root c}"
  shows "\<exists>xs. allTx G T root = Ok xs \<and> fst ` set xs = set ts \<and> alist_ok xs \<and> (\<forall>(c, t)\<in>set xs. T c = Ok t)"
proof -
  have "is_Ok (G c)" if "set_reach G root c" for c
    using ptree_reach [OF that tree] ptree_held by (fastforce simp: is_Ok_iff)
  then have "trav_complete G T root"
    using txs limit by (auto simp: trav_complete_def ptree_reach_txs [OF tree])
  from allTx_total [OF this fin] show ?thesis
    by (auto simp: trav_result_def ptree_reach_txs [OF tree])
qed

section \<open>Building a tree\<close>

text \<open>
  What the builder relies on: storing a set succeeds, the set is then found under the returned
  identifier (its private identifier field is not stored), and nothing that was found before is
  lost.
\<close>

locale SetStore =
  fixes L :: "'z lib_scheme" and S :: "'s Store" and good :: "'s \<Rightarrow> bool"
  assumes put_set: "good s \<Longrightarrow> \<exists>s' c. PutSet S s st = (s', Ok c) \<and> good s'
      \<and> GetSet S s' c = Ok (st\<lparr>ts_cid := cid_Undef L\<rparr>)
      \<and> (\<forall>d x. GetSet S s d = Ok x \<longrightarrow> GetSet S s' d = Ok x)
      \<and> (\<forall>d x. GetTx S s d = Ok x \<longrightarrow> GetTx S s' d = Ok x)"
begin

definition keeps :: "'s \<Rightarrow> 's \<Rightarrow> bool" where
  "keeps s s' \<longleftrightarrow> (\<forall>d x. GetSet S s d = Ok x \<longrightarrow> GetSet S s' d = Ok x)
                \<and> (\<forall>d x. GetTx S s d = Ok x \<longrightarrow> GetTx S s' d = Ok x)"

lemma keeps_refl: "keeps s s"
  by (simp add: keeps_def)

lemma keeps_trans: "keeps s s' \<Longrightarrow> keeps s' s'' \<Longrightarrow> keeps s s''"
  by (simp add: keeps_def)

lemma keeps_ptree: "keeps s s' \<Longrightarrow> ptree (GetSet S s) h c ts \<Longrightarrow> ptree (GetSet S s') h c ts"
  by (erule ptree_mono) (simp add: keeps_def)

text \<open>A level of the tree: the nodes with their leaves.\<close>

definition level :: "'s \<Rightarrow> nat \<Rightarrow> TxSet list \<Rightarrow> cid list list \<Rightarrow> bool" where
  "level s h nodes tss \<longleftrightarrow> list_all2 (\<lambda>n ts. ptree (GetSet S s) h (ts_cid n) ts) nodes tss"

lemma level_keeps: "keeps s s' \<Longrightarrow> level s h nodes tss \<Longrightarrow> level s' h nodes tss"
  unfolding level_def by (erule list_all2_mono) (rule keeps_ptree)

lemma put_set_keeps:
  assumes "good s"
  obtains s' c where "PutSet S s st = (s', Ok c)" "good s'" "keeps s s'"
    "GetSet S s' c = Ok (st\<lparr>ts_cid := cid_Undef L\<rparr>)"
  using put_set [OF assms, of st] by (auto simp: keeps_def)

lemma put_leaves_level:
  "good s \<Longrightarrow> \<exists>s' nodes. put_leaves L S s ts = (s', Ok nodes) \<and> good s' \<and> keeps s s'
     \<and> level s' 0 nodes (map (\<lambda>t. [t]) ts)"
proof (induction ts arbitrary: s)
  case Nil
  then show ?case by (auto simp: keeps_refl level_def)
next
  case (Cons t ts)
  let ?leaf = "\<lparr>ts_Children = [], ts_Tx = Some t, ts_cid = cid_Undef L\<rparr>"
  obtain s1 c where 1: "PutSet S s ?leaf = (s1, Ok c)" "good s1" "keeps s s1"
      "GetSet S s1 c = Ok (?leaf\<lparr>ts_cid := cid_Undef L\<rparr>)" using put_set_keeps [OF Cons.prems] .
  from Cons.IH [OF 1(2)] obtain s2 nodes where 2: "put_leaves L S s1 ts = (s2, Ok nodes)" "good s2"
      "keeps s1 s2" "level s2 0 nodes (map (\<lambda>t. [t]) ts)" by blast
  have "ptree (GetSet S s1) 0 c [t]" using 1(4) by (auto intro: ptree.leaf)
  then have "ptree (GetSet S s2) 0 c [t]" using 2(3) by (rule keeps_ptree [rotated])
  then show ?case using 1 2 by (auto simp: level_def Let_def intro: keeps_trans)
qed

lemma put_parents_level:
  "good s \<Longrightarrow> level s h nodes tss \<Longrightarrow> even (length nodes) \<Longrightarrow>
   \<exists>s' ps uss. put_parents L S s nodes = (s', Ok ps) \<and> good s' \<and> keeps s s'
     \<and> level s' (Suc h) ps uss \<and> concat uss = concat tss"
proof (induction nodes arbitrary: s tss rule: induct_list012)
  case 1
  then show ?case by (auto simp: keeps_refl level_def)
next
  case (2 x)
  then show ?case by simp
next
  case (3 a b rest)
  let ?n = "\<lparr>ts_Children = [ts_cid a, ts_cid b], ts_Tx = None, ts_cid = cid_Undef L\<rparr>"
  from "3.prems"(2) obtain ta tb tss' where tss: "tss = ta # tb # tss'"
    and ta: "ptree (GetSet S s) h (ts_cid a) ta" and tb: "ptree (GetSet S s) h (ts_cid b) tb"
    and rest: "level s h rest tss'" by (auto simp: level_def list_all2_Cons1)
  obtain s1 c where 1: "PutSet S s ?n = (s1, Ok c)" "good s1" "keeps s s1"
      "GetSet S s1 c = Ok (?n\<lparr>ts_cid := cid_Undef L\<rparr>)" using put_set_keeps [OF "3.prems"(1)] .
  from "3.IH"(1) [OF 1(2) level_keeps [OF 1(3) rest]] "3.prems"(3)
  obtain s2 ps uss where 2: "put_parents L S s1 rest = (s2, Ok ps)" "good s2" "keeps s1 s2"
      "level s2 (Suc h) ps uss" "concat uss = concat tss'" by auto
  have "ptree (GetSet S s1) (Suc h) c (ta @ tb)"
    using 1(4) ptree.node [where G = "GetSet S s1", OF _ _ _ keeps_ptree [OF 1(3) ta] keeps_ptree [OF 1(3) tb]]
    by auto
  then have "ptree (GetSet S s2) (Suc h) c (ta @ tb)" by (rule keeps_ptree [OF 2(3)])
  then have "level s2 (Suc h) (?n\<lparr>ts_cid := c\<rparr> # ps) ((ta @ tb) # uss)"
    using 2(4) by (simp add: level_def)
  moreover have "concat ((ta @ tb) # uss) = concat tss" using 2(5) tss by simp
  moreover have "put_parents L S s (a # b # rest) = (s2, Ok (?n\<lparr>ts_cid := c\<rparr> # ps))"
    using 1(1) 2(1) by (simp add: Let_def)
  ultimately show ?case using 2(2) keeps_trans [OF 1(3) 2(3)] by blast
qed

lemma level_pad_even:
  assumes "level s h nodes tss" and "nodes \<noteq> []"
  shows "level s h (pad_even nodes) (pad_even tss)"
proof -
  have "length nodes = length tss" and "tss \<noteq> []"
    using assms by (auto simp: level_def dest: list_all2_lengthD)
  moreover from this assms have "ptree (GetSet S s) h (ts_cid (last nodes)) (last tss)"
    using list_all2_nthD [of "\<lambda>n ts. ptree (GetSet S s) h (ts_cid n) ts" nodes tss "length tss - 1"]
    by (simp add: level_def last_conv_nth)
  ultimately show ?thesis using assms by (auto simp: level_def pad_even_def intro!: list_all2_appendI)
qed

text \<open>
  A level at height \<open>h\<close> of a tree over \<open>txs\<close>: its leaves are \<open>txs\<close> and then repetitions, and there
  are no more nodes than it takes.
\<close>

definition covers :: "cid list \<Rightarrow> nat \<Rightarrow> TxSet list \<Rightarrow> cid list list \<Rightarrow> bool" where
  "covers txs h nodes tss \<longleftrightarrow>
     (\<exists>z. concat tss = txs @ z \<and> set z \<subseteq> set txs) \<and> nodes \<noteq> []
   \<and> (length nodes - 1) * 2 ^ h < length txs \<and> (h = 0 \<or> 2 ^ (h - 1) < length txs)"

lemma concat_pad_even:
  assumes "tss \<noteq> []"
  shows "\<exists>z. concat (pad_even tss) = concat tss @ z \<and> set z \<subseteq> set (concat tss)"
  using assms by (auto simp: pad_even_def intro!: exI [of _ "last tss"] bexI [of _ "last tss"])

lemma covers_parents:
  assumes cov: "covers txs h nodes tss" and tss: "length nodes = length tss" and more: "length nodes > 1"
    and ps: "length ps = (length nodes + 1) div 2" and uss: "concat uss = concat (pad_even tss)"
  shows "covers txs (Suc h) ps uss"
proof -
  from cov obtain z where z: "concat tss = txs @ z" "set z \<subseteq> set txs" by (auto simp: covers_def)
  have "tss \<noteq> []" using tss more by auto
  from concat_pad_even [OF this] obtain z' where "concat uss = txs @ (z @ z')" "set (z @ z') \<subseteq> set txs"
    using z uss by auto
  moreover have "(length ps - 1) * 2 ^ Suc h < length txs"
  proof -
    have "(length ps - 1) * 2 \<le> length nodes - 1" using ps by simp
    then have "(length ps - 1) * 2 * 2 ^ h \<le> (length nodes - 1) * 2 ^ h" by (rule mult_le_mono1)
    also have "\<dots> < length txs" using cov by (simp add: covers_def)
    finally show ?thesis by (simp only: power_Suc mult.assoc)
  qed
  moreover have "2 ^ h < length txs"
  proof -
    have "1 * 2 ^ h \<le> (length nodes - 1) * 2 ^ h" by (rule mult_le_mono1) (use more in simp)
    also have "\<dots> < length txs" using cov by (simp add: covers_def)
    finally show ?thesis by simp
  qed
  moreover have "ps \<noteq> []" using ps more by auto
  ultimately show ?thesis unfolding covers_def by auto
qed

lemma reduce_levels_tree:
  "good s \<Longrightarrow> level s h nodes tss \<Longrightarrow> covers txs h nodes tss \<Longrightarrow>
   \<exists>s' root k z. reduce_levels L S s nodes = (s', Ok [root]) \<and> good s' \<and> keeps s s'
     \<and> ptree (GetSet S s') k (ts_cid root) (txs @ z) \<and> set z \<subseteq> set txs \<and> (k = 0 \<or> 2 ^ (k - 1) < length txs)"
proof (induction "length nodes" arbitrary: s h nodes tss rule: less_induct)
  case less
  show ?case
  proof (cases "length nodes > 1")
    case False
    with less.prems(3) obtain n where n: "nodes = [n]" by (cases nodes) (auto simp: covers_def)
    with less.prems obtain ts where "tss = [ts]" "ptree (GetSet S s) h (ts_cid n) ts"
      by (auto simp: level_def list_all2_Cons1)
    with less.prems n show ?thesis
      by (subst reduce_levels.simps) (auto simp: covers_def intro!: keeps_refl)
  next
    case True
    obtain s1 ps uss where 1: "put_parents L S s (pad_even nodes) = (s1, Ok ps)" "good s1" "keeps s s1"
        "level s1 (Suc h) ps uss" "concat uss = concat (pad_even tss)"
      using put_parents_level [OF less.prems(1) level_pad_even [OF less.prems(2)]] True by fastforce
    have len: "length ps = (length nodes + 1) div 2" using put_parents_length [OF 1(1)] by simp
    have "covers txs (Suc h) ps uss"
      using covers_parents [OF less.prems(3) list_all2_lengthD [OF less.prems(2) [unfolded level_def]] True len 1(5)] .
    with less.hyps [OF _ 1(2,4)] len True obtain s2 root k z where
      "reduce_levels L S s1 ps = (s2, Ok [root])" "good s2" "keeps s1 s2"
      "ptree (GetSet S s2) k (ts_cid root) (txs @ z)" "set z \<subseteq> set txs" "k = 0 \<or> 2 ^ (k - 1) < length txs"
      by fastforce
    with True 1 show ?thesis
      by (subst reduce_levels.simps) (auto intro: keeps_trans)
  qed
qed

lemma covers_leaves:
  assumes "list_all2 P nodes (map (\<lambda>t. [t]) ts)" and "ts \<noteq> []"
  shows "covers ts 0 nodes (map (\<lambda>t. [t]) ts)"
proof -
  have "length nodes = length ts" using list_all2_lengthD [OF assms(1)] by simp
  with assms(2) show ?thesis by (auto simp: covers_def)
qed

text \<open>What \<^verbatim>\<open>NewTxSet\<close> builds.\<close>

theorem NewTxSet_tree:
  assumes good: "good s" and txs: "txs \<noteq> []" "length txs \<le> MaxBlockTxCount"
  shows "\<exists>s' root h z. NewTxSet L S s txs = (s', Ok root) \<and> good s' \<and> keeps s s'
           \<and> ptree (GetSet S s') h (ts_cid root) (sort_cids L txs @ z) \<and> set z \<subseteq> set txs
           \<and> (h = 0 \<or> 2 ^ (h - 1) < length txs)"
proof -
  let ?ts = "sort_cids L txs"
  have ts: "length ?ts = length txs" "set ?ts = set txs" "?ts \<noteq> []"
    using txs by (simp_all add: sort_cids_def set_empty [symmetric] del: set_empty)
  from put_leaves_level [OF good] obtain s1 nodes where
    1: "put_leaves L S s ?ts = (s1, Ok nodes)" "good s1" "keeps s s1" "level s1 0 nodes (map (\<lambda>t. [t]) ?ts)" by blast
  from reduce_levels_tree [OF 1(2,4) covers_leaves [OF 1(4) [unfolded level_def] ts(3)]]
  obtain s2 root k z where 2: "reduce_levels L S s1 nodes = (s2, Ok [root])" "good s2" "keeps s1 s2"
    "ptree (GetSet S s2) k (ts_cid root) (?ts @ z)" "set z \<subseteq> set ?ts" "k = 0 \<or> 2 ^ (k - 1) < length ?ts" by blast
  have "NewTxSet L S s txs = (s2, Ok root)"
    using 1(1) 2(1) txs ts(1) by (simp add: NewTxSet_def Let_def)
  moreover have "keeps s s2" using 1(3) 2(3) by (rule keeps_trans)
  ultimately show ?thesis using 2 unfolding ts(1,2) by blast
qed

text \<open>The set built for transactions the store holds is read back by the traversal.\<close>

theorem NewTxSet_AllTx:
  assumes good: "good s" and txs: "txs \<noteq> []" "length txs \<le> MaxBlockTxCount"
    and held: "\<And>t. t \<in> set txs \<Longrightarrow> is_Ok (GetTx S s t)"
    and fin: "\<And>s. good s \<Longrightarrow> finite {c. is_Ok (GetSet S s c)}"
  shows "\<exists>s' root xs. NewTxSet L S s txs = (s', Ok root) \<and> good s' \<and> keeps s s'
           \<and> allTx (GetSet S s') (GetTx S s') (ts_cid root) = Ok xs
           \<and> fst ` set xs = set txs \<and> alist_ok xs \<and> (\<forall>(c, t)\<in>set xs. GetTx S s c = Ok t)"
proof -
  from NewTxSet_tree [OF good txs] obtain s' root h z where
    n: "NewTxSet L S s txs = (s', Ok root)" "good s'" "keeps s s'"
       "ptree (GetSet S s') h (ts_cid root) (sort_cids L txs @ z)" "set z \<subseteq> set txs" by blast
  have leaves: "set (sort_cids L txs @ z) = set txs" using n(5) by (auto simp: sort_cids_def)
  have kept: "GetTx S s' t = GetTx S s t" if "t \<in> set txs" for t
    using held [OF that] n(3) by (auto simp: keeps_def is_Ok_iff)
  have "card (set (sort_cids L txs @ z)) \<le> MaxBlockTxCount"
    using card_length [of txs] txs(2) leaves by simp
  moreover have "is_Ok (GetTx S s' t)" if "t \<in> set (sort_cids L txs @ z)" for t
    using that held kept unfolding leaves by simp
  ultimately
  obtain xs where "allTx (GetSet S s') (GetTx S s') (ts_cid root) = Ok xs" "fst ` set xs = set txs"
    "alist_ok xs" "\<forall>(c, t)\<in>set xs. GetTx S s' c = Ok t"
    using allTx_ptree [OF n(4) _ _ finite_set_reach [OF fin [OF n(2)]], of "GetTx S s'"] leaves by auto
  moreover from this have "\<forall>(c, t)\<in>set xs. GetTx S s c = Ok t" using kept by fastforce
  ultimately show ?thesis using n by blast
qed

end

end
