(* ===== verification/MemStore_Model.thy ===== *)
theory MemStore_Model
  imports TxSet_Tree "HOL-Library.Char_ord"
begin

text \<open>
  \<^verbatim>\<open>pkg/storage/memstore.go\<close>: the in-memory store, every method of it, as operations on the record
  of its maps; the method table \<open>memstore\<close> that implements the \<^verbatim>\<open>Store\<close> interface; its content
  addressing invariant and the round trips that rest on it.
\<close>

section \<open>State\<close>

text \<open>
  A nil byte slice in \<^verbatim>\<open>objects\<close> reads as a missing entry everywhere, so the map has no entry for
  it. The node index keeps an order for its range.
\<close>

record MemStore =
  ms_objects :: "cid \<Rightarrow> bytes option"
  ms_txbIndex :: "cid \<Rightarrow> cid option"
  ms_bState :: "cid \<Rightarrow> int option"
  ms_nodes :: "(string \<times> cid) list"
  ms_dids :: "string \<Rightarrow> cid option"
  ms_claims :: "string \<Rightarrow> cid list option"
  ms_lastBlock :: cid
  ms_genesisApplied :: bool

definition NewMemStore :: "'z lib_scheme \<Rightarrow> MemStore" where
  "NewMemStore L =
     \<lparr>ms_objects = \<lambda>_. None, ms_txbIndex = \<lambda>_. None, ms_bState = \<lambda>_. None, ms_nodes = [],
      ms_dids = \<lambda>_. None, ms_claims = \<lambda>_. None, ms_lastBlock = cid_Undef L, ms_genesisApplied = False\<rparr>"

definition MemStore_StartTest :: "'z lib_scheme \<Rightarrow> MemStore \<Rightarrow> MemStore result" where
  "MemStore_StartTest L m =
     Ok ((NewMemStore L)\<lparr>ms_objects := ms_objects m, ms_txbIndex := ms_txbIndex m,
           ms_bState := ms_bState m, ms_nodes := ms_nodes m, ms_dids := ms_dids m,
           ms_claims := ms_claims m\<rparr>)"

definition MemStore_CompleteTest :: "MemStore \<Rightarrow> MemStore \<times> unit result" where
  "MemStore_CompleteTest m = (m, Ok ())"

section \<open>Objects\<close>

definition content_id :: "'z lib_scheme \<Rightarrow> bytes \<Rightarrow> cid" where
  "content_id L d = cid_NewCidV1_Raw L (mh_Sum_SHA3_256 L d)"

text \<open>
  \<^verbatim>\<open>putObj\<close> on the encoding of an object; an encoding error is ignored, which stores nil under the
  identifier of no bytes.
\<close>

definition putObj :: "'z lib_scheme \<Rightarrow> MemStore \<Rightarrow> bytes option \<Rightarrow> MemStore \<times> cid" where
  "putObj L m enc =
     (let d = (case enc of Some b \<Rightarrow> b | None \<Rightarrow> []);
          c = content_id L d
      in (m\<lparr>ms_objects := (ms_objects m)(c := enc)\<rparr>, c))"

definition getObj :: "MemStore \<Rightarrow> cid \<Rightarrow> bytes option" where
  "getObj m c = ms_objects m c"

definition MemStore_PutTx :: "'z lib_scheme \<Rightarrow> MemStore \<Rightarrow> Tx \<Rightarrow> MemStore \<times> cid result" where
  "MemStore_PutTx L m t = (case putObj L m (mp_enc_tx L t) of (m', c) \<Rightarrow> (m', Ok c))"

definition MemStore_GetTx :: "'z lib_scheme \<Rightarrow> MemStore \<Rightarrow> cid \<Rightarrow> Tx result" where
  "MemStore_GetTx L m c =
     (case getObj m c of
        None \<Rightarrow> Err ErrNotFound
      | Some d \<Rightarrow> wrap ''unmarshalling '' (Tx_Unmarshal L d))"

definition MemStore_PutBlock :: "'z lib_scheme \<Rightarrow> MemStore \<Rightarrow> Block \<Rightarrow> MemStore \<times> cid result" where
  "MemStore_PutBlock L m b = (case putObj L m (mp_enc_block L b) of (m', c) \<Rightarrow> (m', Ok c))"

definition MemStore_GetBlock :: "'z lib_scheme \<Rightarrow> MemStore \<Rightarrow> cid \<Rightarrow> Block result" where
  "MemStore_GetBlock L m c =
     (case getObj m c of
        None \<Rightarrow> Err ErrNotFound
      | Some d \<Rightarrow> (case mp_dec_block L d of
                     None \<Rightarrow> Err (ErrWrap ''unmarshalling '' (ErrNew ''msgpack''))
                   | Some b \<Rightarrow> Ok b))"

definition MemStore_PutSet :: "'z lib_scheme \<Rightarrow> MemStore \<Rightarrow> TxSet \<Rightarrow> MemStore \<times> cid result" where
  "MemStore_PutSet L m st =
     (case putObj L m (mp_enc_set L (ts_Children st) (ts_Tx st)) of (m', c) \<Rightarrow> (m', Ok c))"

definition MemStore_GetSet :: "'z lib_scheme \<Rightarrow> MemStore \<Rightarrow> cid \<Rightarrow> TxSet result" where
  "MemStore_GetSet L m c =
     (case getObj m c of
        None \<Rightarrow> Err ErrNotFound
      | Some d \<Rightarrow> (case mp_dec_set L d of
                     None \<Rightarrow> Err (ErrWrap ''unmarshalling '' (ErrNew ''msgpack''))
                   | Some (cs, t) \<Rightarrow> Ok \<lparr>ts_Children = cs, ts_Tx = t, ts_cid = cid_Undef L\<rparr>))"

section \<open>Indices\<close>

definition MemStore_UpdateLastApplied :: "MemStore \<Rightarrow> cid \<Rightarrow> MemStore \<times> unit result" where
  "MemStore_UpdateLastApplied m c = (m\<lparr>ms_lastBlock := c\<rparr>, Ok ())"

definition MemStore_GetLastApplied :: "'z lib_scheme \<Rightarrow> MemStore \<Rightarrow> Block option result" where
  "MemStore_GetLastApplied L m =
     (if ms_lastBlock m = cid_Undef L then Ok None
      else bindr (MemStore_GetBlock L m (ms_lastBlock m)) (\<lambda>b. Ok (Some b)))"

definition MemStore_GetTxBlock :: "'z lib_scheme \<Rightarrow> MemStore \<Rightarrow> cid \<Rightarrow> Block result" where
  "MemStore_GetTxBlock L m c =
     (case ms_txbIndex m c of None \<Rightarrow> Err ErrNotFound | Some b \<Rightarrow> MemStore_GetBlock L m b)"

definition allTxCids :: "'z lib_scheme \<Rightarrow> MemStore \<Rightarrow> Block \<Rightarrow> (cid \<times> Tx) list result" where
  "allTxCids L m b = allTx (MemStore_GetSet L m) (MemStore_GetTx L m) (b_TxRoot b)"

definition MemStore_AllTx :: "'z lib_scheme \<Rightarrow> MemStore \<Rightarrow> Block \<Rightarrow> (cid \<times> Tx) list result" where
  "MemStore_AllTx L m b = allTxCids L m b"

definition MemStore_ApplyTx :: "'z lib_scheme \<Rightarrow> MemStore \<Rightarrow> cid \<Rightarrow> Tx \<Rightarrow> MemStore \<times> unit result" where
  "MemStore_ApplyTx L m c t =
     (case cid_ParseCid L c of
        None \<Rightarrow> (m, Err (ErrWrap ''parsing tx id'' (ErrNew ''cid'')))
      | Some k \<Rightarrow>
          if tx_Type t = TxType_DID then
            (case tx_Data t of
               DataDID d \<Rightarrow>
                 (case did_Document d of
                    Some doc \<Rightarrow> (m\<lparr>ms_dids := (ms_dids m)(doc_ID doc \<mapsto> k)\<rparr>, Ok ())
                  | None \<Rightarrow> (m, Panic))
             | _ \<Rightarrow> (m, Panic))
          else if tx_Type t = TxType_VC then (m, Ok ())
          else if tx_Type t = TxType_Node then
            (case tx_Data t of
               DataNode n \<Rightarrow>
                 if tx_Action t = TxActionAdd
                 then (m\<lparr>ms_nodes := alist_put (node_Id n) k (ms_nodes m)\<rparr>, Ok ())
                 else if tx_Action t = TxActionRevoke
                 then (m\<lparr>ms_nodes := filter (\<lambda>(i, _). i \<noteq> node_Id n) (ms_nodes m)\<rparr>, Ok ())
                 else (m, Ok ())
             | _ \<Rightarrow> (m, Panic))
          else (m, Ok ()))"

fun applyTxs :: "'z lib_scheme \<Rightarrow> MemStore \<Rightarrow> cid \<Rightarrow> (cid \<times> Tx) list \<Rightarrow> MemStore \<times> unit result" where
  "applyTxs L m b [] = (m, Ok ())"
| "applyTxs L m b ((c, t) # txs) =
     (case MemStore_ApplyTx L (m\<lparr>ms_txbIndex := (ms_txbIndex m)(c \<mapsto> b)\<rparr>) c t of
        (m', Ok _) \<Rightarrow> applyTxs L m' b txs
      | (m', r) \<Rightarrow> (m', wrap ''applying tx'' r))"

definition indexBlockTx :: "'z lib_scheme \<Rightarrow> range_order \<Rightarrow> MemStore \<Rightarrow> cid \<Rightarrow> MemStore \<times> unit result" where
  "indexBlockTx L ord m b =
     (case MemStore_GetBlock L m b of
        Ok block \<Rightarrow>
          (case wrap ''getting block tx'' (allTxCids L m block) of
             Ok txs \<Rightarrow> applyTxs L m b (ord txs)
           | r \<Rightarrow> (m, fail_as r ()))
      | r \<Rightarrow> (m, fail_as r ()))"

definition MemStore_MarkBlock ::
    "'z lib_scheme \<Rightarrow> range_order \<Rightarrow> MemStore \<Rightarrow> cid \<Rightarrow> int \<Rightarrow> MemStore \<times> unit result" where
  "MemStore_MarkBlock L ord m b st =
     (let c = (case ms_bState m b of Some x \<Rightarrow> x | None \<Rightarrow> 0);
          m' = m\<lparr>ms_bState := (ms_bState m)(b \<mapsto> st)\<rparr>
      in if c = BlockStateValidated \<and> st = BlockStateAccepted then indexBlockTx L ord m' b
         else (m', Ok ()))"

section \<open>Queries\<close>

definition MemStore_LookupDID :: "'z lib_scheme \<Rightarrow> MemStore \<Rightarrow> string \<Rightarrow> Document option result" where
  "MemStore_LookupDID L m i =
     (case ms_dids m i of
        None \<Rightarrow> Err ErrNotFound
      | Some c \<Rightarrow>
          (case getObj m c of
             None \<Rightarrow> Err ErrNotFound
           | Some d \<Rightarrow> (case mp_dec_doc L d of
                          None \<Rightarrow> Err (ErrWrap ''unmarshalling '' (ErrNew ''msgpack''))
                        | Some doc \<Rightarrow> Ok (Some doc))))"

definition MemStore_DIDHistory :: "MemStore \<Rightarrow> string \<Rightarrow> Tx list result" where
  "MemStore_DIDHistory m i = Err (ErrNew ''not implemented'')"

text \<open>The decoded transactions of a claim are never added to the result.\<close>

fun claims_loop :: "'z lib_scheme \<Rightarrow> MemStore \<Rightarrow> cid list \<Rightarrow> Tx list result" where
  "claims_loop L m [] = Ok []"
| "claims_loop L m (c # cs) =
     (case getObj m c of
        None \<Rightarrow> Err ErrNotFound
      | Some d \<Rightarrow> (case mp_dec_tx L KindRaw d of
                     None \<Rightarrow> Err (ErrWrap ''unmarshalling '' (ErrNew ''msgpack''))
                   | Some _ \<Rightarrow> claims_loop L m cs))"

definition MemStore_Claims :: "'z lib_scheme \<Rightarrow> MemStore \<Rightarrow> string \<Rightarrow> Tx list result" where
  "MemStore_Claims L m i =
     (case ms_claims m i of
        None \<Rightarrow> Err ErrNotFound
      | Some cs \<Rightarrow> if cs = [] then Err ErrNotFound else claims_loop L m cs)"

definition MemStore_Nodes :: "MemStore \<Rightarrow> string list result" where
  "MemStore_Nodes m = Ok (sort (map fst (ms_nodes m)))"

definition MemStore_Node :: "'z lib_scheme \<Rightarrow> MemStore \<Rightarrow> string \<Rightarrow> Node result" where
  "MemStore_Node L m i =
     (case map_of (ms_nodes m) i of
        None \<Rightarrow> Err ErrNotFound
      | Some c \<Rightarrow>
          (case getObj m c of
             None \<Rightarrow> Err ErrNotFound
           | Some d \<Rightarrow>
               (case wrap ''unmarshalling'' (Tx_Unmarshal L d) of
                  Ok t \<Rightarrow> (case tx_Data t of DataNode n \<Rightarrow> Ok n | _ \<Rightarrow> Panic)
                | Err e \<Rightarrow> Err e | Panic \<Rightarrow> Panic | Diverge \<Rightarrow> Diverge)))"

definition MemStore_HasGenesisApplied :: "MemStore \<Rightarrow> bool" where
  "MemStore_HasGenesisApplied m = ms_genesisApplied m"

fun put_genesis_txs ::
    "'z lib_scheme \<Rightarrow> MemStore \<Rightarrow> Tx list \<Rightarrow> (cid \<times> Tx) list \<Rightarrow> MemStore \<times> (cid \<times> Tx) list" where
  "put_genesis_txs L m [] txs = (m, txs)"
| "put_genesis_txs L m (t # ts) txs =
     (case putObj L m (mp_enc_tx L t) of (m', c) \<Rightarrow> put_genesis_txs L m' ts (alist_put c t txs))"

definition MemStore_ApplyGenesis ::
    "'z lib_scheme \<Rightarrow> range_order \<Rightarrow> MemStore \<Rightarrow> GenesisInfo \<Rightarrow> MemStore \<times> unit result" where
  "MemStore_ApplyGenesis L ord m gen =
     (case put_genesis_txs L (m\<lparr>ms_genesisApplied := True\<rparr>) (g_Txs gen) [] of
        (m', txs) \<Rightarrow> applyTxs L m' (cid_Undef L) (ord txs))"

section \<open>The method table\<close>

definition memstore :: "'z lib_scheme \<Rightarrow> MemStore Store" where
  "memstore L =
     \<lparr>PutTx = MemStore_PutTx L, GetTx = MemStore_GetTx L,
      PutBlock = MemStore_PutBlock L, GetBlock = MemStore_GetBlock L,
      AllTx = MemStore_AllTx L, PutSet = MemStore_PutSet L, GetSet = MemStore_GetSet L,
      GetTxBlock = MemStore_GetTxBlock L, MarkBlock = MemStore_MarkBlock L,
      UpdateLastApplied = MemStore_UpdateLastApplied, GetLastApplied = MemStore_GetLastApplied L,
      LookupDID = MemStore_LookupDID L, Nodes = MemStore_Nodes, GetNode = MemStore_Node L,
      HasGenesisApplied = MemStore_HasGenesisApplied, ApplyGenesis = MemStore_ApplyGenesis L,
      ApplyTx = MemStore_ApplyTx L, StartTest = MemStore_StartTest L,
      CompleteTest = MemStore_CompleteTest\<rparr>"

lemma memstore_sel [simp]:
  "PutTx (memstore L) = MemStore_PutTx L" "GetTx (memstore L) = MemStore_GetTx L"
  "PutBlock (memstore L) = MemStore_PutBlock L" "GetBlock (memstore L) = MemStore_GetBlock L"
  "AllTx (memstore L) = MemStore_AllTx L" "PutSet (memstore L) = MemStore_PutSet L"
  "GetSet (memstore L) = MemStore_GetSet L" "GetTxBlock (memstore L) = MemStore_GetTxBlock L"
  "MarkBlock (memstore L) = MemStore_MarkBlock L"
  "UpdateLastApplied (memstore L) = MemStore_UpdateLastApplied"
  "GetLastApplied (memstore L) = MemStore_GetLastApplied L"
  "LookupDID (memstore L) = MemStore_LookupDID L" "Nodes (memstore L) = MemStore_Nodes"
  "GetNode (memstore L) = MemStore_Node L" "HasGenesisApplied (memstore L) = MemStore_HasGenesisApplied"
  "ApplyGenesis (memstore L) = MemStore_ApplyGenesis L" "ApplyTx (memstore L) = MemStore_ApplyTx L"
  "StartTest (memstore L) = MemStore_StartTest L" "CompleteTest (memstore L) = MemStore_CompleteTest"
  by (simp_all add: memstore_def)

end
