(* ===== verification/MemStore_Laws.thy ===== *)
theory MemStore_Laws
  imports MemStore_Model
begin

text \<open>
  The invariant of the in-memory store (objects are found under the identifier of their content,
  finitely many of them, one index entry per node), that every operation keeps it, and that the
  store provides the interface the transaction set builder relies on.
\<close>

section \<open>Invariant\<close>

definition content_addressed :: "'z lib_scheme \<Rightarrow> MemStore \<Rightarrow> bool" where
  "content_addressed L m \<longleftrightarrow> (\<forall>c d. getObj m c = Some d \<longrightarrow> c = content_id L d)"

definition mem_inv :: "'z lib_scheme \<Rightarrow> MemStore \<Rightarrow> bool" where
  "mem_inv L m \<longleftrightarrow> content_addressed L m \<and> finite (dom (ms_objects m)) \<and> alist_ok (ms_nodes m)"

lemma NewMemStore_inv: "mem_inv L (NewMemStore L)"
  by (simp add: mem_inv_def content_addressed_def getObj_def NewMemStore_def alist_ok_def)

lemma mem_inv_cong:
  "ms_objects m' = ms_objects m \<Longrightarrow> ms_nodes m' = ms_nodes m \<Longrightarrow> mem_inv L m' = mem_inv L m"
  by (simp add: mem_inv_def content_addressed_def getObj_def)

lemma putObj_inv: "mem_inv L m \<Longrightarrow> mem_inv L (fst (putObj L m enc))"
  by (auto simp: mem_inv_def content_addressed_def putObj_def getObj_def Let_def split: option.splits if_splits)

lemma alist_ok_filter [simp]: "alist_ok xs \<Longrightarrow> alist_ok (filter P xs)"
  by (induction xs) (auto simp: alist_ok_def)

lemma ApplyTx_inv:
  assumes "mem_inv L m"
  shows "mem_inv L (fst (MemStore_ApplyTx L m c t))"
  using assms unfolding MemStore_ApplyTx_def
  by (auto simp: mem_inv_def content_addressed_def getObj_def
      split: option.splits TxData.splits)

lemma ApplyTx_objects: "ms_objects (fst (MemStore_ApplyTx L m c t)) = ms_objects m"
  by (auto simp: MemStore_ApplyTx_def split: option.splits TxData.splits)

lemma ApplyTx_txbIndex: "ms_txbIndex (fst (MemStore_ApplyTx L m c t)) = ms_txbIndex m"
  by (auto simp: MemStore_ApplyTx_def split: option.splits TxData.splits)

lemma applyTxs_inv: "mem_inv L m \<Longrightarrow> mem_inv L (fst (applyTxs L m b txs))"
proof (induction L m b txs rule: applyTxs.induct)
  case (2 L m b c t txs)
  let ?m = "m\<lparr>ms_txbIndex := (ms_txbIndex m)(c \<mapsto> b)\<rparr>"
  have "mem_inv L ?m" using 2(2) by (simp add: mem_inv_cong [of ?m m])
  then have "mem_inv L (fst (MemStore_ApplyTx L ?m c t))" by (rule ApplyTx_inv)
  with 2(1) show ?case by (auto split: prod.splits result.splits)
qed simp

lemma indexBlockTx_inv: "mem_inv L m \<Longrightarrow> mem_inv L (fst (indexBlockTx L ord m b))"
  by (auto simp: indexBlockTx_def applyTxs_inv split: result.splits)

lemma put_genesis_txs_inv: "mem_inv L m \<Longrightarrow> mem_inv L (fst (put_genesis_txs L m ts txs))"
proof (induction ts arbitrary: m txs)
  case (Cons t ts)
  then show ?case using putObj_inv [of L m "mp_enc_tx L t"] by (auto split: prod.splits)
qed simp

lemma MarkBlock_inv: "mem_inv L m \<Longrightarrow> mem_inv L (fst (MemStore_MarkBlock L ord m b st))"
  by (auto simp: MemStore_MarkBlock_def Let_def mem_inv_cong [of "ms_bState_update _ m" m] intro!: indexBlockTx_inv)

lemma ApplyGenesis_inv: "mem_inv L m \<Longrightarrow> mem_inv L (fst (MemStore_ApplyGenesis L ord m gen))"
  using put_genesis_txs_inv [of L "m\<lparr>ms_genesisApplied := True\<rparr>" "g_Txs gen" "[]"]
  by (auto simp: MemStore_ApplyGenesis_def mem_inv_cong [of "ms_genesisApplied_update _ m" m]
      split: prod.splits intro!: applyTxs_inv)

text \<open>The methods that change a store, one step each.\<close>

inductive mem_step :: "'z lib_scheme \<Rightarrow> MemStore \<Rightarrow> MemStore \<Rightarrow> bool" for L :: "'z lib_scheme" where
  "mem_step L m (fst (MemStore_PutTx L m t))"
| "mem_step L m (fst (MemStore_PutBlock L m b))"
| "mem_step L m (fst (MemStore_PutSet L m st))"
| "mem_step L m (fst (MemStore_MarkBlock L ord m c x))"
| "mem_step L m (fst (MemStore_UpdateLastApplied m c))"
| "mem_step L m (fst (MemStore_ApplyTx L m c t))"
| "mem_step L m (fst (MemStore_ApplyGenesis L ord m gen))"
| "mem_step L m (fst (MemStore_CompleteTest m))"
| "MemStore_StartTest L m = Ok m' \<Longrightarrow> mem_step L m m'"

lemma StartTest_inv: "MemStore_StartTest L m = Ok m' \<Longrightarrow> mem_inv L m \<Longrightarrow> mem_inv L m'"
  using mem_inv_cong [of m' m L] by (auto simp: MemStore_StartTest_def)

lemma mem_step_inv: "mem_step L m m' \<Longrightarrow> mem_inv L m \<Longrightarrow> mem_inv L m'"
  by (induction rule: mem_step.induct)
     (auto simp: MemStore_PutTx_def MemStore_PutBlock_def MemStore_PutSet_def case_prod_beta putObj_inv
        MemStore_UpdateLastApplied_def MemStore_CompleteTest_def
        MarkBlock_inv ApplyTx_inv ApplyGenesis_inv mem_inv_cong [of "ms_lastBlock_update _ m" m for m]
        intro: StartTest_inv)

section \<open>Round trips\<close>

text \<open>
  What is relied on of the hash and of the codec: different contents have different identifiers
  (the usual idealisation of a collision resistant hash), and a set decodes to what was encoded.
\<close>

definition collision_free :: "'z lib_scheme \<Rightarrow> bool" where
  "collision_free L \<longleftrightarrow> (\<forall>d d'. content_id L d = content_id L d' \<longrightarrow> d = d')"

definition set_codec_ok :: "'z lib_scheme \<Rightarrow> bool" where
  "set_codec_ok L \<longleftrightarrow> (\<forall>cs t. \<exists>b. mp_enc_set L cs t = Some b \<and> mp_dec_set L b = Some (cs, t))"

definition block_codec_ok :: "'z lib_scheme \<Rightarrow> Block \<Rightarrow> bool" where
  "block_codec_ok L b \<longleftrightarrow> (\<exists>d. mp_enc_block L b = Some d \<and> mp_dec_block L d = Some b)"

definition mem_good :: "'z lib_scheme \<Rightarrow> MemStore \<Rightarrow> bool" where
  "mem_good L m \<longleftrightarrow> collision_free L \<and> set_codec_ok L \<and> mem_inv L m"

definition obj_keeps :: "MemStore \<Rightarrow> MemStore \<Rightarrow> bool" where
  "obj_keeps m m' \<longleftrightarrow> (\<forall>c d. getObj m c = Some d \<longrightarrow> getObj m' c = Some d)"

lemma putObj_get: "putObj L m (Some d) = (m', c) \<Longrightarrow> getObj m' c = Some d"
  by (auto simp: putObj_def getObj_def Let_def)

lemma putObj_keeps:
  assumes "mem_inv L m" and "collision_free L" and "putObj L m (Some d) = (m', c)"
  shows "obj_keeps m m'"
  using assms
  by (auto simp: obj_keeps_def putObj_def getObj_def Let_def mem_inv_def content_addressed_def collision_free_def)

lemma GetSet_keeps: "obj_keeps m m' \<Longrightarrow> MemStore_GetSet L m c = Ok st \<Longrightarrow> MemStore_GetSet L m' c = Ok st"
  by (auto simp: obj_keeps_def MemStore_GetSet_def split: option.splits)

lemma GetTx_keeps: "obj_keeps m m' \<Longrightarrow> MemStore_GetTx L m c = Ok t \<Longrightarrow> MemStore_GetTx L m' c = Ok t"
  by (auto simp: obj_keeps_def MemStore_GetTx_def split: option.splits)

lemma GetBlock_keeps: "obj_keeps m m' \<Longrightarrow> MemStore_GetBlock L m c = Ok b \<Longrightarrow> MemStore_GetBlock L m' c = Ok b"
  by (auto simp: obj_keeps_def MemStore_GetBlock_def split: option.splits)

lemma PutTx_GetTx:
  assumes "tx_typed t" and "codec_tx_ok L t"
  shows "\<exists>m' c. MemStore_PutTx L m t = (m', Ok c) \<and> MemStore_GetTx L m' c = Ok t"
proof -
  obtain d where "mp_enc_tx L t = Some d" "Tx_Unmarshal L d = Ok t"
    using Tx_Unmarshal_Marshal [OF assms] by (auto simp: Tx_Marshal_def split: option.splits)
  then show ?thesis
    using putObj_get [of L m d] by (auto simp: MemStore_PutTx_def MemStore_GetTx_def split: prod.splits)
qed

lemma PutBlock_GetBlock:
  assumes "block_codec_ok L b"
  shows "\<exists>m' c. MemStore_PutBlock L m b = (m', Ok c) \<and> MemStore_GetBlock L m' c = Ok b"
  using assms putObj_get [of L m]
  by (auto simp: block_codec_ok_def MemStore_PutBlock_def MemStore_GetBlock_def split: prod.splits)

lemma PutSet_GetSet:
  assumes "mem_good L m"
  shows "\<exists>m' c. MemStore_PutSet L m st = (m', Ok c) \<and> mem_good L m'
           \<and> MemStore_GetSet L m' c = Ok (st\<lparr>ts_cid := cid_Undef L\<rparr>)
           \<and> (\<forall>d x. MemStore_GetSet L m d = Ok x \<longrightarrow> MemStore_GetSet L m' d = Ok x)
           \<and> (\<forall>d x. MemStore_GetTx L m d = Ok x \<longrightarrow> MemStore_GetTx L m' d = Ok x)"
proof -
  from assms obtain b where b: "mp_enc_set L (ts_Children st) (ts_Tx st) = Some b"
      "mp_dec_set L b = Some (ts_Children st, ts_Tx st)"
    unfolding mem_good_def set_codec_ok_def by blast
  obtain m' c where p: "putObj L m (Some b) = (m', c)" by fastforce
  have keeps: "obj_keeps m m'" using assms putObj_keeps [OF _ _ p] by (simp add: mem_good_def)
  have "mem_good L m'" using assms putObj_inv [of L m "Some b"] p by (simp add: mem_good_def)
  moreover have "MemStore_GetSet L m' c = Ok (st\<lparr>ts_cid := cid_Undef L\<rparr>)"
    using putObj_get [OF p] b by (cases st) (simp add: MemStore_GetSet_def)
  ultimately show ?thesis
    using b p GetSet_keeps [OF keeps] GetTx_keeps [OF keeps] by (auto simp: MemStore_PutSet_def)
qed

interpretation memsets: SetStore L "memstore L" "mem_good L" for L :: "'z lib_scheme"
  by unfold_locales (simp add: PutSet_GetSet)

text \<open>
  Whatever a proposer has stored, the traversal of a block's transactions returns: with a list of
  transactions or with an error.
\<close>

lemma Tx_Unmarshal_plain: "Tx_Unmarshal L d \<noteq> Diverge" "Tx_Unmarshal L d \<noteq> Panic"
  by (auto simp: Tx_Unmarshal_def Let_def split: option.splits)

lemma wrap_plain: "wrap m r = Diverge \<longleftrightarrow> r = Diverge" "wrap m r = Panic \<longleftrightarrow> r = Panic"
  by (cases r; simp)+

lemma GetTx_plain: "MemStore_GetTx L m c \<noteq> Diverge" "MemStore_GetTx L m c \<noteq> Panic"
  by (auto simp: MemStore_GetTx_def wrap_plain Tx_Unmarshal_plain split: option.splits)

lemma GetSet_plain: "MemStore_GetSet L m c \<noteq> Diverge" "MemStore_GetSet L m c \<noteq> Panic"
  by (auto simp: MemStore_GetSet_def split: option.splits)

lemma finite_sets_inv: "mem_inv L m \<Longrightarrow> finite {c. is_Ok (MemStore_GetSet L m c)}"
proof (rule finite_subset)
  assume "mem_inv L m"
  then show "finite (dom (ms_objects m))" by (simp add: mem_inv_def)
  show "{c. is_Ok (MemStore_GetSet L m c)} \<subseteq> dom (ms_objects m)"
    by (auto simp: MemStore_GetSet_def getObj_def split: option.splits)
qed

lemma allTxCids_plain:
  assumes "mem_inv L m"
  shows "allTxCids L m b \<noteq> Diverge \<and> allTxCids L m b \<noteq> Panic"
proof -
  obtain r where "allTx_loop (MemStore_GetSet L m) (MemStore_GetTx L m) [b_TxRoot b] {} [] = Some r"
    using allTx_returns [OF finite_set_reach [OF finite_sets_inv [OF assms]]] by blast
  moreover from allTx_loop_plain [OF this] have "r \<noteq> Panic \<and> r \<noteq> Diverge"
    using GetSet_plain GetTx_plain by metis
  ultimately show ?thesis by (simp add: allTxCids_def allTx_def)
qed

section \<open>Indexing a block\<close>

lemma applyTxs_txbIndex:
  "applyTxs L m b txs = (m', Ok u) \<Longrightarrow>
   ms_txbIndex m' c = (if c \<in> fst ` set txs then Some b else ms_txbIndex m c)"
proof (induction L m b txs rule: applyTxs.induct)
  case (2 L m b k t txs)
  let ?m = "m\<lparr>ms_txbIndex := (ms_txbIndex m)(k \<mapsto> b)\<rparr>"
  from 2(2) obtain m1 v where 1: "MemStore_ApplyTx L ?m k t = (m1, Ok v)" "applyTxs L m1 b txs = (m', Ok u)"
    by (auto split: prod.splits result.splits)
  have "ms_txbIndex m1 = (ms_txbIndex m)(k \<mapsto> b)" using ApplyTx_txbIndex [of L ?m k t] 1(1) by simp
  then show ?case using 2(1) [OF 1(1) [symmetric] refl 1(2)] by auto
qed simp

lemma applyTxs_objects: "ms_objects (fst (applyTxs L m b txs)) = ms_objects m"
proof (induction L m b txs rule: applyTxs.induct)
  case (2 L m b k t txs)
  show ?case
    using 2 ApplyTx_objects [of L "m\<lparr>ms_txbIndex := (ms_txbIndex m)(k \<mapsto> b)\<rparr>" k t]
    by (auto split: prod.splits result.splits)
qed simp

lemma range_ok_set: "range_ok ord \<Longrightarrow> set (ord xs) = set xs"
  by (metis range_ok_def set_mset_mset)

text \<open>A block that was not marked as validated is not indexed when it is accepted.\<close>

lemma MarkBlock_unvalidated:
  assumes "ms_bState m b \<noteq> Some BlockStateValidated"
  shows "MemStore_MarkBlock L ord m b st = (m\<lparr>ms_bState := (ms_bState m)(b \<mapsto> st)\<rparr>, Ok ())"
  using assms by (auto simp: MemStore_MarkBlock_def Let_def split: option.splits)

section \<open>Nodes\<close>

lemma sorted_Nodes: "MemStore_Nodes m = Ok ns \<Longrightarrow> sorted ns \<and> set ns = fst ` set (ms_nodes m)"
  by (simp add: MemStore_Nodes_def) (metis list.set_map set_sort sorted_sort)

end
