(* ===== verification/Demo_Lib.thy ===== *)
theory Demo_Lib
  imports Consensus_Model MemStore_Laws
begin

text \<open>
  A concrete choice of the third-party operations, for examples: identifiers are the content with a
  prefix, sets are encoded symbol by symbol, a signature is the key followed by the message. It shows
  that what the development relies on of those operations can hold together.
\<close>

section \<open>A codec for transaction sets\<close>

fun enc_strs :: "string list \<Rightarrow> bytes" where
  "enc_strs [] = [2]"
| "enc_strs (s # ss) = 0 # concat (map (\<lambda>c. [1, of_nat (of_char c)]) s) @ enc_strs ss"

fun dec_strs :: "bytes \<Rightarrow> (string \<times> string list) option" where
  "dec_strs [] = None"
| "dec_strs [x] = (if x = 2 then Some ([], []) else None)"
| "dec_strs (x # y # xs) =
     (if x = 0 then (case dec_strs (y # xs) of None \<Rightarrow> None | Some (s, ss) \<Rightarrow> Some ([], s # ss))
      else if x = 1 then (case dec_strs xs of None \<Rightarrow> None | Some (s, ss) \<Rightarrow> Some (char_of (unat y) # s, ss))
      else None)"

lemma enc_strs_ne: "\<exists>x xs. enc_strs ss = x # xs"
  by (cases ss) auto

lemma dec_strs_chars:
  "dec_strs b = Some (s', ss) \<Longrightarrow>
   dec_strs (concat (map (\<lambda>c. [1, of_nat (of_char c)]) s) @ b) = Some (s @ s', ss)"
  by (induction s) auto

lemma dec_enc_strs: "dec_strs (enc_strs ss) = Some ([], ss)"
proof (induction ss)
  case (Cons s ss)
  let ?b = "concat (map (\<lambda>c. [1, of_nat (of_char c)]) s) @ enc_strs ss"
  have "dec_strs ?b = Some (s, ss)" using dec_strs_chars [OF Cons.IH, of s] by simp
  moreover obtain x xs where "?b = x # xs" using enc_strs_ne [of ss] by (cases s) auto
  ultimately show ?case by simp
qed simp

definition enc_set :: "cid list \<Rightarrow> cid option \<Rightarrow> bytes" where
  "enc_set cs t = enc_strs ((case t of None \<Rightarrow> [] | Some c \<Rightarrow> CHR ''t'' # c) # cs)"

definition dec_set :: "bytes \<Rightarrow> (cid list \<times> cid option) option" where
  "dec_set b =
     (case dec_strs b of
        Some (_, s # cs) \<Rightarrow> Some (cs, case s of [] \<Rightarrow> None | _ # c \<Rightarrow> Some c)
      | _ \<Rightarrow> None)"

lemma dec_enc_set: "dec_set (enc_set cs t) = Some (cs, t)"
  by (simp add: dec_set_def enc_set_def dec_enc_strs del: enc_strs.simps split: option.splits)

section \<open>The operations\<close>

text \<open>
  The codecs of transactions, blocks and messages know the ones they are given, by position.
\<close>

fun position :: "'a list \<Rightarrow> 'a \<Rightarrow> bytes option" where
  "position [] x = None"
| "position (y # ys) x = (if x = y then Some [3] else map_option (\<lambda>b. 0 # b) (position ys x))"

fun at_position :: "'a list \<Rightarrow> bytes \<Rightarrow> 'a option" where
  "at_position [] b = None"
| "at_position (y # ys) [] = None"
| "at_position (y # ys) (b # bs) =
     (if b = 3 \<and> bs = [] then Some y else if b = 0 then at_position ys bs else None)"

definition demo :: "Tx list \<Rightarrow> Block list \<Rightarrow> Msg list \<Rightarrow> clib" where
  "demo txs blocks msgs =
     \<lparr>cid_Undef = [], cid_String = (\<lambda>c. CHR ''b'' # c), cid_Bytes = string_bytes,
      cid_Parse = (\<lambda>s. case s of x # c \<Rightarrow> if x = CHR ''b'' \<and> c \<noteq> [] then Some c else None | [] \<Rightarrow> None),
      cid_ParseCid = Some, cid_Cast = (\<lambda>b. Some (bytes_string b)),
      cid_NewCidV1_Raw = (\<lambda>b. CHR ''c'' # bytes_string b), mh_Sum_SHA3_256 = (\<lambda>b. b),
      mb_Decode = (\<lambda>s. case s of x # r \<Rightarrow> if x = CHR ''z'' then Some (string_bytes r) else None | [] \<Rightarrow> None),
      mp_enc_tx = position txs, mp_dec_tx = (\<lambda>k. at_position txs),
      mp_enc_block = position blocks, mp_dec_block = at_position blocks,
      mp_enc_set = (\<lambda>cs t. Some (enc_set cs t)), mp_dec_set = dec_set, mp_dec_doc = (\<lambda>b. None),
      bloom_New = (\<lambda>n. []), bloom_Add = (\<lambda>f b. True # f), bloom_Test = (\<lambda>f b. f \<noteq> []),
      bloom_GobEncode = (\<lambda>f. Some (map (\<lambda>x. if x then 1 else 0) f)),
      bloom_GobDecode = (\<lambda>b. Some (map (\<lambda>w. w = 1) b)),
      errors_Wrap_nil = (\<lambda>m. None),
      ed25519_Verify = (\<lambda>pk msg sig. sig = pk @ msg), sha512_Sum = (\<lambda>b. take 64 b),
      bls_Unmarshal = (\<lambda>b. if b = [] then None else Some b), bls_Verify = (\<lambda>pk msg sig. sig = pk @ msg),
      secp_Unmarshal = (\<lambda>b. if b = [] then None else Some b), secp_Verify = (\<lambda>pk msg sig. sig = pk @ msg),
      url_authority_ok = (\<lambda>s. True),
      peer_String = (\<lambda>p. p), peer_MarshalBinary = (\<lambda>p. Some (string_bytes p)),
      peer_Marshal = (\<lambda>p. Some (string_bytes p)),
      mp_enc_msg = position msgs, mp_dec_msg = at_position msgs,
      bls_Sign = (\<lambda>key d. Some (key @ d)), bls_AggregatePublicKeys = (\<lambda>ks. Some (concat ks)),
      bls_AggregateSignatures = (\<lambda>ss. Some (concat ss))\<rparr>"

lemma bytes_string_inj: "bytes_string a = bytes_string b \<Longrightarrow> a = b"
proof -
  have "inj (\<lambda>w :: byte. char_of (unat w) :: char)"
  proof (rule injI)
    fix v w :: byte assume "(char_of (unat v) :: char) = char_of (unat w)"
    then have "unat v mod 256 = unat w mod 256" by (metis of_char_of)
    moreover have "unat v < 256" "unat w < 256" using unsigned_less [of v] unsigned_less [of w] by simp_all
    ultimately show "v = w" by (auto intro: unsigned_word_eqI)
  qed
  then show "bytes_string a = bytes_string b \<Longrightarrow> a = b"
    by (simp add: bytes_string_def inj_map_eq_map)
qed

lemma demo_collision_free: "collision_free (demo txs blocks msgs)"
  by (auto simp: collision_free_def content_id_def demo_def dest: bytes_string_inj)

lemma demo_set_codec: "set_codec_ok (demo txs blocks msgs)"
  by (simp add: set_codec_ok_def demo_def dec_enc_set)

lemma demo_good: "mem_good (demo txs blocks msgs) (NewMemStore (demo txs blocks msgs))"
  by (simp add: mem_good_def demo_collision_free demo_set_codec NewMemStore_inv)

section \<open>Examples\<close>

definition demo_doc :: Document where
  "demo_doc =
     \<lparr>doc_Context = [], doc_ID = ''did:web:a'', doc_AlsoKnownAs = [], doc_Controller = [],
      doc_VerificationMethod = [\<lparr>vm_ID = ''did:web:a'', vm_Type = ''Bls12381G2Key2020'',
        vm_Controller = ''did:web:a'', vm_PublicKeyJwk = None, vm_PublicKeyMultibase = ''zk''\<rparr>],
      doc_Authentication = [], doc_AssertionMethod = [], doc_KeyAgreement = [],
      doc_CapabilityInvocation = [], doc_CapabilityDelegation = [], doc_Service = []\<rparr>"

text \<open>A transaction that adds the document, without and with the signature of its key.\<close>

definition demo_unsigned :: Tx where
  "demo_unsigned =
     \<lparr>tx_Version = 1, tx_Ts = 5, tx_From = ''did:web:a'', tx_Type = 1, tx_Action = 1,
      tx_Data = DataDID \<lparr>did_Document = Some demo_doc\<rparr>, tx_Signature = []\<rparr>"

definition demo_tx :: Tx where
  "demo_tx = demo_unsigned\<lparr>tx_Signature := string_bytes ''k'' @ [3]\<rparr>"

definition demo_env :: env where
  "demo_env =
     \<lparr>env_ord = (\<lambda>xs. xs), env_ord' = (\<lambda>xs. xs), env_votes = (\<lambda>xs. xs), env_nonce = Some (replicate 32 0),
      env_join = (\<lambda>_. True), env_subscribe = (\<lambda>_. True), env_publish = (\<lambda>_. True)\<rparr>"

end
