(* ===== verification/Storage_Props.thy ===== *)
theory Storage_Props
  imports Demo_Lib
begin

text \<open>
  Properties of the storage layer: transaction sets and their traversal, blocks and bloom filters,
  and the in-memory store over any sequence of its methods.
\<close>

section \<open>Shared facts\<close>

abbreviation mem_run :: "'z lib_scheme \<Rightarrow> MemStore \<Rightarrow> MemStore \<Rightarrow> bool" where
  "mem_run L \<equiv> (mem_step L)\<^sup>*\<^sup>*"

lemma mem_run_inv: "mem_run L m m' \<Longrightarrow> mem_inv L m \<Longrightarrow> mem_inv L m'"
  by (induction rule: rtranclp_induct) (auto intro: mem_step_inv)

lemma putObj_keeps_nonempty:
  assumes "mem_inv L m" and "collision_free L" and "getObj m c = Some d" and "d \<noteq> []"
  shows "getObj (fst (putObj L m enc)) c = Some d"
  using assms
  by (auto simp: putObj_def getObj_def Let_def mem_inv_def content_addressed_def collision_free_def
      split: option.splits)

lemma put_genesis_txs_keeps:
  "mem_inv L m \<Longrightarrow> collision_free L \<Longrightarrow> getObj m c = Some d \<Longrightarrow> d \<noteq> [] \<Longrightarrow>
   getObj (fst (put_genesis_txs L m ts txs)) c = Some d"
proof (induction ts arbitrary: m txs)
  case (Cons t ts)
  obtain m' k where p: "putObj L m (mp_enc_tx L t) = (m', k)" by fastforce
  have "mem_inv L m'" "getObj m' c = Some d"
    using putObj_inv [OF Cons.prems(1), of "mp_enc_tx L t"]
      putObj_keeps_nonempty [OF Cons.prems, of "mp_enc_tx L t"] p by simp_all
  then show ?case using Cons p by simp
qed simp

lemma getObj_cong: "ms_objects m' = ms_objects m \<Longrightarrow> getObj m' = getObj m"
  by (simp add: getObj_def fun_eq_iff)

lemma indexBlockTx_objects: "ms_objects (fst (indexBlockTx L ord m b)) = ms_objects m"
  by (auto simp: indexBlockTx_def applyTxs_objects split: result.splits)

lemma mem_step_keeps:
  assumes "mem_step L m m'" and "mem_inv L m" and "collision_free L" and "getObj m c = Some d" and "d \<noteq> []"
  shows "getObj m' c = Some d"
  using assms
proof (cases rule: mem_step.cases)
  case (4 ord b x)
  then have "ms_objects m' = ms_objects m"
    by (simp add: MemStore_MarkBlock_def Let_def indexBlockTx_objects)
  then show ?thesis using assms(4) by (simp add: getObj_cong [of m' m])
next
  case (6 k t)
  then show ?thesis using assms(4) ApplyTx_objects [of L m k t] by (simp add: getObj_def)
next
  case (7 ord gen)
  let ?m = "m\<lparr>ms_genesisApplied := True\<rparr>"
  obtain m1 txs where p: "put_genesis_txs L ?m (g_Txs gen) [] = (m1, txs)" by fastforce
  have "mem_inv L ?m" "getObj ?m c = Some d"
    using assms(2,4) by (simp_all add: mem_inv_cong [of ?m m] getObj_def)
  from put_genesis_txs_keeps [OF this(1) assms(3) this(2) assms(5), of "g_Txs gen" "[]"] p
  have "getObj m1 c = Some d" by simp
  moreover have "ms_objects m' = ms_objects m1"
    using 7 p applyTxs_objects by (simp add: MemStore_ApplyGenesis_def)
  ultimately show ?thesis by (simp add: getObj_def)
qed (use putObj_keeps_nonempty [OF assms(2-5)] assms(4) in
      \<open>auto simp: MemStore_PutTx_def MemStore_PutBlock_def MemStore_PutSet_def case_prod_beta
         MemStore_UpdateLastApplied_def MemStore_CompleteTest_def MemStore_StartTest_def getObj_def\<close>)

lemma mem_run_keeps:
  assumes "mem_run L m m'" and "mem_inv L m" and "collision_free L" and "getObj m c = Some d" and "d \<noteq> []"
  shows "getObj m' c = Some d"
  using assms(1)
proof (induction rule: rtranclp_induct)
  case (step m1 m2)
  then show ?case using mem_step_keeps [OF step(2) mem_run_inv [OF step(1) assms(2)] assms(3) _ assms(5)] by blast
qed (rule assms(4))

text \<open>What is relied on of the bloom filter library: membership after adding, and its encoding.\<close>

definition bloom_ok :: "'z lib_scheme \<Rightarrow> bool" where
  "bloom_ok L \<longleftrightarrow>
     (\<forall>f x. bloom_Test L (bloom_Add L f x) x)
   \<and> (\<forall>f x y. bloom_Test L f y \<longrightarrow> bloom_Test L (bloom_Add L f x) y)
   \<and> (\<forall>f. \<exists>b. bloom_GobEncode L f = Some b \<and> bloom_GobDecode L b = Some f)"

lemma bloom_fold:
  assumes "bloom_ok L"
  shows "bloom_Test L f y \<Longrightarrow> bloom_Test L (fold (\<lambda>t b. bloom_Add L b (cid_Bytes L t)) txs f) y"
    and "t \<in> set txs \<Longrightarrow> bloom_Test L (fold (\<lambda>t b. bloom_Add L b (cid_Bytes L t)) txs f) (cid_Bytes L t)"
proof -
  show keep: "bloom_Test L f y \<Longrightarrow> bloom_Test L (fold (\<lambda>t b. bloom_Add L b (cid_Bytes L t)) txs f) y" for f y txs
    using assms by (induction txs arbitrary: f) (auto simp: bloom_ok_def)
  show "t \<in> set txs \<Longrightarrow> bloom_Test L (fold (\<lambda>t b. bloom_Add L b (cid_Bytes L t)) txs f) (cid_Bytes L t)"
  proof (induction txs arbitrary: f)
    case (Cons u us)
    then show ?case using assms keep by (auto simp: bloom_ok_def)
  qed simp
qed

lemma MakeBloom_contains:
  assumes "bloom_ok L"
  shows "\<exists>b. MakeBloom L txs = Ok b \<and> (\<forall>t\<in>set txs. BloomContains L b t = Ok True)"
proof -
  let ?f = "fold (\<lambda>t b. bloom_Add L b (cid_Bytes L t)) txs (bloom_New L MaxBlockTxCount)"
  obtain b where "bloom_GobEncode L ?f = Some b" "bloom_GobDecode L b = Some ?f"
    using assms unfolding bloom_ok_def by blast
  then show ?thesis using bloom_fold(2) [OF assms] by (simp add: MakeBloom_def BloomContains_def)
qed

lemma demo_bloom: "bloom_ok (demo txs blocks msgs)"
  by (simp add: bloom_ok_def demo_def comp_def)

text \<open>The example store, with one transaction in it.\<close>

abbreviation demo_L :: clib where "demo_L \<equiv> demo [demo_unsigned, demo_tx] [] []"

definition demo_store :: MemStore where
  "demo_store = fst (MemStore_PutTx demo_L (NewMemStore demo_L) demo_tx)"

definition demo_cid :: cid where
  "demo_cid = content_id demo_L [0, 3]"

lemma demo_tx_neq [simp]: "demo_tx \<noteq> demo_unsigned" "demo_unsigned \<noteq> demo_tx"
  by (simp_all add: demo_tx_def demo_unsigned_def string_bytes_def)

lemma demo_codec: "tx_typed demo_tx \<and> codec_tx_ok demo_L demo_tx"
  by (simp add: codec_tx_ok_def demo_def) (simp add: demo_tx_def demo_unsigned_def)

lemma demo_put: "MemStore_PutTx demo_L (NewMemStore demo_L) demo_tx = (demo_store, Ok demo_cid)"
  by (simp add: demo_store_def demo_cid_def MemStore_PutTx_def putObj_def Let_def demo_def)

lemma demo_held: "MemStore_GetTx demo_L demo_store demo_cid = Ok demo_tx"
  using PutTx_GetTx [of demo_tx demo_L "NewMemStore demo_L"] demo_codec by (simp add: demo_put)

lemma demo_run: "mem_run demo_L (NewMemStore demo_L) demo_store"
  using mem_step.intros(1) [of demo_L "NewMemStore demo_L" demo_tx] by (simp add: demo_store_def)

lemma demo_store_good: "mem_good demo_L demo_store"
  using mem_run_inv [OF demo_run NewMemStore_inv] by (simp add: mem_good_def demo_collision_free demo_set_codec)

section \<open>Properties\<close>

text \<open>
  C4. A transaction set made by \<^verbatim>\<open>NewTxSet\<close> from transactions the store holds is stored completely:
  a block whose root is that set has, by \<^verbatim>\<open>AllTx\<close>, exactly those transactions, each as it was stored.
\<close>

theorem NewTxSet_AllTx_roundtrip:
  assumes "mem_good L m" and "txs \<noteq> []" and "length txs \<le> MaxBlockTxCount"
    and "\<forall>t\<in>set txs. is_Ok (MemStore_GetTx L m t)"
  shows "\<exists>m' root. NewTxSet L (memstore L) m txs = (m', Ok root) \<and> mem_good L m'
           \<and> (\<forall>b. b_TxRoot b = ts_cid root \<longrightarrow>
                (\<exists>xs. MemStore_AllTx L m' b = Ok xs \<and> fst ` set xs = set txs \<and> alist_ok xs
                   \<and> (\<forall>(c, t)\<in>set xs. MemStore_GetTx L m c = Ok t)))"
proof -
  have fin: "finite {c. is_Ok (GetSet (memstore L) s c)}" if "mem_good L s" for s
    using that finite_sets_inv [of L s] by (simp add: mem_good_def)
  obtain m' root xs where "NewTxSet L (memstore L) m txs = (m', Ok root)" "mem_good L m'"
      "allTx (MemStore_GetSet L m') (MemStore_GetTx L m') (ts_cid root) = Ok xs" "fst ` set xs = set txs"
      "alist_ok xs" "\<forall>(c, t)\<in>set xs. MemStore_GetTx L m c = Ok t"
    using memsets.NewTxSet_AllTx [OF assms(1-3)] assms(4) fin by auto
  then show ?thesis by (auto simp: MemStore_AllTx_def allTxCids_def)
qed

theorem NewTxSet_AllTx_roundtrip_witness:
  "\<exists>m' root. NewTxSet demo_L (memstore demo_L) demo_store [demo_cid] = (m', Ok root) \<and> mem_good demo_L m'
     \<and> (\<forall>b. b_TxRoot b = ts_cid root \<longrightarrow>
          (\<exists>xs. MemStore_AllTx demo_L m' b = Ok xs \<and> fst ` set xs = set [demo_cid] \<and> alist_ok xs
             \<and> (\<forall>(c, t)\<in>set xs. MemStore_GetTx demo_L demo_store c = Ok t)))"
  by (rule NewTxSet_AllTx_roundtrip) (simp_all add: demo_store_good demo_held)

text \<open>
  C23. The tree \<^verbatim>\<open>NewTxSet\<close> stores for \<open>n\<close> transactions is a perfect binary tree over the sorted
  transactions, padded with repetitions, and its height is the least one that holds them.
\<close>

theorem NewTxSet_perfect_tree:
  assumes "mem_good L m" and "txs \<noteq> []" and "length txs \<le> MaxBlockTxCount"
  shows "\<exists>m' root h z. NewTxSet L (memstore L) m txs = (m', Ok root)
           \<and> ptree (MemStore_GetSet L m') h (ts_cid root) (sort_cids L txs @ z) \<and> set z \<subseteq> set txs
           \<and> length txs \<le> 2 ^ h \<and> (h = 0 \<or> 2 ^ (h - 1) < length txs)"
proof -
  from memsets.NewTxSet_tree [OF assms] obtain m' root h z where
    n: "NewTxSet L (memstore L) m txs = (m', Ok root)"
       "ptree (MemStore_GetSet L m') h (ts_cid root) (sort_cids L txs @ z)" "set z \<subseteq> set txs"
       "h = 0 \<or> 2 ^ (h - 1) < length txs" by auto
  have "length txs \<le> 2 ^ h" using ptree_length [OF n(2)] by (simp add: sort_cids_def)
  with n show ?thesis by blast
qed

theorem NewTxSet_perfect_tree_witness:
  "\<exists>m' root h z. NewTxSet demo_L (memstore demo_L) demo_store [demo_cid] = (m', Ok root)
     \<and> ptree (MemStore_GetSet demo_L m') h (ts_cid root) (sort_cids demo_L [demo_cid] @ z)
     \<and> set z \<subseteq> set [demo_cid] \<and> length [demo_cid] \<le> 2 ^ h \<and> (h = 0 \<or> 2 ^ (h - 1) < length [demo_cid])"
  by (rule NewTxSet_perfect_tree) (simp_all add: demo_store_good)

text \<open>
  C24. Whatever a proposer has stored, sets that refer to each other in a cycle included, the traversal
  of a block's transactions ends without a panic: it returns an error, or exactly the transactions
  of the sets reachable from the block's root, at most 1000 of them.
\<close>

theorem AllTx_ends:
  assumes "mem_run L (NewMemStore L) m"
  shows "(\<exists>e. MemStore_AllTx L m b = Err e)
       \<or> (\<exists>xs. MemStore_AllTx L m b = Ok xs \<and> fst ` set xs = reach_txs (MemStore_GetSet L m) (b_TxRoot b)
            \<and> alist_ok xs \<and> length xs \<le> MaxBlockTxCount)"
proof -
  have "mem_inv L m" using mem_run_inv [OF assms NewMemStore_inv] .
  from allTxCids_plain [OF this, of b] have "(\<exists>e. allTxCids L m b = Err e) \<or> (\<exists>xs. allTxCids L m b = Ok xs)"
    by (cases "allTxCids L m b") auto
  then show ?thesis
    using allTx_result [of "MemStore_GetSet L m" "MemStore_GetTx L m" "b_TxRoot b"]
    by (auto simp: MemStore_AllTx_def allTxCids_def trav_result_def)
qed

definition demo_block :: "cid \<Rightarrow> Block" where
  "demo_block root =
     \<lparr>b_Version = 1, b_ID = [], b_Parent = [], b_Height = 1, b_CreatedAt = 0, b_Proposer = [],
      b_Signature = [], b_Nonce = [], b_Bloom = [], b_TxRoot = root\<rparr>"

theorem AllTx_ends_witness:
  "(\<exists>e. MemStore_AllTx demo_L demo_store (demo_block []) = Err e)
   \<or> (\<exists>xs. MemStore_AllTx demo_L demo_store (demo_block []) = Ok xs
        \<and> fst ` set xs = reach_txs (MemStore_GetSet demo_L demo_store) (b_TxRoot (demo_block []))
        \<and> alist_ok xs \<and> length xs \<le> MaxBlockTxCount)"
  by (rule AllTx_ends [OF demo_run])

text \<open>
  C28. A transaction that was put into the store is read back unchanged, now and after any further
  sequence of store methods (the codec reads back what it wrote, and the hash has no collisions).
\<close>

theorem PutTx_GetTx_forever:
  assumes "mem_inv L m" and "collision_free L" and "tx_typed t" and "codec_tx_ok L t"
    and "mp_enc_tx L t \<noteq> Some []"
  shows "\<exists>m' c. MemStore_PutTx L m t = (m', Ok c) \<and> (\<forall>m''. mem_run L m' m'' \<longrightarrow> MemStore_GetTx L m'' c = Ok t)"
proof -
  obtain m' c where p: "MemStore_PutTx L m t = (m', Ok c)" "MemStore_GetTx L m' c = Ok t"
    using PutTx_GetTx [OF assms(3,4)] by blast
  obtain d where d: "mp_enc_tx L t = Some d" "d \<noteq> []" using assms(4,5) by (auto simp: codec_tx_ok_def)
  have obj: "getObj m' c = Some d"
    using p(1) d putObj_get [of L m d m' c] by (auto simp: MemStore_PutTx_def split: prod.splits)
  have inv: "mem_inv L m'" using mem_step_inv [OF mem_step.intros(1) assms(1), of t] p(1) by simp
  have "MemStore_GetTx L m'' c = Ok t" if "mem_run L m' m''" for m''
    using mem_run_keeps [OF that inv assms(2) obj d(2)] p(2) obj by (simp add: MemStore_GetTx_def)
  then show ?thesis using p(1) by blast
qed

theorem PutTx_GetTx_forever_witness:
  "\<exists>m' c. MemStore_PutTx demo_L (NewMemStore demo_L) demo_tx = (m', Ok c)
     \<and> (\<forall>m''. mem_run demo_L m' m'' \<longrightarrow> MemStore_GetTx demo_L m'' c = Ok demo_tx)"
proof (rule PutTx_GetTx_forever)
  show "tx_typed demo_tx" "codec_tx_ok demo_L demo_tx" using demo_codec by blast+
  show "mp_enc_tx demo_L demo_tx \<noteq> Some []" by (simp add: demo_def)
qed (simp_all add: NewMemStore_inv demo_collision_free)

text \<open>
  C29. Every store reached from an empty one by its methods has its objects under the identifier of
  their content and one index entry per node, and the node list is sorted without repetitions.
\<close>

theorem MemStore_invariant:
  assumes "mem_run L (NewMemStore L) m"
  shows "content_addressed L m
    \<and> (\<exists>ns. MemStore_Nodes m = Ok ns \<and> sorted ns \<and> distinct ns \<and> set ns = fst ` set (ms_nodes m))"
proof -
  have inv: "mem_inv L m" using mem_run_inv [OF assms NewMemStore_inv] .
  then have "distinct (map fst (ms_nodes m))" by (simp add: mem_inv_def alist_ok_def)
  then have "\<exists>ns. MemStore_Nodes m = Ok ns \<and> sorted ns \<and> distinct ns \<and> set ns = fst ` set (ms_nodes m)"
    using sorted_Nodes [of m] by (simp add: MemStore_Nodes_def)
  with inv show ?thesis by (simp add: mem_inv_def)
qed

theorem MemStore_invariant_witness:
  "content_addressed demo_L demo_store
   \<and> (\<exists>ns. MemStore_Nodes demo_store = Ok ns \<and> sorted ns \<and> distinct ns \<and> set ns = fst ` set (ms_nodes demo_store))"
  by (rule MemStore_invariant [OF demo_run])

text \<open>A store with a block that was validated.\<close>

definition demo_root :: cid where
  "demo_root = content_id demo_L (enc_set [] (Some demo_cid))"

definition demo_bid :: cid where
  "demo_bid = content_id demo_L [3]"

abbreviation demo_L' :: clib where "demo_L' \<equiv> demo [demo_unsigned, demo_tx] [demo_block demo_root] []"

definition demo_validated :: MemStore where
  "demo_validated = (NewMemStore demo_L')\<lparr>
     ms_objects := [demo_cid \<mapsto> [0, 3], demo_root \<mapsto> enc_set [] (Some demo_cid), demo_bid \<mapsto> [3]],
     ms_bState := [demo_bid \<mapsto> BlockStateValidated]\<rparr>"

lemma demo_cids [simp]:
  "demo_cid \<noteq> demo_root" "demo_root \<noteq> demo_cid" "demo_cid \<noteq> demo_bid" "demo_bid \<noteq> demo_cid"
  "demo_root \<noteq> demo_bid" "demo_bid \<noteq> demo_root"
  by (auto simp: demo_cid_def demo_root_def demo_bid_def content_id_def demo_def enc_set_def
      dest!: bytes_string_inj)

lemma demo_validated_reads:
  "MemStore_GetBlock demo_L' demo_validated demo_bid = Ok (demo_block demo_root)"
  "MemStore_GetSet demo_L' demo_validated demo_root = Ok \<lparr>ts_Children = [], ts_Tx = Some demo_cid, ts_cid = []\<rparr>"
  "MemStore_GetTx demo_L' demo_validated demo_cid = Ok demo_tx"
  by (simp_all add: MemStore_GetBlock_def MemStore_GetSet_def MemStore_GetTx_def getObj_def demo_validated_def
      demo_def dec_enc_set Tx_Unmarshal_def) (simp add: demo_tx_def demo_unsigned_def)

lemma demo_validated_all:
  "allTxCids demo_L' (demo_validated\<lparr>ms_bState := s\<rparr>) (demo_block demo_root) = Ok [(demo_cid, demo_tx)]"
proof -
  have same: "MemStore_GetSet demo_L' (demo_validated\<lparr>ms_bState := s\<rparr>) = MemStore_GetSet demo_L' demo_validated"
    "MemStore_GetTx demo_L' (demo_validated\<lparr>ms_bState := s\<rparr>) = MemStore_GetTx demo_L' demo_validated"
    by (simp_all add: MemStore_GetSet_def MemStore_GetTx_def getObj_def fun_eq_iff)
  have "b_TxRoot (demo_block demo_root) = demo_root" by (simp add: demo_block_def)
  then show ?thesis
    unfolding allTxCids_def allTx_def same
    by (simp add: allTx_loop.simps [of _ _ "[demo_root]"] allTx_loop.simps [of _ _ "[]"] demo_validated_reads)
qed

lemma demo_accept:
  "snd (MemStore_MarkBlock demo_L' (\<lambda>xs. xs) demo_validated demo_bid BlockStateAccepted) = Ok ()"
proof -
  have "ms_bState demo_validated demo_bid = Some BlockStateValidated" by (simp add: demo_validated_def)
  moreover have "MemStore_GetBlock demo_L' (demo_validated\<lparr>ms_bState := s\<rparr>) demo_bid = Ok (demo_block demo_root)" for s
    using demo_validated_reads(1) by (simp add: MemStore_GetBlock_def getObj_def)
  moreover have "snd (applyTxs demo_L' m demo_bid [(demo_cid, demo_tx)]) = Ok ()" for m
    by (simp add: MemStore_ApplyTx_def demo_tx_def demo_unsigned_def demo_def)
  ultimately show ?thesis
    by (simp add: MemStore_MarkBlock_def indexBlockTx_def demo_validated_all del: applyTxs.simps)
qed

text \<open>
  Accepting a block that the store has as validated indexes exactly the transactions reachable
  from its root, under the block's identifier; the other index entries and the objects stay.
\<close>

theorem MarkBlock_indexes:
  assumes "ms_bState m b = Some BlockStateValidated" and "range_ok ord"
    and "MemStore_MarkBlock L ord m b BlockStateAccepted = (m', Ok u)"
  shows "\<exists>block. MemStore_GetBlock L m b = Ok block
           \<and> (\<forall>c. ms_txbIndex m' c = (if c \<in> reach_txs (MemStore_GetSet L m) (b_TxRoot block)
                                        then Some b else ms_txbIndex m c))
           \<and> ms_objects m' = ms_objects m"
proof -
  let ?m = "m\<lparr>ms_bState := (ms_bState m)(b \<mapsto> BlockStateAccepted)\<rparr>"
  have same: "MemStore_GetBlock L ?m = MemStore_GetBlock L m" "MemStore_GetSet L ?m = MemStore_GetSet L m"
      "MemStore_GetTx L ?m = MemStore_GetTx L m"
    by (auto simp: MemStore_GetBlock_def MemStore_GetSet_def MemStore_GetTx_def getObj_def fun_eq_iff)
  from assms(3,1) have "indexBlockTx L ord ?m b = (m', Ok u)" by (simp add: MemStore_MarkBlock_def)
  then obtain block txs where blk: "MemStore_GetBlock L m b = Ok block"
    and txs: "allTxCids L ?m block = Ok txs" and app: "applyTxs L ?m b (ord txs) = (m', Ok u)"
    by (auto simp: indexBlockTx_def same wrap_Ok split: result.splits)
  have "fst ` set (ord txs) = reach_txs (MemStore_GetSet L m) (b_TxRoot block)"
    using allTx_result [of "MemStore_GetSet L m" "MemStore_GetTx L m" "b_TxRoot block" txs] txs
    by (simp add: allTxCids_def same trav_result_def range_ok_set [OF assms(2)])
  with blk applyTxs_txbIndex [OF app] applyTxs_objects [of L ?m b "ord txs"] app show ?thesis by simp
qed

theorem MarkBlock_indexes_witness:
  "\<exists>block. MemStore_GetBlock demo_L' demo_validated demo_bid = Ok block
     \<and> (\<forall>c. ms_txbIndex (fst (MemStore_MarkBlock demo_L' (\<lambda>xs. xs) demo_validated demo_bid BlockStateAccepted)) c =
          (if c \<in> reach_txs (MemStore_GetSet demo_L' demo_validated) (b_TxRoot block)
           then Some demo_bid else ms_txbIndex demo_validated c))
     \<and> ms_objects (fst (MemStore_MarkBlock demo_L' (\<lambda>xs. xs) demo_validated demo_bid BlockStateAccepted))
         = ms_objects demo_validated"
proof (rule MarkBlock_indexes)
  show "ms_bState demo_validated demo_bid = Some BlockStateValidated" by (simp add: demo_validated_def)
  show "range_ok (\<lambda>xs. xs)" by (simp add: range_ok_def)
  show "MemStore_MarkBlock demo_L' (\<lambda>xs. xs) demo_validated demo_bid BlockStateAccepted =
      (fst (MemStore_MarkBlock demo_L' (\<lambda>xs. xs) demo_validated demo_bid BlockStateAccepted), Ok ())"
    using demo_accept by (metis prod.collapse)
qed

text \<open>
  C30. A block made by \<^verbatim>\<open>NewBlock\<close> from transactions the store holds, on a parent the store holds, has the
  parent's height plus one (modulo 2^64), has exactly those transactions, and its bloom filter
  admits every one of them.
\<close>

theorem NewBlock_complete:
  assumes "mem_good L m" and "bloom_ok L" and "txs \<noteq> []" and "length txs \<le> MaxBlockTxCount"
    and "\<forall>t\<in>set txs. is_Ok (MemStore_GetTx L m t)"
    and "par \<noteq> cid_Undef L" and "MemStore_GetBlock L m par = Ok pb"
  shows "\<exists>m' b. NewBlock L (memstore L) now (Some nonce) m par txs = (m', Ok b)
           \<and> b_Parent b = par \<and> unat (b_Height b) = (unat (b_Height pb) + 1) mod 2 ^ 64
           \<and> (\<exists>xs. MemStore_AllTx L m' b = Ok xs \<and> fst ` set xs = set txs)
           \<and> (\<forall>t\<in>set txs. BloomContains L (b_Bloom b) t = Ok True)"
proof -
  have fin: "finite {c. is_Ok (GetSet (memstore L) s c)}" if "mem_good L s" for s
    using that finite_sets_inv [of L s] by (simp add: mem_good_def)
  obtain m' root xs where n: "NewTxSet L (memstore L) m txs = (m', Ok root)"
      "allTx (MemStore_GetSet L m') (MemStore_GetTx L m') (ts_cid root) = Ok xs" "fst ` set xs = set txs"
    using memsets.NewTxSet_AllTx [OF assms(1,3,4)] assms(5) fin by auto
  obtain bloom where bloom: "MakeBloom L txs = Ok bloom" "\<forall>t\<in>set txs. BloomContains L bloom t = Ok True"
    using MakeBloom_contains [OF assms(2)] by blast
  have "unat (b_Height pb + 1) = (unat (b_Height pb) + 1) mod 2 ^ 64" by (simp add: unat_word_ariths)
  then show ?thesis
    using n bloom assms(6,7)
    by (simp add: NewBlock_def MemStore_AllTx_def allTxCids_def)
qed

theorem NewBlock_complete_witness:
  "\<exists>m' b. NewBlock demo_L' (memstore demo_L') 7 (Some []) demo_validated demo_bid [demo_cid] = (m', Ok b)
     \<and> b_Parent b = demo_bid \<and> unat (b_Height b) = (unat (b_Height (demo_block demo_root)) + 1) mod 2 ^ 64
     \<and> (\<exists>xs. MemStore_AllTx demo_L' m' b = Ok xs \<and> fst ` set xs = set [demo_cid])
     \<and> (\<forall>t\<in>set [demo_cid]. BloomContains demo_L' (b_Bloom b) t = Ok True)"
proof (rule NewBlock_complete)
  have "content_addressed demo_L' demo_validated"
    by (auto simp: content_addressed_def getObj_def demo_validated_def demo_cid_def demo_root_def demo_bid_def
        content_id_def demo_def split: if_splits)
  then show "mem_good demo_L' demo_validated"
    by (simp add: mem_good_def mem_inv_def demo_collision_free demo_set_codec)
       (simp add: demo_validated_def NewMemStore_def alist_ok_def)
  show "demo_bid \<noteq> cid_Undef demo_L'" by (simp add: demo_bid_def content_id_def demo_def)
qed (simp_all add: demo_bloom demo_validated_reads)

text \<open>
  \<^verbatim>\<open>NewTxSet\<close> has no root for an empty list of transactions: it panics, on every store, and
  it refuses more than 1000 transactions with an error, storing nothing.
\<close>

theorem NewTxSet_limits:
  "NewTxSet L S s [] = (s, Panic)
   \<and> (length txs > MaxBlockTxCount \<longrightarrow> NewTxSet L S s txs = (s, Err (ErrNew ''too many tx for set'')))"
  by (simp add: NewTxSet_def sort_cids_def reduce_levels.simps)

theorem NewTxSet_limits_witness:
  "NewTxSet demo_L (memstore demo_L) demo_store [] = (demo_store, Panic)
   \<and> NewTxSet demo_L (memstore demo_L) demo_store (replicate 1001 demo_cid)
       = (demo_store, Err (ErrNew ''too many tx for set''))"
  using NewTxSet_limits [of demo_L "memstore demo_L" demo_store "replicate 1001 demo_cid"]
  by simp

end
