(* ===== verification/Block_Build.thy ===== *)
theory Block_Build
  imports Consensus_Rounds Storage_Props
begin

text \<open>
  The block builder \<^verbatim>\<open>makeBlock\<close> of \<^verbatim>\<open>pkg/did/consensus/blocks.go\<close> on top of the pool and of the
  store: which transactions leave the pool and that the block's root leads to them.
\<close>

section \<open>The root of a built set\<close>

context SetStore
begin

text \<open>A set whose content the store has under the set's identifier.\<close>

definition stored :: "'s \<Rightarrow> TxSet \<Rightarrow> bool" where
  "stored s n \<longleftrightarrow> GetSet S s (ts_cid n) = Ok (n\<lparr>ts_cid := cid_Undef L\<rparr>)"

lemma stored_keeps: "keeps s s' \<Longrightarrow> stored s n \<Longrightarrow> stored s' n"
  by (simp add: keeps_def stored_def)

lemma put_leaves_stored:
  "good s \<Longrightarrow> put_leaves L S s ts = (s', Ok nodes) \<Longrightarrow> good s' \<and> keeps s s' \<and> (\<forall>n\<in>set nodes. stored s' n)"
proof (induction ts arbitrary: s s' nodes)
  case Nil
  then show ?case by (auto simp: keeps_refl)
next
  case (Cons t ts)
  let ?leaf = "\<lparr>ts_Children = [], ts_Tx = Some t, ts_cid = cid_Undef L\<rparr>"
  obtain s1 c where 1: "PutSet S s ?leaf = (s1, Ok c)" "good s1" "keeps s s1" "GetSet S s1 c = Ok (?leaf\<lparr>ts_cid := cid_Undef L\<rparr>)"
    using put_set [OF Cons.prems(1), of ?leaf] unfolding keeps_def by blast
  then obtain ns where 2: "put_leaves L S s1 ts = (s', Ok ns)" "nodes = ?leaf\<lparr>ts_cid := c\<rparr> # ns"
    using Cons.prems(2) by (auto simp: Let_def split: prod.splits result.splits)
  have s': "good s'" "keeps s1 s'" "\<forall>n\<in>set ns. stored s' n" using Cons.IH [OF 1(2) 2(1)] by auto
  have "stored s1 (?leaf\<lparr>ts_cid := c\<rparr>)" using 1(4) by (simp add: stored_def)
  from stored_keeps [OF s'(2) this] keeps_trans [OF 1(3) s'(2)] s' 2(2) show ?case by simp
qed

lemma put_parents_stored:
  "good s \<Longrightarrow> put_parents L S s xs = (s', Ok nodes) \<Longrightarrow> good s' \<and> keeps s s' \<and> (\<forall>n\<in>set nodes. stored s' n)"
proof (induction "length xs" arbitrary: xs s s' nodes rule: less_induct)
  case less
  consider "length xs \<le> 1" | a b rest where "xs = a # b # rest"
    by (cases xs; cases "tl xs") auto
  then show ?case
  proof cases
    case 1
    then have "put_parents L S s xs = (s, Ok [])" by (cases xs; cases "tl xs") auto
    then show ?thesis using less.prems by (auto simp: keeps_refl)
  next
    case 2
    let ?n = "\<lparr>ts_Children = [ts_cid a, ts_cid b], ts_Tx = None, ts_cid = cid_Undef L\<rparr>"
    obtain s1 c where 1: "PutSet S s ?n = (s1, Ok c)" "good s1" "keeps s s1" "GetSet S s1 c = Ok (?n\<lparr>ts_cid := cid_Undef L\<rparr>)"
      using put_set [OF less.prems(1), of ?n] unfolding keeps_def by blast
    then obtain ns where ns: "put_parents L S s1 rest = (s', Ok ns)" "nodes = ?n\<lparr>ts_cid := c\<rparr> # ns"
      using less.prems(2) 2 by (auto simp: Let_def split: prod.splits result.splits)
    have s': "good s'" "keeps s1 s'" "\<forall>n\<in>set ns. stored s' n" using less.hyps [OF _ 1(2) ns(1)] 2 by auto
    have "stored s1 (?n\<lparr>ts_cid := c\<rparr>)" using 1(4) by (simp add: stored_def)
    from stored_keeps [OF s'(2) this] keeps_trans [OF 1(3) s'(2)] s' ns(2) show ?thesis by simp
  qed
qed

lemma reduce_levels_stored:
  "good s \<Longrightarrow> \<forall>n\<in>set nodes. stored s n \<Longrightarrow> reduce_levels L S s nodes = (s', Ok ns) \<Longrightarrow> \<forall>n\<in>set ns. stored s' n"
proof (induction "length nodes" arbitrary: nodes s rule: less_induct)
  case less
  show ?case
  proof (cases "length nodes > 1")
    case False
    then show ?thesis using less.prems by (simp add: reduce_levels.simps [of L S s nodes])
  next
    case True
    then obtain s1 ps where 1: "put_parents L S s (pad_even nodes) = (s1, Ok ps)" "reduce_levels L S s1 ps = (s', Ok ns)"
      using less.prems(3) by (auto simp: reduce_levels.simps [of L S s nodes] split: prod.splits result.splits)
    have "length ps < length nodes" using put_parents_length [OF 1(1)] True by simp
    with less.hyps put_parents_stored [OF less.prems(1) 1(1)] 1(2) show ?thesis by blast
  qed
qed

lemma NewTxSet_stored:
  assumes "good s" and "NewTxSet L S s txs = (s', Ok root)"
  shows "stored s' root"
proof -
  from assms(2) obtain s1 nodes rest where 1: "put_leaves L S s (sort_cids L txs) = (s1, Ok nodes)"
    "reduce_levels L S s1 nodes = (s', Ok (root # rest))"
    by (auto simp: NewTxSet_def Let_def split: if_splits prod.splits result.splits list.splits)
  from put_leaves_stored [OF assms(1) 1(1)] reduce_levels_stored [OF _ _ 1(2)] show ?thesis by simp
qed

lemma ptree_root: "ptree G h c ts \<Longrightarrow> G c' = G c \<Longrightarrow> ptree G h c' ts"
  by (cases rule: ptree.cases) (auto intro: ptree.intros)

text \<open>Storing the root once more, as the block builder does, gives an identifier for the same tree.\<close>

theorem NewTxSet_PutSet_AllTx:
  assumes good: "good s" and txs: "txs \<noteq> []" "length txs \<le> MaxBlockTxCount"
    and held: "\<And>t. t \<in> set txs \<Longrightarrow> is_Ok (GetTx S s t)"
    and fin: "\<And>s. good s \<Longrightarrow> finite {c. is_Ok (GetSet S s c)}"
  shows "\<exists>s' root s'' c xs. NewTxSet L S s txs = (s', Ok root) \<and> PutSet S s' root = (s'', Ok c)
           \<and> allTx (GetSet S s'') (GetTx S s'') c = Ok xs \<and> fst ` set xs = set txs
           \<and> (\<forall>(k, t)\<in>set xs. GetTx S s k = Ok t)"
proof -
  from NewTxSet_tree [OF good txs] obtain s' root h z where
    n: "NewTxSet L S s txs = (s', Ok root)" "good s'" "keeps s s'"
       "ptree (GetSet S s') h (ts_cid root) (sort_cids L txs @ z)" "set z \<subseteq> set txs" by blast
  obtain s'' c where p: "PutSet S s' root = (s'', Ok c)" "good s''" "keeps s' s''"
      "GetSet S s'' c = Ok (root\<lparr>ts_cid := cid_Undef L\<rparr>)"
    using put_set [OF n(2), of root] unfolding keeps_def by blast
  have "GetSet S s'' c = GetSet S s'' (ts_cid root)"
    using p(4) stored_keeps [OF p(3) NewTxSet_stored [OF good n(1)]] by (simp add: stored_def)
  then have tree: "ptree (GetSet S s'') h c (sort_cids L txs @ z)"
    by (rule ptree_root [OF keeps_ptree [OF p(3) n(4)]])
  have leaves: "set (sort_cids L txs @ z) = set txs" using n(5) by (auto simp: sort_cids_def)
  have kept: "GetTx S s'' t = GetTx S s t" if "t \<in> set txs" for t
    using held [OF that] keeps_trans [OF n(3) p(3)] by (auto simp: keeps_def is_Ok_iff)
  have "card (set (sort_cids L txs @ z)) \<le> MaxBlockTxCount"
    using card_length [of txs] txs(2) leaves by simp
  moreover have "is_Ok (GetTx S s'' t)" if "t \<in> set (sort_cids L txs @ z)" for t
    using that held kept unfolding leaves by simp
  ultimately obtain xs where "allTx (GetSet S s'') (GetTx S s'') c = Ok xs" "fst ` set xs = set txs"
    "\<forall>(k, t)\<in>set xs. GetTx S s'' k = Ok t"
    using allTx_ptree [OF tree _ _ finite_set_reach [OF fin [OF p(2)]], of "GetTx S s''"] leaves by auto
  moreover from this have "\<forall>(k, t)\<in>set xs. GetTx S s k = Ok t" using kept by fastforce
  ultimately show ?thesis using n(1) p(1) by blast
qed

end

section \<open>Storing the transactions\<close>

text \<open>What the builder relies on of the codec, for a transaction of the pool.\<close>

definition storable :: "'z lib_scheme \<Rightarrow> Tx \<Rightarrow> bool" where
  "storable L t \<longleftrightarrow> tx_typed t \<and> codec_tx_ok L t"

lemma PutTx_storable:
  assumes "mem_good L m" and "storable L t"
  shows "\<exists>m' c. MemStore_PutTx L m t = (m', Ok c) \<and> mem_good L m' \<and> MemStore_GetTx L m' c = Ok t
     \<and> (\<forall>k u. MemStore_GetTx L m k = Ok u \<longrightarrow> MemStore_GetTx L m' k = Ok u)"
proof -
  obtain d where d: "mp_enc_tx L t = Some d" using assms(2) by (auto simp: storable_def codec_tx_ok_def)
  obtain m' c where p: "putObj L m (Some d) = (m', c)" by fastforce
  have "obj_keeps m m'" using assms(1) putObj_keeps [OF _ _ p] by (simp add: mem_good_def)
  moreover have "mem_good L m'" using assms(1) putObj_inv [of L m "Some d"] p by (simp add: mem_good_def)
  moreover have "MemStore_PutTx L m t = (m', Ok c)" using d p by (simp add: MemStore_PutTx_def)
  moreover from this have "MemStore_GetTx L m' c = Ok t"
    using PutTx_GetTx [of t L m] assms(2) by (simp add: storable_def)
  ultimately show ?thesis using GetTx_keeps by blast
qed

lemma putTxs_memstore:
  "mem_good L m \<Longrightarrow> \<forall>t\<in>set ts. storable L t \<Longrightarrow>
   \<exists>m' cs. putTxs (memstore L) ts m = (m', Ok cs) \<and> mem_good L m' \<and> length cs = length ts
     \<and> list_all2 (\<lambda>c t. MemStore_GetTx L m' c = Ok t) cs ts
     \<and> (\<forall>k u. MemStore_GetTx L m k = Ok u \<longrightarrow> MemStore_GetTx L m' k = Ok u)"
proof (induction ts arbitrary: m)
  case Nil
  then show ?case by (simp add: ret_def)
next
  case (Cons t ts)
  from PutTx_storable [OF Cons.prems(1), of t] Cons.prems(2) obtain m1 c where
    1: "MemStore_PutTx L m t = (m1, Ok c)" "mem_good L m1" "MemStore_GetTx L m1 c = Ok t"
       "\<forall>k u. MemStore_GetTx L m k = Ok u \<longrightarrow> MemStore_GetTx L m1 k = Ok u" by auto
  from Cons.IH [OF 1(2)] Cons.prems(2) obtain m2 cs where
    2: "putTxs (memstore L) ts m1 = (m2, Ok cs)" "mem_good L m2" "length cs = length ts"
       "list_all2 (\<lambda>c t. MemStore_GetTx L m2 c = Ok t) cs ts"
       "\<forall>k u. MemStore_GetTx L m1 k = Ok u \<longrightarrow> MemStore_GetTx L m2 k = Ok u" by auto
  have "putTxs (memstore L) (t # ts) m = (m2, Ok (c # cs))"
    using 1(1) 2(1) by (simp add: bindM_def wrapM_def ret_def)
  then show ?case using 1 2 by auto
qed

section \<open>The builder\<close>

lemma list_all2_images:
  assumes "list_all2 (\<lambda>c t. g c = Ok t) cs ts" and "fst ` set xs = set cs" and "\<forall>(c, t)\<in>set xs. g c = Ok t"
  shows "snd ` set xs = set ts"
proof
  show "snd ` set xs \<subseteq> set ts"
  proof
    fix t assume "t \<in> snd ` set xs"
    then obtain c where c: "(c, t) \<in> set xs" by auto
    then have "c \<in> set cs" using assms(2) by force
    then obtain i where "i < length cs" "cs ! i = c" by (auto simp: in_set_conv_nth)
    then have "ts ! i \<in> set ts" "g c = Ok (ts ! i)" using assms(1) by (auto simp: list_all2_conv_all_nth)
    then show "t \<in> set ts" using assms(3) c by fastforce
  qed
  show "set ts \<subseteq> snd ` set xs"
  proof
    fix t assume "t \<in> set ts"
    then obtain i where "i < length ts" "ts ! i = t" by (auto simp: in_set_conv_nth)
    then have "cs ! i \<in> set cs" "g (cs ! i) = Ok t" using assms(1) by (auto simp: list_all2_conv_all_nth)
    then show "t \<in> snd ` set xs" using assms(2,3) by force
  qed
qed

lemma makeBlock_memstore:
  assumes good: "mem_good L (c_store c)" and bloom: "bloom_ok L" and pool: "pool_ok (c_memPool c)"
    and some: "pool_txs (c_memPool c) \<noteq> {#}" and nonce: "env_nonce e = Some nonce"
    and ok: "\<forall>t\<in>#pool_txs (c_memPool c). storable L t"
  shows "\<exists>c' b ts xs. makeBlock L (memstore L) e c = (c', Ok (Some b))
     \<and> b_Parent b = st_Block (c_state c) \<and> b_Height b = Height (c_propsalState c)
     \<and> MemStore_AllTx L (c_store c') b = Ok xs \<and> snd ` set xs = set ts
     \<and> (\<forall>k\<in>fst ` set xs. BloomContains L (b_Bloom b) k = Ok True)
     \<and> pool_txs (c_memPool c) = mset ts + pool_txs (c_memPool c')
     \<and> length ts = min MaxBlockTxCount (size (pool_txs (c_memPool c)))
     \<and> (\<forall>t\<in>set ts. \<forall>u\<in>#pool_txs (c_memPool c'). tx_Ts t \<le> tx_Ts u)"
proof -
  define n where "n = (if TxMemPool_Len (c_memPool c) < MaxBlockTxCount then TxMemPool_Len (c_memPool c) else MaxBlockTxCount)"
  have n: "n = min MaxBlockTxCount (size (pool_txs (c_memPool c)))" "n \<noteq> 0"
    using txpool.Len_size [OF pool] nonempty_has_size [of "pool_txs (c_memPool c)"] some by (auto simp: n_def min_def)
  from txpool.drain_oldest [OF pool, of n] obtain ts q where
    d: "drain TxMemPool_GetTx n (c_memPool c) = Ok (ts, q)" "pool_txs (c_memPool c) = mset ts + pool_txs q"
       "length ts = min n (size (pool_txs (c_memPool c)))" "\<forall>t\<in>set ts. \<forall>u\<in>#pool_txs q. tx_Ts t \<le> tx_Ts u" by blast
  have "\<forall>t\<in>set ts. storable L t" using ok d(2) by simp
  from putTxs_memstore [OF good this] obtain m cs where
    m: "putTxs (memstore L) ts (c_store c) = (m, Ok cs)" "mem_good L m" "length cs = length ts"
       "list_all2 (\<lambda>c t. MemStore_GetTx L m c = Ok t) cs ts" by blast
  have len: "length ts = n" "cs \<noteq> []" "length cs \<le> MaxBlockTxCount" using d(3) m(3) n by auto
  have held: "is_Ok (GetTx (memstore L) m t)" if "t \<in> set cs" for t
    using m(4) that by (auto simp: list_all2_conv_all_nth in_set_conv_nth)
  have fin: "finite {c. is_Ok (GetSet (memstore L) s c)}" if "mem_good L s" for s
    using that finite_sets_inv [of L s] by (simp add: mem_good_def)
  from memsets.NewTxSet_PutSet_AllTx [OF m(2) len(2,3) held fin] obtain m1 root m2 k xs where
    t: "NewTxSet L (memstore L) m cs = (m1, Ok root)" "MemStore_PutSet L m1 root = (m2, Ok k)"
       "allTx (MemStore_GetSet L m2) (MemStore_GetTx L m2) k = Ok xs" "fst ` set xs = set cs"
       "\<forall>(k, t)\<in>set xs. MemStore_GetTx L m k = Ok t" by auto
  from MakeBloom_contains [OF bloom, of cs] obtain bl where
    bl: "MakeBloom L cs = Ok bl" "\<forall>t\<in>set cs. BloomContains L bl t = Ok True" by blast
  define b where "b = \<lparr>b_Version = Chain_Version, b_ID = cid_Undef L, b_Parent = st_Block (c_state c),
      b_Height = Height (c_propsalState c), b_CreatedAt = c_clock c div 1000000000, b_Proposer = peer_String L (c_id c),
      b_Signature = [], b_Nonce = nonce, b_Bloom = bl, b_TxRoot = k\<rparr>"
  have "makeBlock L (memstore L) e c = (c\<lparr>c_memPool := q, c_store := m2\<rparr>, Ok (Some b))"
    using nonce n(2) d(1) m(1) t(1,2) bl(1)
    by (simp add: makeBlock_def inspect_def n_def [symmetric] takeTxs_def bindM_def onStore_def wrapM_def lift_def
        ret_def b_def Let_def)
  moreover have "MemStore_AllTx L m2 b = Ok xs" using t(3) by (simp add: MemStore_AllTx_def allTxCids_def b_def)
  moreover have "snd ` set xs = set ts" using list_all2_images [OF m(4) t(4,5)] .
  moreover have "\<forall>k\<in>fst ` set xs. BloomContains L (b_Bloom b) k = Ok True" using t(4) bl(2) by (simp add: b_def)
  moreover have "length ts = min MaxBlockTxCount (size (pool_txs (c_memPool c)))" using len(1) n(1) by (simp only:)
  moreover have "b_Parent b = st_Block (c_state c)" "b_Height b = Height (c_propsalState c)" by (simp_all add: b_def)
  ultimately show ?thesis
    using d(2,4)
    by (intro exI [of _ "c\<lparr>c_memPool := q, c_store := m2\<rparr>"] exI [of _ b] exI [of _ ts] exI [of _ xs] conjI) simp_all
qed

end
