(* ===== verification/Demo_Net.thy ===== *)
theory Demo_Net
  imports Demo_Lib Consensus_Rounds
begin

text \<open>
  A run of a node, for examples: the node \<open>a\<close> follows the proposer \<open>p\<close> through a round, in which
  \<open>q\<close> votes, up to the commit of a block.
\<close>

definition net_tx :: Tx where
  "net_tx =
     \<lparr>tx_Version = 1, tx_Ts = 1, tx_From = ''did:web:a'', tx_Type = 3, tx_Action = 1,
      tx_Data = DataNode \<lparr>node_Id = ''p'', node_Did = ''did:web:a'', node_Key = string_bytes ''zk''\<rparr>,
      tx_Signature = []\<rparr>"

definition net_block :: Block where
  "net_block =
     \<lparr>b_Version = 1, b_ID = [], b_Parent = [], b_Height = 1, b_CreatedAt = 0, b_Proposer = ''p'', b_Signature = [],
      b_Nonce = [], b_Bloom = [], b_TxRoot = ''t''\<rparr>"

definition net_msg :: "peer_ID \<Rightarrow> body \<Rightarrow> Msg" where
  "net_msg p b =
     \<lparr>m_Type = MsgTypeConsensus, m_From = p, m_Chain = [], m_Tx = None, m_Block = None,
      m_Consensus = Some (wrapper b), m_Timestamp = 0, m_Signature = [], m_Key = []\<rparr>"

definition net_vote :: "uint8 \<Rightarrow> ConsensusMsgVote" where
  "net_vote t = \<lparr>v_Type = t, v_Height = 1, v_Round = 1, v_BlockID = ''by'', v_Timestamp = 0, v_Validator = ''q''\<rparr>"

definition net_bodies :: "Msg list" where
  "net_bodies =
     [net_msg ''p'' (BodyProposal \<lparr>pr_Height = 1, pr_Round = 1, pr_BlockID = ''by'', pr_Timestamp = 0\<rparr>),
      net_msg ''q'' (BodyVote (net_vote VoteTypePreVote)),
      net_msg ''q'' (BodyVote (net_vote VoteTypePreCommit)),
      net_msg ''p'' (BodyBlock \<lparr>cb_Height = 1, cb_Round = 1, cb_CID = ''by'', cb_Validators = [], cb_Signature = []\<rparr>)]"

definition net_signed :: "nat \<Rightarrow> Msg" where
  "net_signed i = (net_bodies ! i)\<lparr>m_Signature :=
     string_bytes ''k'' @ string_bytes (m_From (net_bodies ! i)) @ replicate i 0 @ [3]\<rparr>"

definition net_L :: clib where
  "net_L = demo [net_tx] [net_block] (net_bodies @ map net_signed [0, 1, 2, 3])"

definition net_store :: MemStore where
  "net_store = (NewMemStore net_L)\<lparr>ms_objects := [''n'' \<mapsto> [3], ''y'' \<mapsto> [3]],
     ms_nodes := [(''p'', ''n''), (''q'', ''n'')]\<rparr>"

definition net_V :: "MemStore Validator" where
  "net_V = \<lparr>V_IsBlockValid = (\<lambda>ord. Mock_IsBlockValid), V_IsTxValid = (\<lambda>s. Mock_IsTxValid)\<rparr>"

lemma net_L_sel:
  "cid_Undef net_L = []" "cid_String net_L = (\<lambda>c. CHR ''b'' # c)" "peer_String net_L = (\<lambda>p. p)"
  "peer_MarshalBinary net_L = (\<lambda>p. Some (string_bytes p))" "peer_Marshal net_L = (\<lambda>p. Some (string_bytes p))"
  "cid_Parse net_L ''by'' = Some ''y''" "mb_Decode net_L ''zk'' = Some (string_bytes ''k'')"
  "bls_Unmarshal net_L = (\<lambda>b. if b = [] then None else Some b)" "bls_Verify net_L = (\<lambda>pk msg sig. sig = pk @ msg)"
  "mp_dec_tx net_L = (\<lambda>k. at_position [net_tx])" "mp_dec_block net_L = at_position [net_block]"
  "mp_enc_msg net_L = position (net_bodies @ map net_signed [0, 1, 2, 3])"
  "mp_dec_msg net_L = at_position (net_bodies @ map net_signed [0, 1, 2, 3])"
  by (simp_all add: net_L_def demo_def)

lemma net_Node: "p \<in> {''p'', ''q''} \<Longrightarrow>
   MemStore_Node net_L net_store p
     = Ok \<lparr>node_Id = ''p'', node_Did = ''did:web:a'', node_Key = string_bytes ''zk''\<rparr>"
  by (auto simp: MemStore_Node_def net_store_def getObj_def Tx_Unmarshal_def net_L_sel net_tx_def)

lemma net_enc:
  assumes "i < 4"
  shows "mp_enc_msg net_L (net_bodies ! i) = Some (replicate i 0 @ [3])"
proof -
  consider "i = 0" | "i = Suc 0" | "i = Suc (Suc 0)" | "i = Suc (Suc (Suc 0))" using assms by linarith
  then show ?thesis
    by cases (simp_all add: net_L_sel net_bodies_def net_msg_def net_vote_def wrapper_def)
qed

lemma at_position_nth: "i < length xs \<Longrightarrow> at_position xs (replicate i 0 @ [3]) = Some (xs ! i)"
proof (induction xs arbitrary: i)
  case (Cons x xs)
  then show ?case by (cases i) simp_all
qed simp

lemma net_dec:
  assumes "i < 4"
  shows "mp_dec_msg net_L (replicate (4 + i) 0 @ [3]) = Some (net_signed i)"
proof -
  have len: "length net_bodies = 4" by (simp add: net_bodies_def)
  have "i \<in> {0, 1, 2, 3}" using assms by auto
  then have "map net_signed [0, 1, 2, 3] ! i = net_signed i" by auto
  then have "(net_bodies @ map net_signed [0, 1, 2, 3]) ! (4 + i) = net_signed i" using len by (simp add: nth_append)
  moreover have "4 + i < length (net_bodies @ map net_signed [0, 1, 2, 3])" using assms len by simp
  ultimately show ?thesis
    unfolding net_L_sel using at_position_nth [of "4 + i" "net_bodies @ map net_signed [0, 1, 2, 3]"] by (simp only:)
qed

lemma net_fields:
  assumes "i < 4"
  shows "m_Chain (net_bodies ! i) = []" and "m_Key (net_bodies ! i) = []" and "m_Signature (net_bodies ! i) = []"
    and "m_From (net_bodies ! i) \<in> {''p'', ''q''}" and "m_Type (net_bodies ! i) = MsgTypeConsensus"
proof -
  have "i \<in> {0, 1, 2, 3}" using assms by auto
  then show "m_Chain (net_bodies ! i) = []" "m_Key (net_bodies ! i) = []" "m_Signature (net_bodies ! i) = []"
    "m_From (net_bodies ! i) \<in> {''p'', ''q''}" "m_Type (net_bodies ! i) = MsgTypeConsensus"
    by (auto simp: net_bodies_def net_msg_def)
qed

lemma net_signed_fields:
  assumes "i < 4"
  shows "m_Signature (net_signed i) = string_bytes ''k'' @ string_bytes (m_From (net_bodies ! i)) @ replicate i 0 @ [3]"
    and "m_From (net_signed i) = m_From (net_bodies ! i)" and "m_Chain (net_signed i) = []"
  using net_fields [OF assms] by (simp_all add: net_signed_def)

lemma net_signatureData:
  assumes "i < 4"
  shows "signatureData net_L (net_signed i) = (net_signed i, Ok (replicate i 0 @ [3]))"
proof -
  have "(net_signed i)\<lparr>m_Signature := []\<rparr> = net_bodies ! i"
    using net_fields(3) [OF assms] by (simp add: net_signed_def)
  moreover have "(net_bodies ! i)\<lparr>m_Signature := m_Signature (net_signed i)\<rparr> = net_signed i" by (simp add: net_signed_def)
  ultimately show ?thesis using net_enc [OF assms] by (simp add: signatureData_def Msg_Marshal_def)
qed

text \<open>Messages are accepted whatever else the library takes for a key.\<close>

lemma net_check_keys:
  assumes "i < 4" and "c_chain c = []" and "c_store c = net_store" and "keys (string_bytes ''k'') = Some (string_bytes ''k'')"
  shows "checkMsg (net_L\<lparr>bls_Unmarshal := keys\<rparr>) (memstore net_L) c (net_signed i) = Ok True"
proof -
  have "signatureData (net_L\<lparr>bls_Unmarshal := keys\<rparr>) (net_signed i) = signatureData net_L (net_signed i)"
    by (simp add: signatureData_def Msg_Marshal_def)
  then show ?thesis
    using assms net_Node [OF net_fields(4) [OF assms(1)]] net_signed_fields [OF assms(1)] net_signatureData [OF assms(1)]
    by (simp add: checkMsg_def net_L_sel NewBls12381PublicKey_def Bls12381PublicKey_Verify_def)
qed

lemma net_check:
  assumes "i < 4" and "c_chain c = []" and "c_store c = net_store"
  shows "checkMsg net_L (memstore net_L) c (net_signed i) = Ok True"
proof -
  have "net_L\<lparr>bls_Unmarshal := bls_Unmarshal net_L\<rparr> = net_L" by simp
  moreover have "bls_Unmarshal net_L (string_bytes ''k'') = Some (string_bytes ''k'')" by (simp add: net_L_sel string_bytes_def)
  ultimately show ?thesis using net_check_keys [OF assms, of "bls_Unmarshal net_L"] by (simp only:)
qed

lemma net_receive:
  assumes "i < 4"
  shows "receive net_L ''a'' \<lparr>raw_From = string_bytes ''p'', raw_Data = replicate (4 + i) 0 @ [3], raw_Key = []\<rparr>
     = Some (net_signed i)"
proof -
  have "(net_signed i)\<lparr>m_Key := []\<rparr> = net_signed i" using net_fields(2) [OF assms] by (simp add: net_signed_def)
  then show ?thesis using net_dec [OF assms] by (simp add: receive_def net_L_sel)
qed

section \<open>The run\<close>

definition net_start :: "MemStore Consensus" where
  "net_start =
     \<lparr>c_chain = [], c_id = ''a'', c_signingKey = None, c_genesis = None, c_memPool = \<lparr>plist = []\<rparr>,
      c_store = net_store, c_state = zero_State net_L, c_propsalState = zero_State net_L,
      c_timerPropose = TimerStopped, c_timerPrevote = TimerStopped, c_timerPrecommit = TimerStopped,
      c_timerBlock = TimerStopped, c_topics = [pubsubTxChanName, pubsubMsgsChanName], c_clock = 0, c_sent = [],
      c_tasks = []\<rparr>"

text \<open>The monad's operations, evaluated on a state.\<close>

lemmas run_simps = andThen_def bindM_def ret_def inspect_def wrapM_def lift_def logged_def whenM_def modify_def
  modState_def

lemma net_last: "MemStore_GetLastApplied net_L net_store = Ok None"
  by (simp add: MemStore_GetLastApplied_def net_store_def NewMemStore_def)

lemma net_New: "NewConsensus net_L (memstore net_L) demo_env ''a'' net_store 0 [] = Ok (net_start\<lparr>c_topics := []\<rparr>)"
  by (simp add: NewConsensus_def NewTxMemPool_def heap_Init_def restoreState_def net_last blankConsensus_def
      setupTimers_def stopTimer_def net_start_def run_simps)

lemma net_Start: "Start demo_env (net_start\<lparr>c_topics := []\<rparr>) = (net_start, Ok ())"
  by (simp add: Start_def Msgs_def demo_env_def setupTimers_def stopTimer_def net_start_def run_simps)

definition net_round :: State where
  "net_round = clearVotes ((zero_State net_L)\<lparr>Height := 1, Round := 1\<rparr>)"

definition net_follow :: "MemStore Consensus" where
  "net_follow = net_start\<lparr>c_state := (zero_State net_L)\<lparr>Proposer := ''p''\<rparr>, c_propsalState := net_round,
     c_timerPropose := TimerRunning 60\<rparr>"

lemma net_beacon: "watchProposer net_L (memstore net_L) demo_env 0 net_start = (net_follow, Ok ())"
  by (simp add: watchProposer_def proposer_def net_start_def net_store_def NewMemStore_def MemStore_Nodes_def
      net_follow_def net_round_def startRound_def beginRound_def restartPropose_def restartTimer_def stopTimer_def
      timer_Reset_def setStep_def resetOnces_def once_Reset_def clearVotes_def zero_State_def net_L_sel run_simps)

definition net_voting :: "MemStore Consensus" where
  "net_voting = net_follow\<lparr>c_propsalState := net_round\<lparr>st_Block := ''y'', st_Step := prevote, pvOnce := \<lparr>once_done = 1\<rparr>\<rparr>,
     c_timerPropose := TimerStopped, c_timerPrevote := TimerRunning 60\<rparr>"

lemma net_GetBlock: "MemStore_GetBlock net_L net_store ''y'' = Ok net_block"
  by (simp add: MemStore_GetBlock_def net_store_def getObj_def net_L_sel)

lemma net_proposal: "onMsg net_L (memstore net_L) net_V demo_env (net_signed 0) net_follow = (net_voting, Ok ())"
proof -
  have "checkMsg net_L (memstore net_L) net_follow (net_signed 0) = Ok True"
    by (rule net_check) (simp_all add: net_follow_def net_start_def)
  then show ?thesis
    by (simp add: onMsg_def net_signed_def net_bodies_def net_msg_def wrapper_def onConsensusMsg_def onProposal_def
      validate_def orUndef_def doOnce_def once_Do_def acceptProposal_def sendVote_def sendMsg_def net_L_sel
      net_follow_def net_start_def net_round_def net_voting_def zero_State_def clearVotes_def onStore_def net_GetBlock
      net_V_def Mock_IsBlockValid_def restartPrevote_def restartTimer_def stopTimer_def timer_Reset_def setStep_def run_simps)
qed

definition net_locked :: "MemStore Consensus" where
  "net_locked = net_voting\<lparr>c_propsalState := (c_propsalState net_voting)\<lparr>PreVotes := Some [(''q'', net_signed 1)],
       st_Step := precommit, lockedValue := ''y'', lockedRound := 1, pcOnce := \<lparr>once_done = 1\<rparr>\<rparr>,
     c_timerPrevote := TimerStopped, c_timerPrecommit := TimerRunning 60\<rparr>"

definition net_ended :: "MemStore Consensus" where
  "net_ended = net_locked\<lparr>c_propsalState := (c_propsalState net_locked)\<lparr>PreCommits := Some [(''q'', net_signed 2)],
       st_Step := block, sbOnce := \<lparr>once_done = 1\<rparr>\<rparr>,
     c_timerPrecommit := TimerStopped, c_timerBlock := TimerRunning 60\<rparr>"

definition net_done :: "MemStore Consensus" where
  "net_done = net_ended\<lparr>c_state := (c_state net_ended)\<lparr>Height := 1, ParentBlock := [], st_Block := ''y''\<rparr>,
     c_timerBlock := TimerStopped,
     c_store := net_store\<lparr>ms_bState := [''y'' \<mapsto> BlockStateAccepted], ms_lastBlock := ''y''\<rparr>\<rparr>"

lemma net_nth: "net_bodies ! Suc 0 = net_msg ''q'' (BodyVote (net_vote VoteTypePreVote))"
  "net_bodies ! 2 = net_msg ''q'' (BodyVote (net_vote VoteTypePreCommit))"
  "net_bodies ! 3 = net_msg ''p'' (BodyBlock \<lparr>cb_Height = 1, cb_Round = 1, cb_CID = ''by'', cb_Validators = [],
     cb_Signature = []\<rparr>)"
  by (simp_all add: net_bodies_def)

lemmas net_states = net_start_def net_follow_def net_round_def net_voting_def net_locked_def net_ended_def
  zero_State_def clearVotes_def

lemma net_prevote: "onMsg net_L (memstore net_L) net_V demo_env (net_signed 1) net_voting = (net_locked, Ok ())"
proof -
  have "checkMsg net_L (memstore net_L) net_voting (net_signed 1) = Ok True"
    by (rule net_check) (simp_all add: net_states)
  then show ?thesis
    by (simp add: onMsg_def net_signed_def net_nth net_msg_def wrapper_def net_vote_def onConsensusMsg_def onVote_def
      onPreVote_def putPreVote_def votes_len_def votes_of_def doOnce_def once_Do_def lockBlock_def sendVote_def
      sendMsg_def net_L_sel net_states restartPrecommit_def restartTimer_def stopTimer_def timer_Reset_def setStep_def
      run_simps)
qed

lemma net_precommit: "onMsg net_L (memstore net_L) net_V demo_env (net_signed 2) net_locked = (net_ended, Ok ())"
proof -
  have "checkMsg net_L (memstore net_L) net_locked (net_signed 2) = Ok True"
    by (rule net_check) (simp_all add: net_states)
  then show ?thesis
    by (simp add: onMsg_def net_signed_def net_nth net_msg_def wrapper_def net_vote_def onConsensusMsg_def onVote_def
      onPreCommit_def putPreCommit_def votes_len_def votes_of_def doOnce_def once_Do_def endVotes_def net_L_sel
      net_states restartBlock_def restartTimer_def stopTimer_def timer_Reset_def setStep_def run_simps)
qed

lemma net_mark: "MemStore_MarkBlock net_L ord net_store ''y'' BlockStateAccepted
   = (net_store\<lparr>ms_bState := [''y'' \<mapsto> BlockStateAccepted]\<rparr>, Ok ())"
  by (simp add: MemStore_MarkBlock_def net_store_def NewMemStore_def)

lemma net_commit: "onMsg net_L (memstore net_L) net_V demo_env (net_signed 3) net_ended = (net_done, Ok ())"
proof -
  have "checkMsg net_L (memstore net_L) net_ended (net_signed 3) = Ok True"
    by (rule net_check) (simp_all add: net_states)
  then show ?thesis
    by (simp add: onMsg_def net_signed_def net_nth net_msg_def wrapper_def onConsensusMsg_def onBlock_def acceptBlock_def
      onStore_def net_mark MemStore_UpdateLastApplied_def commit_def net_done_def net_L_sel net_states stopTimer_def
      run_simps)
qed

lemma net_step:
  assumes "i < 4" and "c_id c = ''a''" and "onMsg net_L (memstore net_L) net_V demo_env (net_signed i) c = (c', Ok ())"
  shows "cstep net_L (memstore net_L) net_V c c'"
  using cstep.msg [OF _ assms(3)] net_receive [OF assms(1)] assms(2) by simp

lemma net_cstep:
  "cstep net_L (memstore net_L) net_V net_start net_follow" "cstep net_L (memstore net_L) net_V net_follow net_voting"
  "cstep net_L (memstore net_L) net_V net_voting net_locked" "cstep net_L (memstore net_L) net_V net_locked net_ended"
  "cstep net_L (memstore net_L) net_V net_ended net_done"
  using cstep.beacon [OF net_beacon] net_step [OF _ _ net_proposal] net_step [OF _ _ net_prevote]
    net_step [OF _ _ net_precommit] net_step [OF _ _ net_commit]
  by (simp_all add: net_states)

lemma net_reachable:
  "reachable net_L (memstore net_L) net_V net_voting" "reachable net_L (memstore net_L) net_V net_locked"
  "reachable net_L (memstore net_L) net_V net_ended" "reachable net_L (memstore net_L) net_V net_done"
proof -
  note r0 = reachable.start [OF net_New net_Start]
  note r1 = reachable.step [OF r0 net_cstep(1)]
  note r2 = reachable.step [OF r1 net_cstep(2)]
  note r3 = reachable.step [OF r2 net_cstep(3)]
  note r4 = reachable.step [OF r3 net_cstep(4)]
  note r5 = reachable.step [OF r4 net_cstep(5)]
  show "reachable net_L (memstore net_L) net_V net_voting" "reachable net_L (memstore net_L) net_V net_locked"
    "reachable net_L (memstore net_L) net_V net_ended" "reachable net_L (memstore net_L) net_V net_done"
    by (rule r2 r3 r4 r5)+
qed

end
