(* ===== verification/Validator_Laws.thy ===== *)
theory Validator_Laws
  imports MemStore_Laws Validator_Model
begin

text \<open>
  What an accepted transaction and an accepted block satisfy, over any store, and what the checks
  leave behind in the in-memory store.
\<close>

section \<open>Transactions of DIDs\<close>

text \<open>The message a DID transaction's signature is over: the transaction without its signature.\<close>

definition unsigned_bytes :: "'z lib_scheme \<Rightarrow> Tx \<Rightarrow> bytes result" where
  "unsigned_bytes L t = Tx_Marshal L (t\<lparr>tx_Signature := []\<rparr>)"

definition vouched :: "'z lib_scheme \<Rightarrow> Document \<Rightarrow> Tx \<Rightarrow> bool" where
  "vouched L doc t \<longleftrightarrow>
     (\<exists>msg. unsigned_bytes L t = Ok msg \<and> (\<exists>vm\<in>set (doc_VerificationMethod doc). vouches L vm (tx_Signature t) msg))"

lemma Document_Signed_sound:
  "Document_Signed L doc sig msg = Ok () \<Longrightarrow> \<exists>vm\<in>set (doc_VerificationMethod doc). vouches L vm sig msg"
  by (auto simp: Document_Signed_def split: if_splits dest: signed_by_sound)

lemma isDIDTxValid_Ok:
  assumes "snd (isDIDTxValid L S s t) = Ok ()"
  shows "\<exists>d doc msg. tx_Data t = DataDID d \<and> did_Document d = Some doc \<and> unsigned_bytes L t = Ok msg
     \<and> Document_IsValid L doc = Ok ()
     \<and> (tx_Action t = TxActionAdd \<and> LookupDID S s (doc_ID doc) = Err ErrNotFound
           \<and> Document_Signed L doc (tx_Signature t) msg = Ok ()
        \<or> tx_Action t \<in> {TxActionUpdate, TxActionRevoke}
           \<and> ((\<exists>old. LookupDID S s (doc_ID doc) = Ok (Some old) \<and> Document_Signed L old (tx_Signature t) msg = Ok ())
              \<or> (\<exists>e. LookupDID S s (doc_ID doc) = Err e \<and> errors_Wrap_nil L ''tx validation'' = None)))"
  using assms unfolding isDIDTxValid_def unsigned_bytes_def
  by (auto simp: Let_def wrap_Ok split: TxData.splits option.splits result.splits if_splits)

lemma isDIDTxValid_tx:
  "fst (isDIDTxValid L S s t) = t \<or> fst (isDIDTxValid L S s t) = t\<lparr>tx_Signature := []\<rparr>"
  by (auto simp: isDIDTxValid_def Let_def split: TxData.splits option.splits result.splits)

lemma IsTxValid_tx:
  "fst (IsTxValid L S s t) = t \<or> fst (IsTxValid L S s t) = t\<lparr>tx_Signature := []\<rparr>"
  using isDIDTxValid_tx [of L S s t] by (auto simp: IsTxValid_def)

lemma IsTxValid_Ok:
  assumes "snd (IsTxValid L S s t) = Ok ()"
  shows "tx_Version t = Version1 \<and> tx_Ts t \<noteq> 0 \<and> tx_From t \<noteq> [] \<and> tx_Data t \<noteq> DataNil
     \<and> (tx_Type t = TxType_DID \<and> snd (isDIDTxValid L S s t) = Ok () \<or> tx_Type t = TxType_VC)"
  using assms by (auto simp: IsTxValid_def isNodeTxValid_def split: if_splits)

section \<open>Blocks\<close>

text \<open>
  The transactions of a block, in the order they were ranged over, were each valid on the store
  the earlier ones had been applied to.
\<close>

fun valid_run :: "'z lib_scheme \<Rightarrow> 's Store \<Rightarrow> bool \<Rightarrow> 's \<Rightarrow> (cid \<times> Tx) list \<Rightarrow> bool" where
  "valid_run L S new s [] = True"
| "valid_run L S new s ((c, t) # txs) =
     (snd (IsTxValid L S s t) = Ok ()
      \<and> (new \<longrightarrow> (\<exists>e. GetTxBlock S s c = Err e \<and> errors_Is e ErrNotFound))
      \<and> snd (ApplyTx S s c (fst (IsTxValid L S s t))) = Ok ()
      \<and> valid_run L S new (fst (ApplyTx S s c (fst (IsTxValid L S s t)))) txs)"

lemma check_txs_Ok: "snd (check_txs L S new s txs) = Ok () \<longleftrightarrow> valid_run L S new s txs"
proof (induction L S new s txs rule: check_txs.induct)
  case (2 L S new s c t txs)
  then show ?case
    by (auto simp: wrap_Ok split: prod.splits result.splits if_splits)
qed simp

lemma valid_run_tx:
  "valid_run L S new s txs \<Longrightarrow> (c, t) \<in> set txs \<Longrightarrow> \<exists>s'. snd (IsTxValid L S s' t) = Ok ()"
  by (induction L S new s txs rule: valid_run.induct) auto

lemma complete_test_Ok: "complete_test S s r = (s', Ok ()) \<Longrightarrow> r = Ok () \<and> s' = fst (CompleteTest S s)"
  by (auto simp: complete_test_def split: prod.splits result.splits)

lemma IsBlockValid_Ok:
  assumes "IsBlockValid L S ord s b new = (s', Ok ())"
  shows "\<exists>s1 u txs test. MarkBlock S ord s (b_ID b) BlockStateUnvalidated = (s1, Ok u)
     \<and> AllTx S s1 b = Ok txs \<and> StartTest S s1 = Ok test \<and> valid_run L S new test (ord txs)
     \<and> s' = fst (CompleteTest S s1)"
proof -
  obtain s1 u txs test where
    1: "MarkBlock S ord s (b_ID b) BlockStateUnvalidated = (s1, Ok u)" "AllTx S s1 b = Ok txs"
       "StartTest S s1 = Ok test" and
    2: "complete_test S s1
          (case check_txs L S new test (ord txs) of
             (test', Ok _) \<Rightarrow> wrap ''marking block validated'' (snd (MarkBlock S ord test' (b_ID b) BlockStateValidated))
           | (test', r) \<Rightarrow> r) = (s', Ok ())"
    using assms by (auto simp: IsBlockValid_def wrap_Ok split: prod.splits result.splits)
  from complete_test_Ok [OF 2] have "snd (check_txs L S new test (ord txs)) = Ok ()"
    and "s' = fst (CompleteTest S s1)" by (auto split: prod.splits result.splits)
  then show ?thesis using 1 by (auto simp: check_txs_Ok)
qed

section \<open>On the in-memory store\<close>

text \<open>Validation marks the block as validated on the test store only.\<close>

lemma IsBlockValid_mem_state:
  "fst (IsBlockValid L (memstore L) ord m b new) =
     m\<lparr>ms_bState := (ms_bState m)(b_ID b \<mapsto> BlockStateUnvalidated)\<rparr>"
proof -
  let ?m = "m\<lparr>ms_bState := (ms_bState m)(b_ID b \<mapsto> BlockStateUnvalidated)\<rparr>"
  have "MemStore_MarkBlock L ord m (b_ID b) BlockStateUnvalidated = (?m, Ok ())"
    by (simp add: MemStore_MarkBlock_def Let_def)
  moreover have "fst (complete_test (memstore L) m' r) = m'" for m' r
    by (simp add: complete_test_def MemStore_CompleteTest_def)
  ultimately show ?thesis by (auto simp: IsBlockValid_def split: result.splits)
qed

text \<open>Blocks of the real store never reach the state in which acceptance indexes them.\<close>

definition none_validated :: "MemStore \<Rightarrow> bool" where
  "none_validated m \<longleftrightarrow> (\<forall>c. ms_bState m c \<noteq> Some BlockStateValidated)"

lemma IsBlockValid_none_validated:
  "none_validated m \<Longrightarrow> none_validated (fst (IsBlockValid L (memstore L) ord m b new))"
  by (simp add: IsBlockValid_mem_state none_validated_def)

lemma MarkBlock_none_validated:
  assumes "none_validated m" and "st \<noteq> BlockStateValidated"
  shows "none_validated (fst (MemStore_MarkBlock L ord m c st))"
    and "ms_txbIndex (fst (MemStore_MarkBlock L ord m c st)) = ms_txbIndex m"
  using assms MarkBlock_unvalidated [of m c L ord st] by (auto simp: none_validated_def)

text \<open>Replaying any queue of blocks indexes no transaction.\<close>

lemma apply_blocks_index:
  "none_validated m \<Longrightarrow> none_validated (fst (apply_blocks L (memstore L) vord mord m i bs))
     \<and> ms_txbIndex (fst (apply_blocks L (memstore L) vord mord m i bs)) = ms_txbIndex m"
proof (induction L "memstore L" vord mord m i bs rule: apply_blocks.induct)
  case (2 L vord mord m i b bs)
  obtain m1 r1 where 1: "IsBlockValid L (memstore L) (vord i) m b True = (m1, r1)" by fastforce
  have m1: "none_validated m1" "ms_txbIndex m1 = ms_txbIndex m"
    using IsBlockValid_none_validated [OF 2(2), of L "vord i" b True]
      IsBlockValid_mem_state [of L "vord i" m b True] 1 by auto
  obtain m2 r2 where m2: "MemStore_MarkBlock L (mord i) m1 (b_ID b) BlockStateAccepted = (m2, r2)" by fastforce
  have "none_validated m2" "ms_txbIndex m2 = ms_txbIndex m"
    using MarkBlock_none_validated [OF m1(1), of BlockStateAccepted L "mord i" "b_ID b"] m2 m1(2) by auto
  then show ?case using 1 m1 m2 2(1) by (auto split: result.splits)
qed simp

end
