(* ===== verification/Did_Props.thy ===== *)
theory Did_Props
  imports Storage_Props
begin

text \<open>
  Properties of DID URLs and documents, of the encoding of transactions and of the pool of pending
  transactions.
\<close>

section \<open>DID URLs and documents\<close>

text \<open>
  C34. The method and the identifier of a DID are read back from the DID made of them, for parts
  without control characters, query or fragment.
\<close>

theorem did_url_roundtrip:
  assumes "plain_chars (m @ CHR '':'' # i)" and "CHR '':'' \<notin> set m" and "\<not> has_prefix ''/'' m"
  shows "URL_Method L (''did:'' @ m @ CHR '':'' # i) = Ok m \<and> URL_Id L (''did:'' @ m @ CHR '':'' # i) = Ok i"
proof -
  have "\<not> has_prefix ''/'' (m @ CHR '':'' # i)" using assms(3) by (cases m) (auto simp: has_prefix_def)
  from url_Parse_did [OF assms(1) this, of L] show ?thesis
    by (simp add: URL_Method_def URL_Id_def cut_at [OF assms(2)])
qed

theorem did_url_roundtrip_witness:
  "URL_Method demo_L (''did:'' @ ''web'' @ CHR '':'' # ''example.com'') = Ok ''web''
   \<and> URL_Id demo_L (''did:'' @ ''web'' @ CHR '':'' # ''example.com'') = Ok ''example.com''"
  by (rule did_url_roundtrip) (simp_all add: plain_chars_def ctl_char_def has_prefix_def)

text \<open>A URL that has a method and an identifier.\<close>

definition named_url :: "'z lib_scheme \<Rightarrow> string \<Rightarrow> bool" where
  "named_url L u \<longleftrightarrow> (\<exists>p m i. url_Parse L u = Some p \<and> u_Opaque p = m @ CHR '':'' # i
     \<and> CHR '':'' \<notin> set m \<and> m \<noteq> [] \<and> i \<noteq> [])"

text \<open>
  C32. A document is accepted exactly when its identifier has a method and an id, every verification
  method of its six lists has a type and such an identifier and controller, and every service is
  complete.
\<close>

theorem Document_IsValid_iff:
  "Document_IsValid L d = Ok () \<longleftrightarrow>
     named_url L (doc_ID d)
   \<and> (\<forall>v\<in>set (doc_vms d). vm_Type v \<noteq> [] \<and> named_url L (vm_ID v) \<and> named_url L (vm_Controller v))
   \<and> (\<forall>s\<in>set (doc_Service d). svc_ID s \<noteq> [] \<and> svc_Type s \<noteq> [] \<and> svc_ServiceEndpoint s \<noteq> [])"
proof -
  have named: "url_unnamed L u = Ok False \<longleftrightarrow> named_url L u" for u
    by (simp add: url_unnamed_False named_url_def)
  have "\<not> named_url L []"
    by (auto simp: named_url_def url_Parse_def cut_def url_parse_main_def getScheme_def Let_def has_prefix_def
        split: option.splits if_splits)
  moreover have "bindr (url_unnamed L u) (\<lambda>bad. if bad then Err ErrInvalid else r) = Ok () \<longleftrightarrow>
      url_unnamed L u = Ok False \<and> r = Ok ()" for u r
    by (cases "url_unnamed L u") auto
  ultimately show ?thesis
    by (auto simp: Document_IsValid_def bindr_Ok vms_valid_Ok services_valid_Ok named)
qed

lemma demo_named: "named_url L ''did:web:a''"
proof -
  have p: "url_Parse L ''did:web:a'' = Some \<lparr>u_Opaque = ''web:a'', u_RawQuery = [], u_Fragment = []\<rparr>"
    using url_Parse_did [of "''web:a''" L]
    by (simp add: plain_chars_def ctl_char_def has_prefix_def)
  show ?thesis
    unfolding named_url_def
    by (rule exI, rule exI [of _ "''web''"], rule exI [of _ "''a''"], rule conjI, rule p, simp)
qed

theorem Document_IsValid_iff_witness: "Document_IsValid demo_L demo_doc = Ok ()"
  using Document_IsValid_iff [of demo_L demo_doc] demo_named by (simp add: demo_doc_def doc_vms_def)

text \<open>
  A document whose identifier starts with a colon is not refused: \<^verbatim>\<open>url.Parse\<close> returns a nil URL
  with its error, and the check dereferences it.
\<close>

theorem Document_IsValid_panics: "doc_ID d = CHR '':'' # r \<Longrightarrow> Document_IsValid L d = Panic"
  by (simp add: Document_IsValid_def url_unnamed_def URL_Id_def url_Parse_colon)

theorem Document_IsValid_panics_witness: "Document_IsValid demo_L (demo_doc\<lparr>doc_ID := '':x''\<rparr>) = Panic"
  by (rule Document_IsValid_panics) simp

text \<open>
  C33. A signature is accepted for a document exactly when some verification method of it vouches for
  it under the scheme of its type, provided no key of the document makes its scheme panic.
\<close>

theorem Document_Signed_iff:
  assumes "\<forall>v\<in>set (doc_VerificationMethod d). \<forall>f. validators L (vm_Type v) = Some f \<longrightarrow> f v sig msg \<notin> {Panic, Diverge}"
  shows "Document_Signed L d sig msg = Ok () \<longleftrightarrow> (\<exists>v\<in>set (doc_VerificationMethod d). vouches L v sig msg)"
  using signed_by_sound [of L "doc_VerificationMethod d" sig msg]
    signed_by_complete [OF _ _ assms] by (auto simp: Document_Signed_def)

theorem Document_Signed_iff_witness:
  "Document_Signed demo_L demo_doc (string_bytes ''k'' @ [3]) [3] = Ok ()"
proof -
  have "\<exists>v\<in>set (doc_VerificationMethod demo_doc). vouches demo_L v (string_bytes ''k'' @ [3]) [3]"
    by (simp add: demo_doc_def vouches_def validators_def ValidateBls12381_def decodeMultibase_def demo_def
        NewBls12381PublicKey_def Bls12381PublicKey_Verify_def string_bytes_def)
  moreover have "\<forall>v\<in>set (doc_VerificationMethod demo_doc). \<forall>f. validators demo_L (vm_Type v) = Some f \<longrightarrow>
      f v (string_bytes ''k'' @ [3]) [3] \<notin> {Panic, Diverge}"
    by (simp add: demo_doc_def validators_def ValidateBls12381_def decodeMultibase_def demo_def
        NewBls12381PublicKey_def Bls12381PublicKey_Verify_def string_bytes_def)
  ultimately show ?thesis using Document_Signed_iff [of demo_doc demo_L "string_bytes ''k'' @ [3]" "[3]"] by blast
qed

text \<open>
  An Ed25519 key that does not decode to 32 bytes does not make the signature invalid: checking
  any signature against a document that has it first panics.
\<close>

theorem Document_Signed_panics:
  assumes "doc_VerificationMethod d = v # vs" and "vm_Type v = Ed25519VerificationKey2018"
    and "mb_Decode L (vm_PublicKeyMultibase v) = Some pk" and "length pk \<noteq> 32"
  shows "Document_Signed L d sig msg = Panic"
  using assms by (simp add: Document_Signed_def validators_def ValidateEd25519_def decodeMultibase_def)

theorem Document_Signed_panics_witness:
  "Document_Signed demo_L (demo_doc\<lparr>doc_VerificationMethod := [\<lparr>vm_ID = [], vm_Type = ''Ed25519VerificationKey2018'',
     vm_Controller = [], vm_PublicKeyJwk = None, vm_PublicKeyMultibase = ''zk''\<rparr>]\<rparr>) [] [] = Panic"
  by (rule Document_Signed_panics, simp, simp, simp add: demo_def, simp add: string_bytes_def)

section \<open>Transactions\<close>

text \<open>
  A transaction with the payload of its type is read back from its bytes as it was, and bytes
  whose header has none of the three types are refused.
\<close>

theorem Tx_roundtrip:
  "(tx_typed t \<and> codec_tx_ok L t \<longrightarrow> (\<exists>b. Tx_Marshal L t = Ok b \<and> Tx_Unmarshal L b = Ok t))
   \<and> (mp_dec_tx L KindRaw b = Some t0 \<and> tx_Type t0 \<notin> {TxType_DID, TxType_VC, TxType_Node} \<longrightarrow>
        Tx_Unmarshal L b = Err (ErrNew ''unknown tx data type''))"
  using Tx_Unmarshal_Marshal [of t L] by (auto simp: Tx_Unmarshal_def)

theorem Tx_roundtrip_witness:
  "(\<exists>b. Tx_Marshal demo_L demo_tx = Ok b \<and> Tx_Unmarshal demo_L b = Ok demo_tx)
   \<and> Tx_Unmarshal (demo [demo_tx\<lparr>tx_Type := 9\<rparr>] [] []) [3] = Err (ErrNew ''unknown tx data type'')"
  using Tx_roundtrip [of demo_tx demo_L]
    Tx_roundtrip [of _ "demo [demo_tx\<lparr>tx_Type := 9\<rparr>] [] []" "[3]" "demo_tx\<lparr>tx_Type := 9\<rparr>"] demo_codec
  by (simp add: demo_def)

section \<open>The pool of pending transactions\<close>

text \<open>Adding transactions one after the other.\<close>

fun add_all :: "Tx list \<Rightarrow> TxMemPool \<Rightarrow> TxMemPool result" where
  "add_all [] p = Ok p"
| "add_all (t # ts) p = bindr (TxMemPool_AddTx p (Some t) 0) (add_all ts)"

lemma add_all_txs: "pool_ok p \<Longrightarrow> \<exists>q. add_all ts p = Ok q \<and> pool_ok q \<and> pool_txs q = pool_txs p + mset ts"
proof (induction ts arbitrary: p)
  case (Cons t ts)
  obtain q where q: "TxMemPool_AddTx p (Some t) 0 = Ok q" "pool_ok q" "pool_txs q = add_mset t (pool_txs p)"
    using txpool.AddTx_adds [OF Cons.prems] by blast
  from Cons.IH [OF q(2)] show ?case using q by auto
qed simp

text \<open>
  C31. Whatever the order in which transactions reach a new pool, taking them all out yields each of
  them once, in the order of their timestamps.
\<close>

theorem pool_orders:
  "\<exists>p q ts'. bindr NewTxMemPool (add_all ts) = Ok p \<and> drain TxMemPool_GetTx (length ts) p = Ok (ts', q)
     \<and> mset ts' = mset ts \<and> sorted (map tx_Ts ts') \<and> TxMemPool_Len q = 0"
proof -
  obtain p0 where p0: "NewTxMemPool = Ok p0" "pool_ok p0" "pool_txs p0 = {#}" using NewTxMemPool_ok by blast
  obtain p where p: "add_all ts p0 = Ok p" "pool_ok p" "pool_txs p = mset ts"
    using add_all_txs [OF p0(2)] p0(3) by auto
  obtain ts' q where d: "drain TxMemPool_GetTx (length ts) p = Ok (ts', q)" "pool_ok q"
      "pool_txs p = mset ts' + pool_txs q" "length ts' = min (length ts) (size (pool_txs p))" "sorted (map tx_Ts ts')"
    using txpool.drain_oldest [OF p(2)] by blast
  have "pool_txs q = {#}" using d(3,4) p(3) by (metis add_cancel_left_right min.idem size_mset size_union size_eq_0_iff_empty)
  moreover have "TxMemPool_Len q = size (pool_txs q)" using txpool.Len_size [OF d(2)] .
  ultimately have "bindr NewTxMemPool (add_all ts) = Ok p \<and> drain TxMemPool_GetTx (length ts) p = Ok (ts', q)
     \<and> mset ts' = mset ts \<and> sorted (map tx_Ts ts') \<and> TxMemPool_Len q = 0"
    unfolding p0(1) bindr.simps using p d by simp
  then show ?thesis by blast
qed

text \<open>
  What a pool gives up first is what is oldest: of a pool with any content, taking out \<open>n\<close>
  transactions leaves only younger ones (or equally old), and loses none.
\<close>

theorem pool_takes_oldest:
  assumes "pool_ok p"
  shows "\<exists>ts q. drain TxMemPool_GetTx n p = Ok (ts, q) \<and> pool_ok q \<and> pool_txs p = mset ts + pool_txs q
           \<and> length ts = min n (size (pool_txs p)) \<and> (\<forall>t\<in>set ts. \<forall>u\<in>#pool_txs q. tx_Ts t \<le> tx_Ts u)"
  using txpool.drain_oldest [OF assms, of n] by blast

theorem pool_takes_oldest_witness:
  "\<exists>ts q. drain TxMemPool_GetTx 1 \<lparr>plist = [Some demo_tx]\<rparr> = Ok (ts, q) \<and> pool_ok q
     \<and> pool_txs \<lparr>plist = [Some demo_tx]\<rparr> = mset ts + pool_txs q
     \<and> length ts = min 1 (size (pool_txs \<lparr>plist = [Some demo_tx]\<rparr>)) \<and> (\<forall>t\<in>set ts. \<forall>u\<in>#pool_txs q. tx_Ts t \<le> tx_Ts u)"
  by (rule pool_takes_oldest) (simp add: pool_ok_def is_heap_small)

text \<open>
  A message without a transaction adds a nil pointer: the next \<^verbatim>\<open>AddTx\<close> on a pool that holds
  something compares with it and panics.
\<close>

theorem AddTx_nil_panics: "plist p \<noteq> [] \<Longrightarrow> TxMemPool_AddTx p None e = Panic"
proof -
  assume "plist p \<noteq> []"
  then obtain n where n: "length (plist p) = Suc n" by (cases "plist p") auto
  then have "parent (length (plist p)) \<noteq> length (plist p)" by (simp add: parent_def)
  then show ?thesis
    by (simp add: TxMemPool_AddTx_def heap_Push_def heap_up.simps [of _ "plist p @ [None]"] Let_def)
qed

theorem AddTx_nil_panics_witness: "TxMemPool_AddTx \<lparr>plist = [Some demo_tx]\<rparr> None 0 = Panic"
  by (rule AddTx_nil_panics) simp

end
