(* ===== verification/Validator_Props.thy ===== *)
theory Validator_Props
  imports Validator_Laws Did_Props
begin

text \<open>
  Properties of the validator: what an accepted transaction and an accepted block satisfy, where the
  checks do not check, and what validation leaves in the in-memory store.
\<close>

section \<open>Transactions\<close>

text \<open>
  C25. A transaction that adds a DID is accepted only if its header is complete, the DID is not yet
  registered, its document is well formed, and a key of that document signed the transaction.
\<close>

theorem add_DID_accepted:
  assumes "snd (IsTxValid L S s t) = Ok ()" and "tx_Type t = TxType_DID" and "tx_Action t = TxActionAdd"
  shows "\<exists>d doc. tx_Data t = DataDID d \<and> did_Document d = Some doc
           \<and> tx_Version t = Version1 \<and> tx_Ts t \<noteq> 0 \<and> tx_From t \<noteq> []
           \<and> LookupDID S s (doc_ID doc) = Err ErrNotFound \<and> Document_IsValid L doc = Ok () \<and> vouched L doc t"
proof -
  have did: "snd (isDIDTxValid L S s t) = Ok ()" and head: "tx_Version t = Version1 \<and> tx_Ts t \<noteq> 0 \<and> tx_From t \<noteq> []"
    using IsTxValid_Ok [OF assms(1)] assms(2) by auto
  from isDIDTxValid_Ok [OF did] assms(3) obtain d doc msg where
    "tx_Data t = DataDID d" "did_Document d = Some doc" "unsigned_bytes L t = Ok msg"
    "Document_IsValid L doc = Ok ()" "LookupDID S s (doc_ID doc) = Err ErrNotFound"
    "Document_Signed L doc (tx_Signature t) msg = Ok ()" by auto
  then show ?thesis using head Document_Signed_sound by (fastforce simp: vouched_def)
qed

lemma demo_doc_valid: "Document_IsValid L demo_doc = Ok ()"
  using demo_named [of L] url_unnamed_False [of L "''did:web:a''"]
  by (simp add: Document_IsValid_def demo_doc_def doc_vms_def named_url_def)

lemma demo_unsigned_bytes: "unsigned_bytes demo_L demo_tx = Ok [3]"
proof -
  have "demo_tx\<lparr>tx_Signature := []\<rparr> = demo_unsigned" by (simp add: demo_tx_def demo_unsigned_def)
  then show ?thesis by (simp add: unsigned_bytes_def Tx_Marshal_def demo_def)
qed

lemma demo_signed: "Document_Signed demo_L demo_doc (string_bytes ''k'' @ [3]) [3] = Ok ()"
  by (simp add: Document_Signed_def demo_doc_def validators_def ValidateBls12381_def decodeMultibase_def demo_def
      NewBls12381PublicKey_def Bls12381PublicKey_Verify_def string_bytes_def)

lemma demo_tx_fields:
  "tx_Version demo_tx = 1" "tx_Ts demo_tx = 5" "tx_From demo_tx = ''did:web:a''" "tx_Type demo_tx = 1"
  "tx_Action demo_tx = 1" "tx_Data demo_tx = DataDID \<lparr>did_Document = Some demo_doc\<rparr>"
  "tx_Signature demo_tx = string_bytes ''k'' @ [3]"
  by (simp_all add: demo_tx_def demo_unsigned_def)

lemma demo_add_valid: "snd (IsTxValid demo_L (memstore demo_L) demo_store demo_tx) = Ok ()"
proof -
  have "MemStore_LookupDID demo_L demo_store i = Err ErrNotFound" for i
    by (simp add: MemStore_LookupDID_def demo_store_def MemStore_PutTx_def putObj_def Let_def NewMemStore_def)
  then show ?thesis
    using demo_unsigned_bytes
    by (simp add: IsTxValid_def isDIDTxValid_def demo_tx_fields unsigned_bytes_def demo_doc_valid demo_signed)
qed

theorem add_DID_accepted_witness:
  "\<exists>d doc. tx_Data demo_tx = DataDID d \<and> did_Document d = Some doc
     \<and> tx_Version demo_tx = Version1 \<and> tx_Ts demo_tx \<noteq> 0 \<and> tx_From demo_tx \<noteq> []
     \<and> LookupDID (memstore demo_L) demo_store (doc_ID doc) = Err ErrNotFound
     \<and> Document_IsValid demo_L doc = Ok () \<and> vouched demo_L doc demo_tx"
  by (rule add_DID_accepted [OF demo_add_valid]) (simp_all add: demo_tx_fields)

text \<open>
  C26. An update or revocation of a DID that is registered is accepted only if a key of the
  registered document signed it.
\<close>

theorem change_DID_accepted:
  assumes "snd (IsTxValid L S s t) = Ok ()" and "tx_Type t = TxType_DID"
    and "tx_Action t \<in> {TxActionUpdate, TxActionRevoke}"
    and "tx_Data t = DataDID d" and "did_Document d = Some doc" and "LookupDID S s (doc_ID doc) = Ok (Some old)"
  shows "vouched L old t"
proof -
  have "snd (isDIDTxValid L S s t) = Ok ()" using IsTxValid_Ok [OF assms(1)] assms(2) by auto
  from isDIDTxValid_Ok [OF this] assms(3-6) obtain msg where
    "unsigned_bytes L t = Ok msg" "Document_Signed L old (tx_Signature t) msg = Ok ()" by auto
  then show ?thesis using Document_Signed_sound by (fastforce simp: vouched_def)
qed

text \<open>A store that has the example document registered.\<close>

abbreviation demo_U :: clib where
  "demo_U \<equiv> (demo [demo_unsigned\<lparr>tx_Action := 2\<rparr>] [] [])\<lparr>mp_dec_doc := \<lambda>b. Some demo_doc\<rparr>"

definition demo_registered :: MemStore where
  "demo_registered = (NewMemStore demo_U)\<lparr>ms_objects := [''x'' \<mapsto> [7]], ms_dids := [''did:web:a'' \<mapsto> ''x'']\<rparr>"

definition demo_update :: Tx where
  "demo_update = demo_tx\<lparr>tx_Action := 2\<rparr>"

lemma demo_lookup: "MemStore_LookupDID demo_U demo_registered ''did:web:a'' = Ok (Some demo_doc)"
  by (simp add: MemStore_LookupDID_def demo_registered_def getObj_def)

lemma demo_doc_id [simp]: "doc_ID demo_doc = ''did:web:a''"
  by (simp add: demo_doc_def)

lemma demo_U_bytes: "Tx_Marshal demo_U (demo_update\<lparr>tx_Signature := []\<rparr>) = Ok [3]"
  by (simp add: Tx_Marshal_def demo_def demo_update_def demo_tx_def demo_unsigned_def)

lemma demo_update_fields:
  "tx_Version demo_update = 1" "tx_Ts demo_update = 5" "tx_From demo_update = ''did:web:a''" "tx_Type demo_update = 1"
  "tx_Action demo_update = 2" "tx_Data demo_update = DataDID \<lparr>did_Document = Some demo_doc\<rparr>"
  "tx_Signature demo_update = string_bytes ''k'' @ [3]"
  by (simp_all add: demo_update_def demo_tx_def demo_unsigned_def)

lemma demo_update_valid: "snd (IsTxValid demo_U (memstore demo_U) demo_registered demo_update) = Ok ()"
proof -
  have "Document_Signed demo_U demo_doc (string_bytes ''k'' @ [3]) [3] = Ok ()"
    by (simp add: Document_Signed_def demo_doc_def validators_def ValidateBls12381_def decodeMultibase_def demo_def
        NewBls12381PublicKey_def Bls12381PublicKey_Verify_def string_bytes_def)
  then show ?thesis
    by (simp add: IsTxValid_def isDIDTxValid_def demo_update_fields demo_lookup demo_U_bytes demo_doc_valid)
qed

theorem change_DID_accepted_witness: "vouched demo_U demo_doc demo_update"
  by (rule change_DID_accepted [OF demo_update_valid _ _ demo_update_fields(6), where doc = demo_doc])
     (simp_all add: demo_update_fields demo_lookup)

text \<open>
  An update or revocation of a DID that is not registered is accepted whatever its signature is:
  the lookup's error is not wrapped, but another variable that is nil there (\<^verbatim>\<open>errors.Wrap\<close> of nil is
  nil).
\<close>

theorem change_unknown_DID_accepted:
  assumes "tx_Version t = Version1" and "tx_Ts t \<noteq> 0" and "tx_From t \<noteq> []" and "tx_Type t = TxType_DID"
    and "tx_Action t \<in> {TxActionUpdate, TxActionRevoke}" and "tx_Data t = DataDID d" and "did_Document d = Some doc"
    and "LookupDID S s (doc_ID doc) = Err ErrNotFound" and "Document_IsValid L doc = Ok ()"
    and "unsigned_bytes L t = Ok msg" and "errors_Wrap_nil L ''tx validation'' = None"
  shows "IsTxValid L S s (t\<lparr>tx_Signature := sig\<rparr>) = (t\<lparr>tx_Signature := []\<rparr>, Ok ())"
  using assms by (auto simp: IsTxValid_def isDIDTxValid_def unsigned_bytes_def)

theorem change_unknown_DID_accepted_witness:
  "IsTxValid demo_U (memstore demo_U) (NewMemStore demo_U) (demo_update\<lparr>tx_Signature := [66]\<rparr>)
     = (demo_update\<lparr>tx_Signature := []\<rparr>, Ok ())"
proof (rule change_unknown_DID_accepted [where d = "\<lparr>did_Document = Some demo_doc\<rparr>" and doc = demo_doc])
  show "unsigned_bytes demo_U demo_update = Ok [3]" using demo_U_bytes by (simp add: unsigned_bytes_def)
  show "errors_Wrap_nil demo_U ''tx validation'' = None" by (simp add: demo_def)
  show "LookupDID (memstore demo_U) (NewMemStore demo_U) (doc_ID demo_doc) = Err ErrNotFound"
    by (simp add: MemStore_LookupDID_def NewMemStore_def)
  show "Document_IsValid demo_U demo_doc = Ok ()" by (rule demo_doc_valid)
qed (simp_all add: demo_update_fields)

section \<open>Blocks\<close>


text \<open>An empty test store accepts the example block, whose only transaction adds a DID.\<close>

lemma demo_block_all: "MemStore_AllTx demo_L' demo_validated (demo_block demo_root) = Ok [(demo_cid, demo_tx)]"
  using demo_validated_all [of "ms_bState demo_validated"] by (simp add: MemStore_AllTx_def)

lemma demo_ParseCid: "cid_ParseCid (demo txs blocks msgs) c = Some c"
  by (simp add: demo_def)

lemma demo_block_valid:
  "snd (IsBlockValid demo_L' (memstore demo_L') (\<lambda>xs. xs) demo_validated (demo_block demo_root) True) = Ok ()"
proof -
  let ?m = "demo_validated\<lparr>ms_bState := (ms_bState demo_validated)([] \<mapsto> 0)\<rparr>"
  have id: "b_ID (demo_block demo_root) = []" by (simp add: demo_block_def)
  have mark: "MemStore_MarkBlock demo_L' ord m k 0 = (m\<lparr>ms_bState := (ms_bState m)(k \<mapsto> 0)\<rparr>, Ok ())"
    "snd (MemStore_MarkBlock demo_L' ord m k 1) = Ok ()" for ord m k
    by (simp_all add: MemStore_MarkBlock_def Let_def)
  obtain test where test: "MemStore_StartTest demo_L' ?m = Ok test" by (simp add: MemStore_StartTest_def)
  have none: "MemStore_LookupDID demo_L' test i = Err ErrNotFound" "MemStore_GetTxBlock demo_L' test k = Err ErrNotFound" for i k
    using test by (auto simp: MemStore_StartTest_def MemStore_LookupDID_def MemStore_GetTxBlock_def demo_validated_def NewMemStore_def)
  have bytes: "Tx_Marshal demo_L' (demo_tx\<lparr>tx_Signature := []\<rparr>) = Ok [3]"
    by (simp add: Tx_Marshal_def demo_def demo_tx_def demo_unsigned_def)
  have signed: "Document_Signed demo_L' demo_doc (string_bytes ''k'' @ [3]) [3] = Ok ()"
    by (simp add: Document_Signed_def demo_doc_def validators_def ValidateBls12381_def decodeMultibase_def demo_def
        NewBls12381PublicKey_def Bls12381PublicKey_Verify_def string_bytes_def)
  have valid: "IsTxValid demo_L' (memstore demo_L') test demo_tx = (demo_tx\<lparr>tx_Signature := []\<rparr>, Ok ())"
    by (simp add: IsTxValid_def isDIDTxValid_def demo_tx_fields none bytes signed demo_doc_valid)
  have "snd (MemStore_ApplyTx demo_L' test demo_cid (demo_tx\<lparr>tx_Signature := []\<rparr>)) = Ok ()"
    by (simp add: MemStore_ApplyTx_def demo_tx_fields demo_ParseCid)
  then have "snd (check_txs demo_L' (memstore demo_L') True test [(demo_cid, demo_tx)]) = Ok ()"
    unfolding check_txs_Ok by (simp add: valid none)
  then show ?thesis
    using demo_validated_all
    by (auto simp: IsBlockValid_def id mark MemStore_AllTx_def test complete_test_def MemStore_CompleteTest_def
        split: prod.splits result.splits)
qed


text \<open>
  No block with a transaction that changes the set of nodes is ever accepted, so only a genesis
  can introduce nodes.
\<close>

theorem node_tx_block_refused:
  assumes "MarkBlock S ord s (b_ID b) BlockStateUnvalidated = (s1, r1)" and "AllTx S s1 b = Ok txs"
    and "range_ok ord" and "(c, t) \<in> set txs" and "tx_Type t = TxType_Node"
  shows "snd (IsBlockValid L S ord s b new) \<noteq> Ok ()"
proof
  assume "snd (IsBlockValid L S ord s b new) = Ok ()"
  then obtain s' where "IsBlockValid L S ord s b new = (s', Ok ())" by (metis prod.collapse)
  from IsBlockValid_Ok [OF this] assms(1,2) obtain test where run: "valid_run L S new test (ord txs)" by auto
  have "(c, t) \<in> set (ord txs)" using assms(3,4) by (simp add: range_ok_set)
  from valid_run_tx [OF run this] obtain s'' where "snd (IsTxValid L S s'' t) = Ok ()" ..
  from IsTxValid_Ok [OF this] assms(5) show False by auto
qed

text \<open>A block with one transaction that adds a node, in a store of its own.\<close>

definition demo_node_tx :: Tx where
  "demo_node_tx = demo_tx\<lparr>tx_Type := 3, tx_Data := DataNode \<lparr>node_Id = ''n'', node_Did = [], node_Key = []\<rparr>\<rparr>"

abbreviation demo_N :: clib where "demo_N \<equiv> demo [demo_unsigned, demo_node_tx] [] []"

lemma demo_node_all:
  "MemStore_AllTx demo_N (demo_validated\<lparr>ms_bState := s\<rparr>) (demo_block demo_root) = Ok [(demo_cid, demo_node_tx)]"
proof -
  let ?m = "demo_validated\<lparr>ms_bState := s\<rparr>"
  have "MemStore_GetSet demo_N ?m demo_root = Ok \<lparr>ts_Children = [], ts_Tx = Some demo_cid, ts_cid = []\<rparr>"
    by (simp add: MemStore_GetSet_def getObj_def demo_validated_def demo_def dec_enc_set)
  moreover have "MemStore_GetTx demo_N ?m demo_cid = Ok demo_node_tx"
    by (simp add: MemStore_GetTx_def getObj_def demo_validated_def demo_def Tx_Unmarshal_def)
       (simp add: demo_node_tx_def)
  moreover have "b_TxRoot (demo_block demo_root) = demo_root" by (simp add: demo_block_def)
  ultimately show ?thesis
    unfolding MemStore_AllTx_def allTxCids_def allTx_def
    by (simp add: allTx_loop.simps [of _ _ "[demo_root]"] allTx_loop.simps [of _ _ "[]"])
qed

theorem node_tx_block_refused_witness:
  "snd (IsBlockValid demo_N (memstore demo_N) (\<lambda>xs. xs) demo_validated (demo_block demo_root) True) \<noteq> Ok ()"
proof (rule node_tx_block_refused [where c = demo_cid and t = demo_node_tx])
  show "MarkBlock (memstore demo_N) (\<lambda>xs. xs) demo_validated (b_ID (demo_block demo_root)) BlockStateUnvalidated
      = (demo_validated\<lparr>ms_bState := (ms_bState demo_validated)(b_ID (demo_block demo_root) \<mapsto> 0)\<rparr>, Ok ())"
    by (simp add: MemStore_MarkBlock_def Let_def)
  show "AllTx (memstore demo_N) (demo_validated\<lparr>ms_bState := (ms_bState demo_validated)(b_ID (demo_block demo_root) \<mapsto> 0)\<rparr>)
      (demo_block demo_root) = Ok [(demo_cid, demo_node_tx)]" by (simp add: demo_node_all)
qed (simp_all add: range_ok_def demo_node_tx_def)

section \<open>Validation and acceptance on the in-memory store\<close>

text \<open>
  Validating a block and then accepting it, in any order of the ranges, leaves every index of the
  in-memory store as it was: validation marks the block on the test store only, so acceptance
  finds it unvalidated and indexes nothing.
\<close>

theorem accepted_block_not_indexed:
  assumes "MemStore_MarkBlock L ord' (fst (IsBlockValid L (memstore L) ord m b new)) (b_ID b) BlockStateAccepted = (m', r)"
  shows "r = Ok () \<and> ms_txbIndex m' = ms_txbIndex m \<and> ms_dids m' = ms_dids m \<and> ms_nodes m' = ms_nodes m
       \<and> ms_bState m' (b_ID b) = Some BlockStateAccepted"
proof -
  let ?m = "m\<lparr>ms_bState := (ms_bState m)(b_ID b \<mapsto> BlockStateUnvalidated)\<rparr>"
  have "ms_bState ?m (b_ID b) \<noteq> Some BlockStateValidated" by simp
  from MarkBlock_unvalidated [OF this, of L ord' BlockStateAccepted] assms show ?thesis
    by (auto simp: IsBlockValid_mem_state)
qed

theorem accepted_block_not_indexed_witness:
  "let m' = fst (MemStore_MarkBlock demo_L' (\<lambda>xs. xs)
        (fst (IsBlockValid demo_L' (memstore demo_L') (\<lambda>xs. xs) demo_validated (demo_block demo_root) True)) [] BlockStateAccepted)
   in ms_txbIndex m' = ms_txbIndex demo_validated \<and> ms_bState m' [] = Some BlockStateAccepted"
  using accepted_block_not_indexed [of demo_L' "\<lambda>xs. xs" "\<lambda>xs. xs" demo_validated "demo_block demo_root" True]
  by (simp add: demo_block_def Let_def) (metis prod.collapse)

text \<open>
  Replaying the blocks from a tip never indexes a transaction of the in-memory store, and on a
  store to which no block was applied it panics (there is no last applied block to compare with).
\<close>

theorem ApplyFromTip_in_memory:
  "(none_validated m \<longrightarrow> ms_txbIndex (fst (ApplyFromTip L (memstore L) vord mord m i)) = ms_txbIndex m)
   \<and> (ms_lastBlock m = cid_Undef L \<and> MemStore_GetBlock L m i = Ok b \<longrightarrow>
        ApplyFromTip L (memstore L) vord mord m i = (m, Panic))"
proof -
  have "ms_txbIndex (fst (ApplyFromTip L (memstore L) vord mord m i)) = ms_txbIndex m" if "none_validated m"
    using apply_blocks_index [OF that, of L vord mord 0] by (auto simp: ApplyFromTip_def split: result.splits option.splits)
  moreover have "ApplyFromTip L (memstore L) vord mord m i = (m, Panic)"
    if "ms_lastBlock m = cid_Undef L \<and> MemStore_GetBlock L m i = Ok b"
    using that by (simp add: ApplyFromTip_def MemStore_GetLastApplied_def)
  ultimately show ?thesis by blast
qed

theorem ApplyFromTip_in_memory_witness:
  "ms_txbIndex (fst (ApplyFromTip demo_L (memstore demo_L) (\<lambda>_ xs. xs) (\<lambda>_ xs. xs) demo_store [])) = ms_txbIndex demo_store
   \<and> ApplyFromTip demo_L' (memstore demo_L') (\<lambda>_ xs. xs) (\<lambda>_ xs. xs) demo_validated demo_bid = (demo_validated, Panic)"
proof -
  have "none_validated demo_store"
    by (simp add: none_validated_def demo_store_def MemStore_PutTx_def putObj_def Let_def NewMemStore_def)
  moreover have "ms_lastBlock demo_validated = cid_Undef demo_L'" by (simp add: demo_validated_def NewMemStore_def)
  ultimately show ?thesis
    using ApplyFromTip_in_memory [of demo_store demo_L "\<lambda>_ xs. xs" "\<lambda>_ xs. xs" "[]"]
      ApplyFromTip_in_memory [of demo_validated demo_L' "\<lambda>_ xs. xs" "\<lambda>_ xs. xs" demo_bid "demo_block demo_root"]
      demo_validated_reads(1) by simp
qed

end
