(* ===== verification/Consensus_Props.thy ===== *)
theory Consensus_Props
  imports Consensus_Follower Block_Build Demo_Net Validator_Props
begin

text \<open>
  Properties of the consensus engine: what backs a vote, a lock and a commit, when a round commits,
  which messages have an effect, and what a proposed block contains.
\<close>

section \<open>Votes, locks and commits\<close>

text \<open>
  C2. In every reachable node, each collected prevote and precommit is for the height, the round and
  the block of the round in progress and comes from one peer other than the proposer, one per peer;
  a locked block is the block of the round, locked in this round by more prevotes than the
  threshold; and a vote has ended only by more precommits than the threshold.
\<close>

theorem reachable_votes:
  assumes "reachable L S V c"
  shows "let p = c_propsalState c in
    (\<forall>ty vs. (ty, vs) \<in> {(VoteTypePreVote, votes_of (PreVotes p)), (VoteTypePreCommit, votes_of (PreCommits p))} \<longrightarrow>
       distinct (map fst vs)
     \<and> (\<forall>(k, m)\<in>set vs. m_From m = k \<and> peer_String L k \<noteq> Proposer (c_state c)
          \<and> (\<exists>cm v. m_Consensus m = Some cm \<and> cm_Vote cm = Some v \<and> v_Type v = ty \<and> v_Height v = Height p
               \<and> v_Round v = Round p \<and> v_BlockID v = cid_String L (st_Block p))))
  \<and> (lockedValue p \<noteq> cid_Undef L \<longrightarrow>
       lockedValue p = st_Block p \<and> lockedRound p = Round p \<and> unat (st_f p) < length (votes_of (PreVotes p)))
  \<and> (st_Step p = block \<longrightarrow> unat (st_f p) < length (votes_of (PreCommits p)))"
  using reachable_inv [OF assms]
  by (auto simp: node_inv_def round_inv_def votes_ok_def vote_for_def alist_ok_def Let_def)

theorem reachable_votes_witness:
  "let p = c_propsalState net_ended in lockedValue p = ''y'' \<and> st_Step p = block
     \<and> lockedValue p = st_Block p \<and> unat (st_f p) < length (votes_of (PreVotes p))
     \<and> unat (st_f p) < length (votes_of (PreCommits p))"
proof -
  have "lockedValue (c_propsalState net_ended) = ''y''" "st_Step (c_propsalState net_ended) = block"
    by (simp_all add: net_states)
  then show ?thesis
    using reachable_votes [OF net_reachable(3)] by (simp add: Let_def net_L_sel)
qed

text \<open>The peers with a vote of a type for the height, the round and the block of a round.\<close>

definition voters :: "'z clib_scheme \<Rightarrow> State \<Rightarrow> uint8 \<Rightarrow> (peer_ID \<times> Msg) list \<Rightarrow> peer_ID set" where
  "voters L p ty vs = {k. \<exists>m. (k, m) \<in> set vs \<and> m_From m = k \<and> vote_for L p ty m}"

lemma card_voters:
  assumes "votes_ok L who p ty vs"
  shows "card (voters L p ty vs) = length vs"
proof -
  have "voters L p ty vs = fst ` set vs"
  proof
    show "voters L p ty vs \<subseteq> fst ` set vs" by (force simp: voters_def)
    show "fst ` set vs \<subseteq> voters L p ty vs" using assms by (fastforce simp: voters_def votes_ok_def)
  qed
  then show ?thesis
    using assms distinct_card [of "map fst vs"] by (simp add: votes_ok_def alist_ok_def)
qed



text \<open>The committed parts of a node along a run, the latest first.\<close>

inductive history :: "'z clib_scheme \<Rightarrow> 's Store \<Rightarrow> 's Validator \<Rightarrow> 's Consensus \<Rightarrow> (uint64 \<times> cid \<times> cid) list \<Rightarrow> bool"
  for L :: "'z clib_scheme" and S :: "'s Store" and V :: "'s Validator" where
  first: "NewConsensus L S e i s now opts = Ok c \<Longrightarrow> Start e' c = (c', Ok u) \<Longrightarrow> history L S V c' [chain c']"
| stutter: "history L S V c hs \<Longrightarrow> cstep L S V c c' \<Longrightarrow> chain c' = chain c \<Longrightarrow> history L S V c' hs"
| extend: "history L S V c hs \<Longrightarrow> cstep L S V c c' \<Longrightarrow> chain c' \<noteq> chain c \<Longrightarrow> history L S V c' (chain c' # hs)"

text \<open>The abstract ledger: a list of entries in which each names the block of the entry before.\<close>

fun ledger :: "(uint64 \<times> cid \<times> cid) list \<Rightarrow> bool" where
  "ledger ((h, par, b) # (h', par', b') # hs) \<longleftrightarrow> par = b' \<and> ledger ((h', par', b') # hs)"
| "ledger hs \<longleftrightarrow> hs \<noteq> []"

text \<open>
  C6. A node refines an append-only ledger: along every run, its committed part is the latest entry
  of a list that only grows, and each entry names the block of the entry before as its parent.
\<close>

theorem node_refines_ledger:
  assumes "history L S V c hs"
  shows "reachable L S V c \<and> ledger hs \<and> hd hs = chain c"
  using assms
proof (induction rule: history.induct)
  case (first e i s now opts c e' c' u)
  then show ?case by (auto intro: reachable.start simp: chain_def)
next
  case (stutter c hs c')
  then show ?case by (auto intro: reachable.step)
next
  case (extend c hs c')
  from cstep_commits [OF extend.hyps(2)] extend.hyps(3) have "commits L c c'" by simp
  moreover from extend.IH obtain r where "hs = chain c # r" by (cases hs) auto
  ultimately show ?case using extend by (auto simp: commits_def chain_def intro: reachable.step)
qed

lemma net_history: "history net_L (memstore net_L) net_V net_done [(1, [], ''y''), (0, [], [])]"
proof -
  have same: "chain net_start = (0, [], [])" "chain net_follow = (0, [], [])" "chain net_voting = (0, [], [])"
    "chain net_locked = (0, [], [])" "chain net_ended = (0, [], [])" "chain net_done = (1, [], ''y'')"
    by (simp_all add: chain_def net_done_def net_states net_L_sel)
  have 0: "history net_L (memstore net_L) net_V net_start [(0, [], [])]"
    using history.first [OF net_New net_Start, of net_V] same by simp
  note 1 = history.stutter [OF 0 net_cstep(1)]
  have "history net_L (memstore net_L) net_V net_follow [(0, [], [])]" using 1 same by simp
  note 2 = history.stutter [OF this net_cstep(2)]
  have "history net_L (memstore net_L) net_V net_voting [(0, [], [])]" using 2 same by simp
  note 3 = history.stutter [OF this net_cstep(3)]
  have "history net_L (memstore net_L) net_V net_locked [(0, [], [])]" using 3 same by simp
  note 4 = history.stutter [OF this net_cstep(4)]
  have "history net_L (memstore net_L) net_V net_ended [(0, [], [])]" using 4 same by simp
  then show ?thesis using history.extend [OF _ net_cstep(5)] same by simp
qed

theorem node_refines_ledger_witness: "ledger [(1, [], ''y''), (0, [], [])] \<and> chain net_done = (1, [], ''y'')"
proof -
  from node_refines_ledger [OF net_history]
  have l: "ledger [(1, [], ''y''), (0, [], [])]" and h: "hd [(1, [], ''y''), (0, [], [])] = chain net_done" by blast+
  show ?thesis using l h [symmetric] by (simp only: list.sel simp_thms)
qed

section \<open>Progress and thresholds\<close>

text \<open>
  C3. At a follower whose round has a proposal, the round commits: after authenticated prevotes of
  more distinct peers than the threshold, then as many precommits, and then the proposer's block
  message, in any order within the two groups, the node has committed the block of the round.
\<close>

theorem follower_commits:
  assumes "\<not> AmProposer (c_propsalState c)" and "st_Step (c_propsalState c) = prevote"
    and "PreVotes (c_propsalState c) = Some []" and "PreCommits (c_propsalState c) = Some []"
    and "pcOnce (c_propsalState c) = \<lparr>once_done = 0\<rparr>" and "sbOnce (c_propsalState c) = \<lparr>once_done = 0\<rparr>"
    and "\<forall>(e, m)\<in>set pvs. vote_msg L S c VoteTypePreVote m" and "distinct (map (m_From \<circ> snd) pvs)"
    and "unat (st_f (c_propsalState c)) < length pvs" and "length pvs < 2 ^ 64"
    and "\<forall>(e, m)\<in>set pcs. vote_msg L S c VoteTypePreCommit m" and "distinct (map (m_From \<circ> snd) pcs)"
    and "unat (st_f (c_propsalState c)) < length pcs" and "length pcs < 2 ^ 64"
    and "block_msg L S c b" and "store_calm S (env_ord' e) (c_store c) (st_Block (c_propsalState c))"
  shows "\<exists>c'. deliver L S V (pvs @ pcs @ [(e, b)]) c = (c', Ok ())
    \<and> Height (c_state c') = Height (c_propsalState c) \<and> ParentBlock (c_state c') = st_Block (c_state c)
    \<and> st_Block (c_state c') = st_Block (c_propsalState c)"
  using round_commits [OF refl assms] by (auto simp: chain_def)

theorem follower_commits_witness:
  "\<exists>c'. deliver net_L (memstore net_L) net_V
       ([(demo_env, net_signed 1)] @ [(demo_env, net_signed 2)] @ [(demo_env, net_signed 3)]) net_voting = (c', Ok ())
    \<and> Height (c_state c') = Height (c_propsalState net_voting) \<and> ParentBlock (c_state c') = st_Block (c_state net_voting)
    \<and> st_Block (c_state c') = st_Block (c_propsalState net_voting)"
proof (rule follower_commits)
  have check: "checkMsg net_L (memstore net_L) net_voting (net_signed i) = Ok True" if "i < 4" for i
    using that by (intro net_check) (simp_all add: net_states)
  show "\<forall>(e, m)\<in>set [(demo_env, net_signed 1)]. vote_msg net_L (memstore net_L) net_voting VoteTypePreVote m"
    using check [of 1]
    by (simp add: vote_msg_def vote_for_def) (simp add: net_signed_def net_nth net_msg_def wrapper_def net_vote_def net_states net_L_sel)
  show "\<forall>(e, m)\<in>set [(demo_env, net_signed 2)]. vote_msg net_L (memstore net_L) net_voting VoteTypePreCommit m"
    using check [of 2]
    by (simp add: vote_msg_def vote_for_def) (simp add: net_signed_def net_nth net_msg_def wrapper_def net_vote_def net_states net_L_sel)
  show "block_msg net_L (memstore net_L) net_voting (net_signed 3)"
    using check [of 3]
    by (simp add: block_msg_def) (simp add: net_signed_def net_nth net_msg_def wrapper_def net_states net_L_sel)
  show "store_calm (memstore net_L) (env_ord' demo_env) (c_store net_voting) (st_Block (c_propsalState net_voting))"
    by (simp add: store_calm_def net_states net_mark MemStore_UpdateLastApplied_def)
qed (simp_all add: net_states)

text \<open>
  A node that has never been the proposer locks the block of its round on a single prevote: its
  threshold is still the zero it started with, since \<^verbatim>\<open>startRound\<close> computes it for the proposer only.
\<close>

theorem follower_locks_on_one_vote:
  assumes "follows L S V c" and "st_Step (c_propsalState c) = prevote" and "PreVotes (c_propsalState c) = Some []"
    and "pcOnce (c_propsalState c) = \<lparr>once_done = 0\<rparr>" and "vote_msg L S c VoteTypePreVote m"
  shows "\<exists>c'. onMsg L S V e m c = (c', Ok ()) \<and> st_Step (c_propsalState c') = precommit
    \<and> lockedValue (c_propsalState c') = st_Block (c_propsalState c)
    \<and> lockedRound (c_propsalState c') = Round (c_propsalState c)"
proof -
  from follows_f [OF assms(1)] have p: "\<not> AmProposer (c_propsalState c)" "st_f (c_propsalState c) = 0" by auto
  from onMsg_prevote [OF assms(5) p(1) assms(2-4), of V e] obtain c' where
    "onMsg L S V e m c = (c', Ok ())" "c_propsalState c' = after_prevote m (c_propsalState c)" by (auto simp: core_def)
  then show ?thesis
    using p(2) assms(3) by (simp add: after_prevote_def votes_len_def votes_of_def locked_def)
qed

lemma net_follows: "follows net_L (memstore net_L) net_V net_voting"
proof -
  note f0 = follows.booted [OF net_New net_Start, of net_V]
  have "follows net_L (memstore net_L) net_V net_follow"
    by (rule follows.next_step [OF f0 net_cstep(1)]) (simp add: net_states)
  then show ?thesis by (rule follows.next_step [OF _ net_cstep(2)]) (simp add: net_states)
qed

theorem follower_locks_on_one_vote_witness:
  "\<exists>c'. onMsg net_L (memstore net_L) net_V demo_env (net_signed 1) net_voting = (c', Ok ())
    \<and> st_Step (c_propsalState c') = precommit \<and> lockedValue (c_propsalState c') = st_Block (c_propsalState net_voting)
    \<and> lockedRound (c_propsalState c') = Round (c_propsalState net_voting)"
proof (rule follower_locks_on_one_vote [OF net_follows])
  have "checkMsg net_L (memstore net_L) net_voting (net_signed 1) = Ok True"
    by (rule net_check) (simp_all add: net_states)
  then show "vote_msg net_L (memstore net_L) net_voting VoteTypePreVote (net_signed 1)"
    by (simp add: vote_msg_def vote_for_def) (simp add: net_signed_def net_nth net_msg_def wrapper_def net_vote_def net_states net_L_sel)
qed (simp_all add: net_states)

text \<open>
  C7. The threshold a proposer computes from a list of distinct nodes that names it: it removes itself
  without a panic, and two sets of other nodes that each exceed the threshold share more than a third
  of the other nodes.
\<close>

theorem setThreshold_quorum:
  assumes "Nodes S (c_store c) = Ok ns" and "distinct ns" and "peer_String L (c_id c) \<in> set ns" and "length ns < 2 ^ 64"
  shows "\<exists>f. setThreshold L S c = (c\<lparr>c_propsalState := (c_propsalState c)\<lparr>st_f := f\<rparr>\<rparr>, Ok ())
    \<and> unat f = 2 * ((length ns - 1) div 3) + 1
    \<and> (\<forall>A B. A \<subseteq> set ns - {peer_String L (c_id c)} \<and> B \<subseteq> set ns - {peer_String L (c_id c)}
         \<and> unat f < card A \<and> unat f < card B \<longrightarrow> (length ns - 1) div 3 + 2 \<le> card (A \<inter> B))"
proof -
  obtain i where i: "i < length ns" "ns ! i = peer_String L (c_id c)" using assms(3) by (auto simp: in_set_conv_nth)
  have "setThreshold L S c = (c\<lparr>c_propsalState := (c_propsalState c)\<lparr>st_f := threshold (length ns - 1)\<rparr>\<rparr>, Ok ())"
    using assms(1) removeSelf_once [OF assms(2) i]
    by (simp add: setThreshold_def inspect_def bindM_def wrapM_def lift_def modState_def modify_def)
  moreover have f: "unat (threshold (length ns - 1)) = 2 * ((length ns - 1) div 3) + 1"
    by (rule unat_threshold) (use assms(4) in simp)
  moreover have "card (set ns - {peer_String L (c_id c)}) = length ns - 1"
    using assms(2,3) by (simp add: distinct_card)
  ultimately show ?thesis
    using quorums_meet [of "set ns - {peer_String L (c_id c)}"]
    by (intro exI [of _ "threshold (length ns - 1)"]) simp
qed

lemma exceeds_others: "2 * (n div 3) + 1 < n \<longleftrightarrow> n \<noteq> 0 \<and> n \<noteq> 1 \<and> n \<noteq> (3 :: nat)"
proof (cases "n < 4")
  case True
  then have "n \<in> {0, 1, 2, 3}" by auto
  then show ?thesis by auto
next
  case False
  then have "2 * (n div 3) + 1 < n" by arith
  then show ?thesis using False by auto
qed

theorem setThreshold_quorum_witness:
  "\<exists>f. setThreshold net_L (memstore net_L) (net_start\<lparr>c_id := ''p''\<rparr>)
       = (net_start\<lparr>c_id := ''p'', c_propsalState := (zero_State net_L)\<lparr>st_f := f\<rparr>\<rparr>, Ok ()) \<and> unat f = 1"
proof -
  let ?c = "net_start\<lparr>c_id := ''p''\<rparr>"
  have n: "Nodes (memstore net_L) (c_store ?c) = Ok [''p'', ''q'']" "distinct [''p'', ''q'']"
    "peer_String net_L (c_id ?c) \<in> set [''p'', ''q'']" "length [''p'', ''q''] < 2 ^ 64"
    by (simp_all add: net_start_def net_store_def MemStore_Nodes_def net_L_sel)
  from setThreshold_quorum [OF n] obtain f where
    "setThreshold net_L (memstore net_L) ?c = (?c\<lparr>c_propsalState := (c_propsalState ?c)\<lparr>st_f := f\<rparr>\<rparr>, Ok ())"
    "unat f = 2 * ((length [''p'', ''q''] - 1) div 3) + 1" by (elim exE conjE)
  then show ?thesis by (intro exI [of _ f]) (simp add: net_start_def)
qed

text \<open>
  With fewer than two other nodes, or with exactly three, the threshold of the proposer cannot be
  exceeded by the votes of all the others, so its round never ends; with any other number it can.
\<close>

theorem threshold_attainable:
  assumes "finite V" and "card V < 2 ^ 64"
  shows "(\<exists>A\<subseteq>V. unat (threshold (card V)) < card A) \<longleftrightarrow> card V \<notin> {0, 1, 3}"
proof -
  have "(\<exists>A\<subseteq>V. 2 * (card V div 3) + 1 < card A) \<longleftrightarrow> 2 * (card V div 3) + 1 < card V"
    using card_mono [OF assms(1)] by (meson le_trans not_le order_refl)
  then show ?thesis unfolding unat_threshold [OF assms(2)] by (simp only: exceeds_others insert_iff empty_iff de_Morgan_disj simp_thms)
qed

theorem threshold_attainable_witness:
  "\<not> (\<exists>A\<subseteq>{''p'', ''q'', ''r''}. unat (threshold (card {''p'', ''q'', ''r''})) < card A)"
  using threshold_attainable [of "{''p'', ''q'', ''r''}"] by simp

text \<open>
  A beacon value picks the node at its position modulo the number of nodes, every node is picked by
  some value, and with no nodes at all the remainder divides by zero: a panic.
\<close>

theorem proposer_picks:
  assumes "Nodes S s = Ok ns" and "length ns < 2 ^ 64"
  shows "proposer S s b = (if ns = [] then Panic else Ok (Some (ns ! (unat b mod length ns))))
    \<and> (\<forall>n\<in>set ns. \<exists>b. proposer S s b = Ok (Some n))"
proof -
  have len: "unat (of_nat (length ns) :: uint64) = length ns" using assms(2) by (simp add: unat_of_nat)
  have "(of_nat (length ns) :: uint64) = 0 \<longleftrightarrow> ns = []" 
    using len unsigned_eq_0_iff [of "of_nat (length ns) :: uint64", where 'a = nat] by simp
  then have p: "proposer S s b = (if ns = [] then Panic else Ok (Some (ns ! (unat b mod length ns))))" for b
    using assms(1) by (simp add: proposer_def unat_mod len)
  moreover have "\<exists>b. proposer S s b = Ok (Some n)" if n: "n \<in> set ns" for n
  proof -
    obtain i where i: "i < length ns" "ns ! i = n" using n by (auto simp: in_set_conv_nth)
    then have "unat (of_nat i :: uint64) = i" using assms(2) by (simp add: unat_of_nat)
    then show ?thesis using p [of "of_nat i"] i by (intro exI [of _ "of_nat i"]) auto
  qed
  ultimately show ?thesis by blast
qed

theorem proposer_picks_witness: "proposer (memstore net_L) net_store 7 = Ok (Some ''q'')"
proof -
  have "Nodes (memstore net_L) net_store = Ok [''p'', ''q'']" by (simp add: net_store_def MemStore_Nodes_def)
  from proposer_picks [OF this, of 7] show ?thesis by (simp add: numeral_2_eq_2 [symmetric])
qed

text \<open>A message that carries a vote for no block identifier at all.\<close>

definition empty_vote :: "Msg \<Rightarrow> bool" where
  "empty_vote m \<longleftrightarrow> (\<exists>cm v. m_Consensus m = Some cm \<and> cm_Vote cm = Some v \<and> v_BlockID v = [])"

lemma sendVote_sent:
  "\<exists>ms. c_sent (fst (sendVote L e t value c)) = c_sent c @ ms \<and>
     (\<forall>(ch, m)\<in>set ms. \<exists>v. m_Consensus m = Some (wrapper (BodyVote v)) \<and> v_BlockID v = value)"
proof -
  have "m_Consensus m = Some (wrapper b)" if "signedMsg L c key b = Ok m" for key b m
    using that by (auto simp: signedMsg_def signatureData_def Let_def Msg_Marshal_def bindr_Ok split: option.splits)
  then show ?thesis
    by (auto simp: sendVote_def sendMsg_def inspect_def bindM_def lift_def ret_def raise_def PublishContext_def wrapM_def
        modify_def split: option.splits result.splits)
qed

lemma doOnce_sent: "c_sent (fst (doOnce g u m c)) = c_sent (if once_done (g (c_propsalState c)) = 0 then fst (m c) else c)"
  by (auto simp: doOnce_def once_Do_def case_prod_beta)

definition sends_empty :: "'s Consensus \<Rightarrow> 's Consensus \<Rightarrow> bool" where
  "sends_empty c c' \<longleftrightarrow> (\<exists>ms. c_sent c' = c_sent c @ ms \<and> (\<forall>(ch, m)\<in>set ms. empty_vote m))"

lemma sendVote_empty:
  assumes "\<And>c. c_sent (fst (r c)) = c_sent c"
  shows "sends_empty c (fst (andThen (logged (sendVote L e t [])) r c))"
proof -
  obtain d x where d: "sendVote L e t [] c = (d, x)" by fastforce
  have "c_sent (fst (andThen (logged (sendVote L e t [])) r c)) = c_sent d"
    by (cases x) (simp_all add: andThen_def bindM_def logged_def d assms)
  moreover obtain ms where "c_sent d = c_sent c @ ms"
      "\<forall>(ch, m)\<in>set ms. \<exists>v. m_Consensus m = Some (wrapper (BodyVote v)) \<and> v_BlockID v = []"
    using sendVote_sent [of L e t "[]" c] d by auto
  ultimately show ?thesis by (fastforce simp: sends_empty_def empty_vote_def wrapper_def)
qed

lemma sends_empty_refl: "c_sent c' = c_sent c \<Longrightarrow> sends_empty c c'"
  by (simp add: sends_empty_def)

lemma doOnce_empty:
  "(\<And>c. sends_empty c (fst (m c))) \<Longrightarrow> sends_empty c (fst (doOnce g u m c))"
  by (simp add: sends_empty_def doOnce_sent)

lemma sends_empty_state: "sends_empty (c\<lparr>c_propsalState := p\<rparr>) d = sends_empty c d"
  by (simp add: sends_empty_def)

lemma timeout_sent:
  "sends_empty c (fst (onTimeoutProposal L e c))" "sends_empty c (fst (onTimeoutPrevote L e c))"
proof -
  have r: "c_sent (fst (restartPrevote c)) = c_sent c" "c_sent (fst (restartPrecommit c)) = c_sent c"
    for c :: "'a Consensus" by (simp_all add: restartPrevote_def restartPrecommit_def modify_def)
  have v: "sends_empty d (fst (doOnce pvOnce pvOnce_update (andThen (logged (sendVote L e t [])) restartPrevote) d))"
    "sends_empty d (fst (doOnce pcOnce pcOnce_update (andThen (logged (sendVote L e t [])) restartPrecommit) d))"
    for t and d :: "'a Consensus" by (intro doOnce_empty sendVote_empty r)+
  show "sends_empty c (fst (onTimeoutProposal L e c))" "sends_empty c (fst (onTimeoutPrevote L e c))"
    using v [of "c\<lparr>c_propsalState := setStep prevote (c_propsalState c)\<rparr>"]
      v [of "c\<lparr>c_propsalState := setStep precommit (c_propsalState c)\<rparr>"]
    by (simp_all add: onTimeoutProposal_def onTimeoutPrevote_def inspect_def ret_def sends_empty_refl sends_empty_state)
qed

lemma empty_vote_dropped:
  assumes "\<forall>k. cid_String L k \<noteq> []" and "empty_vote m"
  shows "onVote L e m who d = (d, Ok ())"
proof -
  from assms(2) obtain cm v where "m_Consensus m = Some cm" "cm_Vote cm = Some v" "v_BlockID v = []"
    by (auto simp: empty_vote_def)
  moreover have "[] \<noteq> cid_String L (st_Block (c_propsalState d))" using assms(1) by metis
  ultimately show ?thesis by (simp add: onVote_def inspect_def ret_def)
qed

text \<open>
  All a node sends on the timeout of a proposal or of the prevotes are votes for the empty
  identifier, and every node in every state drops such a vote: the text of an identifier, the
  undefined one included, is never empty. So a timed out phase never collects votes.
\<close>

theorem timeout_votes_dropped:
  assumes "\<forall>k. cid_String L k \<noteq> []"
  shows "sends_empty c (fst (onTimeoutProposal L e c)) \<and> sends_empty c (fst (onTimeoutPrevote L e c))
    \<and> (empty_vote m \<longrightarrow> onVote L e' m who d = (d, Ok ()))"
  using timeout_sent [of c L e] empty_vote_dropped [OF assms, of m e' who d] by blast

theorem timeout_votes_dropped_witness:
  "onVote net_L demo_env (net_msg ''q'' (BodyVote ((net_vote VoteTypePreVote)\<lparr>v_BlockID := []\<rparr>))) ''q'' net_voting
     = (net_voting, Ok ())"
  using timeout_votes_dropped [of net_L net_voting demo_env
      "net_msg ''q'' (BodyVote ((net_vote VoteTypePreVote)\<lparr>v_BlockID := []\<rparr>))" demo_env "''q''" net_voting]
  by (simp add: net_L_sel empty_vote_def net_msg_def wrapper_def)

section \<open>Messages\<close>

text \<open>
  C8. A message changes the node only if it is for the node's chain and carries a signature, over the
  sender's identifier and the message without its signature, that verifies under the key the store
  has for the sender.
\<close>

theorem onMsg_authenticated:
  assumes "fst (onMsg L S V e m c) \<noteq> c"
  shows "m_Chain m = c_chain c
    \<and> (\<exists>node sd data rawPk pk. GetNode S (c_store c) (peer_String L (m_From m)) = Ok node
         \<and> peer_MarshalBinary L (m_From m) = Some sd \<and> mp_enc_msg L (m\<lparr>m_Signature := []\<rparr>) = Some data
         \<and> mb_Decode L (bytes_string (node_Key node)) = Some rawPk \<and> NewBls12381PublicKey L rawPk = Ok pk
         \<and> Bls12381PublicKey_Verify L pk (m_Signature m) (sd @ data) = Ok True)"
proof -
  have "checkMsg L S c m = Ok True"
    using assms by (auto simp: onMsg_def inspect_def bindM_def lift_def ret_def split: result.splits if_splits)
  then show ?thesis
    by (auto simp: checkMsg_def signatureData_def Msg_Marshal_def Let_def
        split: if_splits result.splits option.splits)
qed

theorem onMsg_authenticated_witness: "m_Chain (net_signed 1) = c_chain net_voting"
proof -
  have "fst (onMsg net_L (memstore net_L) net_V demo_env (net_signed 1) net_voting) \<noteq> net_voting"
    unfolding net_prevote by (simp add: net_states)
  then show ?thesis by (rule onMsg_authenticated [THEN conjunct1])
qed

text \<open>
  C9. What a node signs and publishes is accepted by every other node of the chain that has the
  matching key for it: the published bytes are received as the same message and pass the check,
  provided the router attaches no key to the message (a key would become part of the signed data).
\<close>

theorem published_accepted:
  assumes "signedMsg L c key b = Ok m" and "Msg_Marshal L m = Ok d"
    and "mp_dec_msg L d = Some m" and "c_chain c' = c_chain c" and "peer_Marshal L (c_id c') \<noteq> Some origin" and "origin \<noteq> []"
    and "GetNode S (c_store c') (peer_String L (c_id c)) = Ok node"
    and "mb_Decode L (bytes_string (node_Key node)) = Some rawPk" and "NewBls12381PublicKey L rawPk = Ok pk"
    and "\<forall>x sig. bls_Sign L key x = Some sig \<longrightarrow> Bls12381PublicKey_Verify L pk sig x = Ok True"
  shows "receive L (c_id c') \<lparr>raw_From = origin, raw_Data = d, raw_Key = []\<rparr> = Some m \<and> checkMsg L S c' m = Ok True"
proof -
  define hl where "hl = \<lparr>m_Type = MsgTypeConsensus, m_From = c_id c, m_Chain = c_chain c, m_Tx = None, m_Block = None,
      m_Consensus = Some (wrapper b), m_Timestamp = c_clock c, m_Signature = [], m_Key = []\<rparr>"
  from assms(1) obtain sd data sig where
    s: "peer_MarshalBinary L (c_id c) = Some sd" "mp_enc_msg L hl = Some data" "bls_Sign L key (sd @ data) = Some sig"
       "m = hl\<lparr>m_Signature := sig\<rparr>"
    by (auto simp: signedMsg_def signatureData_def Let_def Msg_Marshal_def bindr_Ok hl_def split: option.splits)
  have "m\<lparr>m_Key := []\<rparr> = m" "m\<lparr>m_Signature := []\<rparr> = hl" "m_From m = c_id c" "m_Chain m = c_chain c"
    by (simp_all add: s(4) hl_def)
  then show ?thesis
    using assms s by (auto simp: receive_def checkMsg_def signatureData_def Msg_Marshal_def Let_def split: option.splits)
qed

definition demo_sender :: "MemStore Consensus" where
  "demo_sender = net_start\<lparr>c_id := ''q'', c_signingKey := Some (string_bytes ''k''), c_clock := 0\<rparr>"

lemma net_sender_signs:
  "signedMsg net_L demo_sender (string_bytes ''k'') (BodyVote (net_vote VoteTypePreVote)) = Ok (net_signed 1)"
proof -
  have hl: "\<lparr>m_Type = MsgTypeConsensus, m_From = c_id demo_sender, m_Chain = c_chain demo_sender, m_Tx = None, m_Block = None,
      m_Consensus = Some (wrapper (BodyVote (net_vote VoteTypePreVote))), m_Timestamp = c_clock demo_sender,
      m_Signature = [], m_Key = []\<rparr> = net_bodies ! 1"
    by (simp add: demo_sender_def net_start_def net_nth net_msg_def)
  have un: "(net_bodies ! 1)\<lparr>m_Signature := []\<rparr> = net_bodies ! 1" "m_Signature (net_bodies ! 1) = []"
    by (simp_all add: net_nth net_msg_def)
  have data: "signatureData net_L (net_bodies ! 1) = (net_bodies ! 1, Ok [0, 3])"
    unfolding signatureData_def Let_def Msg_Marshal_def un using net_enc [of 1] by simp
  have "bls_Sign net_L = (\<lambda>key d. Some (key @ d))" by (simp add: net_L_def demo_def)
  then show ?thesis
    unfolding signedMsg_def Let_def hl data
    by (simp add: net_L_sel net_signed_def) (simp add: net_nth net_msg_def demo_sender_def)
qed

lemma net_signed_bytes: "Msg_Marshal net_L (net_signed 1) = Ok (replicate 5 0 @ [3])"
  by (simp add: Msg_Marshal_def net_L_sel net_signed_def net_bodies_def net_msg_def string_bytes_def numeral_eq_Suc)

theorem published_accepted_witness:
  "receive net_L ''a'' \<lparr>raw_From = string_bytes ''q'', raw_Data = replicate 5 0 @ [3], raw_Key = []\<rparr> = Some (net_signed 1)
   \<and> checkMsg net_L (memstore net_L) net_voting (net_signed 1) = Ok True"
proof -
  have "mp_dec_msg net_L (replicate (4 + 1) 0 @ [3]) = Some (net_signed 1)" by (rule net_dec) simp
  then have d: "mp_dec_msg net_L (replicate 5 0 @ [3]) = Some (net_signed 1)" by simp
  have node: "GetNode (memstore net_L) (c_store net_voting) (peer_String net_L (c_id demo_sender))
      = Ok \<lparr>node_Id = ''p'', node_Did = ''did:web:a'', node_Key = string_bytes ''zk''\<rparr>"
    using net_Node [of "''q''"] by (simp add: net_states demo_sender_def net_L_sel)
  have "receive net_L (c_id net_voting) \<lparr>raw_From = string_bytes ''q'', raw_Data = replicate 5 0 @ [3], raw_Key = []\<rparr>
      = Some (net_signed 1) \<and> checkMsg net_L (memstore net_L) net_voting (net_signed 1) = Ok True"
  proof (rule published_accepted [OF net_sender_signs net_signed_bytes d _ _ _ node])
    show "mb_Decode net_L (bytes_string (node_Key \<lparr>node_Id = ''p'', node_Did = ''did:web:a'', node_Key = string_bytes ''zk''\<rparr>))
        = Some (string_bytes ''k'')" by (simp add: net_L_sel)
    show "NewBls12381PublicKey net_L (string_bytes ''k'') = Ok (string_bytes ''k'')"
      by (simp add: NewBls12381PublicKey_def net_L_sel string_bytes_def)
    show "\<forall>x sig. bls_Sign net_L (string_bytes ''k'') x = Some sig \<longrightarrow>
        Bls12381PublicKey_Verify net_L (string_bytes ''k'') sig x = Ok True"
      by (simp add: Bls12381PublicKey_Verify_def net_L_def demo_def)
  qed (simp_all add: net_states demo_sender_def net_L_sel string_bytes_def)
  then show ?thesis by (simp add: net_states)
qed

section \<open>Blocks\<close>

text \<open>
  C5. The block a proposer makes from a pool that is not empty, on the in-memory store, holds exactly
  the oldest transactions of the pool, at most 1000, in the tree its root names and in its bloom
  filter; they leave the pool and no other; the block's parent is the last committed block and its
  height the height of the round.
\<close>

theorem makeBlock_oldest:
  assumes "mem_good L (c_store c)" and "bloom_ok L" and "pool_ok (c_memPool c)" and "pool_txs (c_memPool c) \<noteq> {#}"
    and "env_nonce e = Some nonce" and "\<forall>t\<in>#pool_txs (c_memPool c). storable L t"
  shows "\<exists>c' b ts xs. makeBlock L (memstore L) e c = (c', Ok (Some b))
     \<and> b_Parent b = st_Block (c_state c) \<and> b_Height b = Height (c_propsalState c)
     \<and> MemStore_AllTx L (c_store c') b = Ok xs \<and> snd ` set xs = set ts
     \<and> (\<forall>k\<in>fst ` set xs. BloomContains L (b_Bloom b) k = Ok True)
     \<and> pool_txs (c_memPool c) = mset ts + pool_txs (c_memPool c')
     \<and> length ts = min MaxBlockTxCount (size (pool_txs (c_memPool c)))
     \<and> (\<forall>t\<in>set ts. \<forall>u\<in>#pool_txs (c_memPool c'). tx_Ts t \<le> tx_Ts u)"
  by (rule makeBlock_memstore [OF assms])

definition demo_pool_node :: "MemStore Consensus" where
  "demo_pool_node = net_start\<lparr>c_store := NewMemStore demo_L, c_memPool := \<lparr>plist = [Some demo_tx]\<rparr>\<rparr>"

theorem makeBlock_oldest_witness:
  "\<exists>c' b xs. makeBlock demo_L (memstore demo_L) demo_env demo_pool_node = (c', Ok (Some b))
     \<and> MemStore_AllTx demo_L (c_store c') b = Ok xs \<and> snd ` set xs = {demo_tx} \<and> pool_txs (c_memPool c') = {#}"
proof -
  have txs: "pool_txs (c_memPool demo_pool_node) = {#demo_tx#}" by (simp add: demo_pool_node_def pool_txs_def)
  have "\<exists>c' b ts xs. makeBlock demo_L (memstore demo_L) demo_env demo_pool_node = (c', Ok (Some b))
     \<and> b_Parent b = st_Block (c_state demo_pool_node) \<and> b_Height b = Height (c_propsalState demo_pool_node)
     \<and> MemStore_AllTx demo_L (c_store c') b = Ok xs \<and> snd ` set xs = set ts
     \<and> (\<forall>k\<in>fst ` set xs. BloomContains demo_L (b_Bloom b) k = Ok True)
     \<and> pool_txs (c_memPool demo_pool_node) = mset ts + pool_txs (c_memPool c')
     \<and> length ts = min MaxBlockTxCount (size (pool_txs (c_memPool demo_pool_node)))
     \<and> (\<forall>t\<in>set ts. \<forall>u\<in>#pool_txs (c_memPool c'). tx_Ts t \<le> tx_Ts u)"
  proof (rule makeBlock_oldest)
    show "mem_good demo_L (c_store demo_pool_node)" using demo_good by (simp add: demo_pool_node_def)
    show "bloom_ok demo_L" by (rule demo_bloom)
    show "pool_ok (c_memPool demo_pool_node)" by (simp add: demo_pool_node_def pool_ok_def is_heap_small)
    show "env_nonce demo_env = Some (replicate 32 0)" by (simp add: demo_env_def)
    show "pool_txs (c_memPool demo_pool_node) \<noteq> {#}" "\<forall>t\<in>#pool_txs (c_memPool demo_pool_node). storable demo_L t"
      using demo_codec by (simp_all add: txs storable_def)
  qed
  then obtain c' b ts xs where r: "makeBlock demo_L (memstore demo_L) demo_env demo_pool_node = (c', Ok (Some b))"
     "MemStore_AllTx demo_L (c_store c') b = Ok xs" "snd ` set xs = set ts" "{#demo_tx#} = mset ts + pool_txs (c_memPool c')"
     "length ts = min MaxBlockTxCount (size {#demo_tx#})" unfolding txs by (elim exE conjE)
  have "size (mset ts) = 1" using r(5) by simp
  with r(4) have p: "pool_txs (c_memPool c') = {#}" by (metis add_cancel_right_right size_eq_0_iff_empty size_single size_union)
  then have "mset ts = {#demo_tx#}" using r(4) by simp
  then have "set ts = {demo_tx}" by (metis set_mset_mset set_mset_single)
  then show ?thesis using r(1-3) p by blast
qed

lemma makeBlock_parent:
  assumes "makeBlock L S e c = (c', Ok (Some b))"
  shows "b_Parent b = st_Block (c_state c)"
  using assms
  by (auto simp: makeBlock_def inspect_def raise_def bindM_def ret_def Let_def
      split: option.splits if_splits prod.splits result.splits)

text \<open>
  When the vote ended with no block, the proposer's block message still commits: the node's last
  block becomes the undefined one, so the link to the chain is lost, and the next block it makes has
  no parent.
\<close>

theorem undefined_commit_loses_chain:
  assumes "st_Step (c_propsalState c) = block" and "lockedValue (c_propsalState c) = cid_Undef L"
    and "cb_CID m = cid_String L (cid_Undef L)" and "cb_Round m = lockedRound (c_propsalState c)"
    and "snd (UpdateLastApplied S (c_store c) (cid_Undef L)) \<notin> {Panic, Diverge}"
  shows "\<exists>c'. onBlock L S e (Some m) (Proposer (c_state c)) c = (c', Ok ()) \<and> st_Block (c_state c') = cid_Undef L
    \<and> (\<forall>e' b c''. makeBlock L S e' c' = (c'', Ok (Some b)) \<longrightarrow> b_Parent b = cid_Undef L)"
proof -
  define c1 where "c1 = c\<lparr>c_timerBlock := stopTimer (c_timerBlock c)\<rparr>"
  have "logged (onStore (\<lambda>s. UpdateLastApplied S s (cid_Undef L))) c1
      = (c1\<lparr>c_store := fst (UpdateLastApplied S (c_store c1) (cid_Undef L))\<rparr>, Ok ())"
    by (rule logged_onStore) (use assms(5) in \<open>simp add: c1_def\<close>)
  then have "onBlock L S e (Some m) (Proposer (c_state c)) c
      = (commit (c1\<lparr>c_store := fst (UpdateLastApplied S (c_store c1) (cid_Undef L))\<rparr>), Ok ())"
    using assms(1-4)
    by (simp add: onBlock_def inspect_def acceptBlock_def whenM_def andThen_def bindM_def ret_def modify_def c1_def)
  moreover have "st_Block (c_state (commit (c1\<lparr>c_store := s\<rparr>))) = cid_Undef L" for s
    using assms(2) by (simp add: commit_def c1_def)
  ultimately show ?thesis using makeBlock_parent by fastforce
qed

theorem undefined_commit_loses_chain_witness:
  "\<exists>c'. onBlock net_L (memstore net_L) demo_env
       (Some \<lparr>cb_Height = 1, cb_Round = 1, cb_CID = ''b'', cb_Validators = [], cb_Signature = []\<rparr>)
       (Proposer (c_state net_done))
       (net_done\<lparr>c_propsalState := (c_propsalState net_done)\<lparr>lockedValue := []\<rparr>\<rparr>) = (c', Ok ())
     \<and> st_Block (c_state c') = cid_Undef net_L"
proof -
  let ?c = "net_done\<lparr>c_propsalState := (c_propsalState net_done)\<lparr>lockedValue := []\<rparr>\<rparr>"
  let ?m = "\<lparr>cb_Height = 1, cb_Round = 1, cb_CID = ''b'', cb_Validators = [], cb_Signature = []\<rparr>"
  have "\<exists>c'. onBlock net_L (memstore net_L) demo_env (Some ?m) (Proposer (c_state ?c)) ?c = (c', Ok ())
      \<and> st_Block (c_state c') = cid_Undef net_L
      \<and> (\<forall>e' b c''. makeBlock net_L (memstore net_L) e' c' = (c'', Ok (Some b)) \<longrightarrow> b_Parent b = cid_Undef net_L)"
    by (rule undefined_commit_loses_chain)
       (simp_all add: net_done_def net_states net_L_sel MemStore_UpdateLastApplied_def)
  then show ?thesis by (auto simp: net_done_def)
qed

text \<open>
  A registered key that does not unmarshal is only logged and the nil key is used: any message that
  names its node as the sender, signed or not, makes the receiving node panic.
\<close>

theorem bad_node_key_panics:
  assumes "m_Chain m = c_chain c" and "GetNode S (c_store c) (peer_String L (m_From m)) = Ok node"
    and "peer_MarshalBinary L (m_From m) = Some sd" and "mp_enc_msg L (m\<lparr>m_Signature := []\<rparr>) = Some data"
    and "mb_Decode L (bytes_string (node_Key node)) = Some rawPk" and "bls_Unmarshal L rawPk = None"
  shows "onMsg L S V e (m\<lparr>m_Signature := sig\<rparr>) c = (c, Panic)"
  using assms
  by (simp add: onMsg_def inspect_def bindM_def lift_def checkMsg_def signatureData_def Msg_Marshal_def Let_def
      NewBls12381PublicKey_def)

theorem bad_node_key_panics_witness:
  "onMsg (net_L\<lparr>bls_Unmarshal := \<lambda>_. None\<rparr>) (memstore net_L) net_V demo_env ((net_bodies ! 1)\<lparr>m_Signature := [1]\<rparr>)
     net_voting = (net_voting, Panic)"
proof (rule bad_node_key_panics)
  have un: "(net_bodies ! 1)\<lparr>m_Signature := []\<rparr> = net_bodies ! 1" "m_From (net_bodies ! 1) = ''q''"
    by (simp_all add: net_nth net_msg_def)
  show "mp_enc_msg (net_L\<lparr>bls_Unmarshal := \<lambda>_. None\<rparr>) ((net_bodies ! 1)\<lparr>m_Signature := []\<rparr>) = Some [0, 3]"
    unfolding un using net_enc [of 1] by simp
  show "GetNode (memstore net_L) (c_store net_voting) (peer_String (net_L\<lparr>bls_Unmarshal := \<lambda>_. None\<rparr>) (m_From (net_bodies ! 1)))
      = Ok \<lparr>node_Id = ''p'', node_Did = ''did:web:a'', node_Key = string_bytes ''zk''\<rparr>"
    unfolding un using net_Node [of "''q''"] by (simp add: net_states net_L_sel)
qed (simp_all add: net_states net_L_sel net_nth net_msg_def)

end
