(* ===== verification/IPFS_Model.thy ===== *)
theory IPFS_Model
  imports Consensus_Types
begin

text \<open>
  \<^verbatim>\<open>internal/storage/ipfs.go\<close>: the store of a running node, objects in IPFS and the indices in a Pebble
  database. Pebble, its batches and the IPFS node are third-party code: their operations are
  parameters, over types \<open>'d\<close>, \<open>'b\<close> and \<open>'n\<close> for their states. A test store shares the database and the
  IPFS node of the store it was started from and collects its writes in an indexed batch.
\<close>

section \<open>Third-party operations\<close>

abbreviation pebble_ErrNotFound :: error where "pebble_ErrNotFound \<equiv> ErrNew ''pebble: not found''"

text \<open>
  A read of an indexed batch falls through to the database; an iterator is the list of the entries
  of its range; closing takes a batch pointer that may be nil.
\<close>

record ('d, 'b, 'n) ilib = clib +
  pb_Get :: "'d \<Rightarrow> bytes \<Rightarrow> bytes result"
  pb_Set :: "'d \<Rightarrow> bytes \<Rightarrow> bytes \<Rightarrow> 'd \<times> unit result"
  pb_Iter :: "'d \<Rightarrow> bytes \<Rightarrow> bytes \<Rightarrow> (bytes \<times> bytes) list"
  pb_NewBatch :: "'d \<Rightarrow> 'b"
  pb_NewIndexedBatch :: "'d \<Rightarrow> 'b"
  batch_Get :: "'d \<Rightarrow> 'b \<Rightarrow> bytes \<Rightarrow> bytes result"
  batch_Set :: "'b \<Rightarrow> bytes \<Rightarrow> bytes \<Rightarrow> 'b \<times> unit result"
  batch_Delete :: "'b \<Rightarrow> bytes \<Rightarrow> 'b \<times> unit result"
  batch_Iter :: "'d \<Rightarrow> 'b \<Rightarrow> bytes \<Rightarrow> bytes \<Rightarrow> (bytes \<times> bytes) list"
  batch_Commit :: "'b \<Rightarrow> 'd \<Rightarrow> 'd \<times> unit result"
  batch_Close :: "'b option \<Rightarrow> 'b option \<times> unit result"
  ipfs_Put :: "'n \<Rightarrow> bytes \<Rightarrow> 'n \<times> cid result"
  ipfs_Get :: "'n \<Rightarrow> cid \<Rightarrow> bytes result"
  ipfs_Pin :: "'n \<Rightarrow> cid \<Rightarrow> 'n \<times> unit result"

record ('d, 'b, 'n) IPFSStorage =
  is_ipfsNode :: 'n
  is_metadata :: 'd
  is_pfTipApply :: "'b option"

section \<open>Keys\<close>

abbreviation txBlockTPrefix :: byte where "txBlockTPrefix \<equiv> 1"
abbreviation blockStateTPrefix :: byte where "blockStateTPrefix \<equiv> 2"
abbreviation didTPrefix :: byte where "didTPrefix \<equiv> 3"
abbreviation didHisoryTPrefix :: byte where "didHisoryTPrefix \<equiv> 4"
abbreviation activeClaimTPrefix :: byte where "activeClaimTPrefix \<equiv> 5"
abbreviation nodesTPrefix :: byte where "nodesTPrefix \<equiv> 6"
abbreviation latestBlockTPrefix :: byte where "latestBlockTPrefix \<equiv> 7"
abbreviation genesisTPrefix :: byte where "genesisTPrefix \<equiv> 8"

definition tableSep :: byte where
  "tableSep = of_nat (of_char CHR '':'')"

text \<open>The type byte and the parts, each followed by the separator, without the last separator.\<close>

definition typedKey :: "byte \<Rightarrow> string list \<Rightarrow> bytes" where
  "typedKey kType parts =
     (if parts = [] then [kType]
      else butlast (kType # concat (map (\<lambda>p. string_bytes p @ [tableSep]) parts)))"

section \<open>Access to the metadata\<close>

type_synonym ('d, 'b, 'n, 'a) iop = "(('d, 'b, 'n) IPFSStorage, 'a) op"

definition metadataGet :: "('d, 'b, 'n, 'z) ilib_scheme \<Rightarrow> ('d, 'b, 'n) IPFSStorage \<Rightarrow> bytes \<Rightarrow> bytes result" where
  "metadataGet L s key =
     (case is_pfTipApply s of
        Some b \<Rightarrow> batch_Get L (is_metadata s) b key
      | None \<Rightarrow> pb_Get L (is_metadata s) key)"

definition metadataSet :: "('d, 'b, 'n, 'z) ilib_scheme \<Rightarrow> bytes \<Rightarrow> bytes \<Rightarrow> ('d, 'b, 'n, unit) iop" where
  "metadataSet L key v = (\<lambda>s.
     case is_pfTipApply s of
       Some b \<Rightarrow> (case batch_Set L b key v of (b', r) \<Rightarrow> (s\<lparr>is_pfTipApply := Some b'\<rparr>, r))
     | None \<Rightarrow> (case pb_Set L (is_metadata s) key v of (d, r) \<Rightarrow> (s\<lparr>is_metadata := d\<rparr>, r)))"

definition metadataNewIter ::
    "('d, 'b, 'n, 'z) ilib_scheme \<Rightarrow> ('d, 'b, 'n) IPFSStorage \<Rightarrow> bytes \<Rightarrow> bytes \<Rightarrow> (bytes \<times> bytes) list" where
  "metadataNewIter L s lower upper =
     (case is_pfTipApply s of
        Some b \<Rightarrow> batch_Iter L (is_metadata s) b lower upper
      | None \<Rightarrow> pb_Iter L (is_metadata s) lower upper)"

definition IPFS_StartTest ::
    "('d, 'b, 'n, 'z) ilib_scheme \<Rightarrow> ('d, 'b, 'n) IPFSStorage \<Rightarrow> ('d, 'b, 'n) IPFSStorage result" where
  "IPFS_StartTest L s =
     (if is_pfTipApply s \<noteq> None then Err (ErrNew ''test apply already started'')
      else Ok \<lparr>is_ipfsNode = is_ipfsNode s, is_metadata = is_metadata s,
               is_pfTipApply = Some (pb_NewIndexedBatch L (is_metadata s))\<rparr>)"

definition IPFS_CompleteTest :: "('d, 'b, 'n, 'z) ilib_scheme \<Rightarrow> ('d, 'b, 'n, unit) iop" where
  "IPFS_CompleteTest L = (\<lambda>s. (s\<lparr>is_pfTipApply := None\<rparr>, snd (batch_Close L (is_pfTipApply s))))"

section \<open>Objects\<close>

definition putRaw :: "('d, 'b, 'n, 'z) ilib_scheme \<Rightarrow> bytes \<Rightarrow> ('d, 'b, 'n, cid) iop" where
  "putRaw L d = (\<lambda>s. case ipfs_Put L (is_ipfsNode s) d of (n, r) \<Rightarrow> (s\<lparr>is_ipfsNode := n\<rparr>, r))"

definition getRaw :: "('d, 'b, 'n, 'z) ilib_scheme \<Rightarrow> ('d, 'b, 'n) IPFSStorage \<Rightarrow> cid \<Rightarrow> bytes result" where
  "getRaw L s i = ipfs_Get L (is_ipfsNode s) i"

definition pinAdd :: "('d, 'b, 'n, 'z) ilib_scheme \<Rightarrow> cid \<Rightarrow> ('d, 'b, 'n, unit) iop" where
  "pinAdd L i = (\<lambda>s. case ipfs_Pin L (is_ipfsNode s) i of (n, r) \<Rightarrow> (s\<lparr>is_ipfsNode := n\<rparr>, r))"

definition msgpack :: "'a option \<Rightarrow> 'a result" where
  "msgpack r = (case r of None \<Rightarrow> Err (ErrNew ''msgpack'') | Some a \<Rightarrow> Ok a)"

definition IPFS_PutTx :: "('d, 'b, 'n, 'z) ilib_scheme \<Rightarrow> Tx \<Rightarrow> ('d, 'b, 'n, cid) iop" where
  "IPFS_PutTx L t = bindM (lift (Tx_Marshal L t)) (putRaw L)"

definition IPFS_GetTx :: "('d, 'b, 'n, 'z) ilib_scheme \<Rightarrow> ('d, 'b, 'n) IPFSStorage \<Rightarrow> cid \<Rightarrow> Tx result" where
  "IPFS_GetTx L s i = bindr (getRaw L s i) (Tx_Unmarshal L)"

definition IPFS_PutBlock :: "('d, 'b, 'n, 'z) ilib_scheme \<Rightarrow> Block \<Rightarrow> ('d, 'b, 'n, cid) iop" where
  "IPFS_PutBlock L b = bindM (wrapM ''mashaling tx'' (lift (msgpack (mp_enc_block L b)))) (putRaw L)"

definition IPFS_GetBlock :: "('d, 'b, 'n, 'z) ilib_scheme \<Rightarrow> ('d, 'b, 'n) IPFSStorage \<Rightarrow> cid \<Rightarrow> Block result" where
  "IPFS_GetBlock L s i =
     bindr (getRaw L s i) (\<lambda>data.
     bindr (wrap ''unmarshalling block'' (msgpack (mp_dec_block L data))) (\<lambda>b.
       Ok (b\<lparr>b_ID := i\<rparr>)))"

text \<open>\<open>flip\<close> is the outcome of \<^verbatim>\<open>coinflip.Flip\<close> for the object with that identifier.\<close>

definition IPFS_PutSet :: "('d, 'b, 'n, 'z) ilib_scheme \<Rightarrow> (cid \<Rightarrow> bool) \<Rightarrow> TxSet \<Rightarrow> ('d, 'b, 'n, cid) iop" where
  "IPFS_PutSet L flip txs =
     bindM (wrapM ''mashaling tx'' (lift (msgpack (mp_enc_set L (ts_Children txs) (ts_Tx txs))))) (\<lambda>d.
     bindM (wrapM ''storing txset'' (putRaw L d)) (\<lambda>c.
     andThen (if flip c then wrapM ''pinning txset'' (pinAdd L c) else ret ()) (ret c)))"

definition IPFS_GetSet :: "('d, 'b, 'n, 'z) ilib_scheme \<Rightarrow> ('d, 'b, 'n) IPFSStorage \<Rightarrow> cid \<Rightarrow> TxSet result" where
  "IPFS_GetSet L s i =
     bindr (getRaw L s i) (\<lambda>data.
     bindr (wrap ''unmarshalling block'' (msgpack (mp_dec_set L data))) (\<lambda>(cs, t).
       Ok \<lparr>ts_Children = cs, ts_Tx = t, ts_cid = cid_Undef L\<rparr>))"

definition IPFS_AllTx ::
    "('d, 'b, 'n, 'z) ilib_scheme \<Rightarrow> ('d, 'b, 'n) IPFSStorage \<Rightarrow> Block \<Rightarrow> (cid \<times> Tx) list result" where
  "IPFS_AllTx L s b = allTx (IPFS_GetSet L s) (IPFS_GetTx L s) (b_TxRoot b)"

section \<open>The last applied block\<close>

definition IPFS_UpdateLastApplied :: "('d, 'b, 'n, 'z) ilib_scheme \<Rightarrow> cid \<Rightarrow> ('d, 'b, 'n, unit) iop" where
  "IPFS_UpdateLastApplied L i =
     wrapM ''storing last block ref'' (metadataSet L (typedKey latestBlockTPrefix []) (string_bytes (cid_String L i)))"

definition castCid :: "('d, 'b, 'n, 'z) ilib_scheme \<Rightarrow> bytes \<Rightarrow> cid result" where
  "castCid L d = (case cid_Cast L d of None \<Rightarrow> Err (ErrNew ''cid'') | Some c \<Rightarrow> Ok c)"

definition IPFS_GetLastApplied ::
    "('d, 'b, 'n, 'z) ilib_scheme \<Rightarrow> ('d, 'b, 'n) IPFSStorage \<Rightarrow> Block option result" where
  "IPFS_GetLastApplied L s =
     (case metadataGet L s (typedKey latestBlockTPrefix []) of
        Err e \<Rightarrow> if e = pebble_ErrNotFound then Ok None else Err (ErrWrap ''getting last block ref'' e)
      | Panic \<Rightarrow> Panic
      | Diverge \<Rightarrow> Diverge
      | Ok d \<Rightarrow>
          bindr (wrap ''casting block ref'' (castCid L d)) (\<lambda>bid.
          bindr (IPFS_GetBlock L s bid) (\<lambda>b. Ok (Some b))))"

definition IPFS_GetTxBlock :: "('d, 'b, 'n, 'z) ilib_scheme \<Rightarrow> ('d, 'b, 'n) IPFSStorage \<Rightarrow> cid \<Rightarrow> Block result" where
  "IPFS_GetTxBlock L s i =
     bindr (wrap ''looking up tx block'' (metadataGet L s (typedKey txBlockTPrefix [cid_String L i]))) (\<lambda>bcid.
     bindr (wrap ''casting tx block cid'' (castCid L bcid)) (IPFS_GetBlock L s))"

section \<open>Indexing\<close>

definition indexTxNode ::
    "('d, 'b, 'n, 'z) ilib_scheme \<Rightarrow> 'b \<Rightarrow> Tx \<Rightarrow> cid \<Rightarrow> 'b \<times> unit result" where
  "indexTxNode L b ntx i =
     (case tx_Data ntx of
        DataNode c \<Rightarrow>
          (let k = typedKey nodesTPrefix [node_Id c] in
           if tx_Action ntx = TxActionAdd then batch_Set L b k (cid_Bytes L i)
           else if tx_Action ntx = TxActionRevoke then batch_Delete L b k
           else (b, Err (ErrNew ''unsupported action'')))
      | _ \<Rightarrow> (b, Panic))"

definition indexTxDID ::
    "('d, 'b, 'n, 'z) ilib_scheme \<Rightarrow> 'b \<Rightarrow> Tx \<Rightarrow> cid \<Rightarrow> 'b \<times> unit result" where
  "indexTxDID L b dtx i =
     (case tx_Data dtx of
        DataDID c \<Rightarrow>
          (case did_Document c of
             None \<Rightarrow> (b, Panic)
           | Some doc \<Rightarrow>
               (let k = typedKey didTPrefix [doc_ID doc];
                    ak = typedKey didHisoryTPrefix [doc_ID doc, cid_String L i] in
                case batch_Set L b ak (cid_Bytes L i) of
                  (b1, Ok _) \<Rightarrow>
                    if tx_Action dtx = TxActionAdd \<or> tx_Action dtx = TxActionUpdate then batch_Set L b1 k (cid_Bytes L i)
                    else if tx_Action dtx = TxActionRevoke then batch_Delete L b1 k
                    else (b1, Err (ErrNew ''unsupported action''))
                | (b1, r) \<Rightarrow> (b1, wrap ''appending to did history'' r)))
      | _ \<Rightarrow> (b, Panic))"

definition indexTxVC :: "'b \<Rightarrow> Tx \<Rightarrow> cid \<Rightarrow> 'b \<times> unit result" where
  "indexTxVC b vtx i = (b, Err (ErrNew ''not implemented''))"

text \<open>
  \<^verbatim>\<open>ApplyTx\<close> on the batch it finds in the context or in the store; a panic is recovered into an error.
\<close>

definition applyTx ::
    "('d, 'b, 'n, 'z) ilib_scheme \<Rightarrow> 'b \<Rightarrow> cid \<Rightarrow> Tx \<Rightarrow> 'b \<times> unit result" where
  "applyTx L b i t =
     (let indexed = (\<lambda>r. case r of
            (b', Panic) \<Rightarrow> (b', Err (ErrNew ''failed to apply tx''))
          | (b', r) \<Rightarrow> (b', wrap (''indexing tx '' @ cid_String L i) r)) in
      if tx_Type t = TxType_Node then indexed (indexTxNode L b t i)
      else if tx_Type t = TxType_DID then indexed (indexTxDID L b t i)
      else if tx_Type t = TxType_VC then indexed (indexTxVC b t i)
      else (b, Err (ErrNew ''unsupported tx type'')))"

definition IPFS_ApplyTx :: "('d, 'b, 'n, 'z) ilib_scheme \<Rightarrow> cid \<Rightarrow> Tx \<Rightarrow> ('d, 'b, 'n, unit) iop" where
  "IPFS_ApplyTx L i t = (\<lambda>s.
     case is_pfTipApply s of
       None \<Rightarrow> (s, Err (ErrNew ''applying tx without batch''))
     | Some b \<Rightarrow> (case applyTx L b i t of (b', r) \<Rightarrow> (s\<lparr>is_pfTipApply := Some b'\<rparr>, r)))"

text \<open>
  The loop of \<^verbatim>\<open>indexBlock\<close> over the transactions of the block \<open>bId\<close>: the batch, the IPFS node and the
  outcome. A failed application closes the batch.
\<close>

definition closed :: "('d, 'b, 'n, 'z) ilib_scheme \<Rightarrow> 'b \<Rightarrow> 'b" where
  "closed L b = (case fst (batch_Close L (Some b)) of Some b' \<Rightarrow> b' | None \<Rightarrow> b)"

fun indexTxs ::
    "('d, 'b, 'n, 'z) ilib_scheme \<Rightarrow> (cid \<Rightarrow> bool) \<Rightarrow> bool \<Rightarrow> cid \<Rightarrow> 'b \<Rightarrow> 'n \<Rightarrow> (cid \<times> Tx) list
       \<Rightarrow> 'b \<times> 'n \<times> unit result" where
  "indexTxs L flip test bId b n [] = (b, n, Ok ())"
| "indexTxs L flip test bId b n ((i, t) # txs) =
     (case batch_Set L b (typedKey txBlockTPrefix [cid_String L i]) (cid_Bytes L bId) of
        (b1, Ok _) \<Rightarrow>
          (case applyTx L b1 i t of
             (b2, Ok _) \<Rightarrow>
               if \<not> test \<and> flip i then
                 (case ipfs_Pin L n i of
                    (n', Ok _) \<Rightarrow> indexTxs L flip test bId b2 n' txs
                  | (n', r) \<Rightarrow> (b2, n', wrap ''pinning block'' r))
               else indexTxs L flip test bId b2 n txs
           | (b2, r) \<Rightarrow> (closed L b2, n, wrap ''applying tx'' r))
      | (b1, r) \<Rightarrow> (b1, n, wrap ''a'' r))"

definition indexBlock ::
    "('d, 'b, 'n, 'z) ilib_scheme \<Rightarrow> (cid \<Rightarrow> bool) \<Rightarrow> range_order \<Rightarrow> cid \<Rightarrow> ('d, 'b, 'n, unit) iop" where
  "indexBlock L flip ord bId = inspect (\<lambda>s.
     bindM (wrapM ''getting block'' (lift (IPFS_GetBlock L s bId))) (\<lambda>blk.
     bindM (wrapM ''getting block transactions'' (lift (IPFS_AllTx L s blk))) (\<lambda>txs.
     andThen (wrapM ''pinning block'' (pinAdd L bId))
       (\<lambda>s. case is_pfTipApply s of
          Some b \<Rightarrow>
            (case indexTxs L flip True bId b (is_ipfsNode s) (ord txs) of
               (b', n, r) \<Rightarrow> (s\<lparr>is_pfTipApply := Some b', is_ipfsNode := n\<rparr>, r))
        | None \<Rightarrow>
            (case indexTxs L flip False bId (pb_NewBatch L (is_metadata s)) (is_ipfsNode s) (ord txs) of
               (b', n, Ok _) \<Rightarrow>
                 (case batch_Commit L b' (is_metadata s) of
                    (d, r) \<Rightarrow> (s\<lparr>is_metadata := d, is_ipfsNode := n\<rparr>, wrap ''applying metadata batch index'' r))
             | (b', n, r) \<Rightarrow> (s\<lparr>is_ipfsNode := n\<rparr>, r))))))"

definition readBlockState :: "('d, 'b, 'n, 'z) ilib_scheme \<Rightarrow> ('d, 'b, 'n) IPFSStorage \<Rightarrow> bytes \<Rightarrow> int result" where
  "readBlockState L s k =
     bindr (case metadataGet L s k of
              Err e \<Rightarrow> if e = pebble_ErrNotFound then Ok [0, 0, 0, 0] else Err (ErrWrap ''looking up block state'' e)
            | r \<Rightarrow> r) (\<lambda>cStateB.
     bindr (LittleEndian_Uint32 cStateB) (\<lambda>w. Ok (uint w)))"

definition IPFS_MarkBlock ::
    "('d, 'b, 'n, 'z) ilib_scheme \<Rightarrow> (cid \<Rightarrow> bool) \<Rightarrow> range_order \<Rightarrow> cid \<Rightarrow> int \<Rightarrow> ('d, 'b, 'n, unit) iop" where
  "IPFS_MarkBlock L flip ord i state =
     (let k = typedKey blockStateTPrefix [cid_String L i] in
      inspect (\<lambda>s.
        bindM (lift (readBlockState L s k)) (\<lambda>cState.
        andThen (wrapM ''setting block state'' (metadataSet L k (LittleEndian_PutUint32 (of_int state))))
          (whenM (cState = BlockStateValidated \<and> state = BlockStateAccepted)
             (andThen (wrapM ''indexing block'' (indexBlock L flip ord i))
                (wrapM ''setting block as last prefix''
                   (metadataSet L (typedKey latestBlockTPrefix []) (cid_Bytes L i))))))))"

section \<open>Queries\<close>

definition IPFS_LookupDID ::
    "('d, 'b, 'n, 'z) ilib_scheme \<Rightarrow> ('d, 'b, 'n) IPFSStorage \<Rightarrow> string \<Rightarrow> Document option result" where
  "IPFS_LookupDID L s did =
     bindr (case metadataGet L s (typedKey didTPrefix [did]) of
              Err e \<Rightarrow> if e = pebble_ErrNotFound then Err ErrNotFound else Err (ErrWrap ''finding did metadata key'' e)
            | r \<Rightarrow> r) (\<lambda>txB.
     bindr (wrap ''casting did tx cid'' (castCid L txB)) (\<lambda>c.
     bindr (wrap ''lookup id tx'' (IPFS_GetTx L s c)) (\<lambda>t.
       if tx_Type t \<noteq> TxType_DID then Err (ErrNew ''unexpected tx type'')
       else (case tx_Data t of DataDID d \<Rightarrow> Ok (did_Document d) | _ \<Rightarrow> Panic))))"

text \<open>
  The workers of \<^verbatim>\<open>DIDHistory\<close>, which take identifiers from a channel. A failed fetch is sent to a nil
  channel, so the worker that met it blocks forever; without a worker the remaining identifiers are
  never taken, and the call never returns.
\<close>

fun historyWorkers ::
    "('d, 'b, 'n, 'z) ilib_scheme \<Rightarrow> ('d, 'b, 'n) IPFSStorage \<Rightarrow> nat \<Rightarrow> cid list \<Rightarrow> Tx list \<Rightarrow> Tx list result" where
  "historyWorkers L s w [] txs = Ok txs"
| "historyWorkers L s 0 (c # cs) txs = Diverge"
| "historyWorkers L s (Suc w) (c # cs) txs =
     (case IPFS_GetTx L s c of
        Ok t \<Rightarrow> historyWorkers L s (Suc w) cs (txs @ [t])
      | Err _ \<Rightarrow> historyWorkers L s w cs txs
      | Panic \<Rightarrow> Panic
      | Diverge \<Rightarrow> Diverge)"

abbreviation allTxNWorkers :: nat where "allTxNWorkers \<equiv> 3"

definition IPFS_DIDHistory ::
    "('d, 'b, 'n, 'z) ilib_scheme \<Rightarrow> (cid list \<Rightarrow> cid list) \<Rightarrow> ('d, 'b, 'n) IPFSStorage \<Rightarrow> string \<Rightarrow> Tx list result" where
  "IPFS_DIDHistory L keys s i =
     (let vs = map snd (metadataNewIter L s [didHisoryTPrefix] [didHisoryTPrefix + 1]);
          hCids = remdups (concat (map (\<lambda>v. case cid_Cast L v of None \<Rightarrow> [] | Some c \<Rightarrow> [c]) vs))
      in historyWorkers L s allTxNWorkers (keys hCids) [])"

definition IPFS_Claims :: "string \<Rightarrow> Tx list result" where
  "IPFS_Claims did = Err (ErrNew ''not implemented'')"

definition IPFS_Nodes :: "('d, 'b, 'n, 'z) ilib_scheme \<Rightarrow> ('d, 'b, 'n) IPFSStorage \<Rightarrow> string list result" where
  "IPFS_Nodes L s =
     Ok (map (\<lambda>(k, v). bytes_string (drop 1 k)) (metadataNewIter L s [nodesTPrefix] [nodesTPrefix + 1]))"

definition IPFS_Node :: "('d, 'b, 'n, 'z) ilib_scheme \<Rightarrow> ('d, 'b, 'n) IPFSStorage \<Rightarrow> string \<Rightarrow> Node result" where
  "IPFS_Node L s i =
     bindr (case metadataGet L s (typedKey nodesTPrefix [i]) of
              Err e \<Rightarrow> if e = pebble_ErrNotFound then Err ErrNotFound else Err (ErrWrap ''looking up node key'' e)
            | r \<Rightarrow> r) (\<lambda>v.
     bindr (wrap ''casting node cid'' (castCid L v)) (\<lambda>c.
     bindr (wrap ''getting node tx'' (IPFS_GetTx L s c)) (\<lambda>nodeTx.
       if tx_Type nodeTx \<noteq> TxType_Node then Err (ErrNew ''unexpected tx type'')
       else if tx_Action nodeTx = TxActionRevoke then Err ErrNotFound
       else (case tx_Data nodeTx of DataNode n \<Rightarrow> Ok n | _ \<Rightarrow> Panic))))"

definition IPFS_HasGenesisApplied :: "('d, 'b, 'n, 'z) ilib_scheme \<Rightarrow> ('d, 'b, 'n) IPFSStorage \<Rightarrow> bool" where
  "IPFS_HasGenesisApplied L s = is_Ok (metadataGet L s (typedKey genesisTPrefix []))"

section \<open>The method table and the genesis\<close>

text \<open>The methods that \<^verbatim>\<open>ApplyGenesis\<close> may reach through the interface: all but itself.\<close>

definition ipfsBase :: "('d, 'b, 'n, 'z) ilib_scheme \<Rightarrow> (cid \<Rightarrow> bool) \<Rightarrow> ('d, 'b, 'n) IPFSStorage Store" where
  "ipfsBase L flip =
     \<lparr>PutTx = (\<lambda>s t. IPFS_PutTx L t s), GetTx = IPFS_GetTx L,
      PutBlock = (\<lambda>s b. IPFS_PutBlock L b s), GetBlock = IPFS_GetBlock L,
      AllTx = IPFS_AllTx L, PutSet = (\<lambda>s st. IPFS_PutSet L flip st s), GetSet = IPFS_GetSet L,
      GetTxBlock = IPFS_GetTxBlock L, MarkBlock = (\<lambda>ord s i st. IPFS_MarkBlock L flip ord i st s),
      UpdateLastApplied = (\<lambda>s i. IPFS_UpdateLastApplied L i s), GetLastApplied = IPFS_GetLastApplied L,
      LookupDID = IPFS_LookupDID L, Nodes = IPFS_Nodes L, GetNode = IPFS_Node L,
      HasGenesisApplied = IPFS_HasGenesisApplied L, ApplyGenesis = (\<lambda>ord s g. (s, Diverge)),
      ApplyTx = (\<lambda>s i t. IPFS_ApplyTx L i t s), StartTest = IPFS_StartTest L,
      CompleteTest = IPFS_CompleteTest L\<rparr>"

text \<open>The loop over the genesis transactions: each is stored and indexed in the batch.\<close>

fun genesisTxs ::
    "('d, 'b, 'n, 'z) ilib_scheme \<Rightarrow> 'b \<Rightarrow> Tx list \<Rightarrow> ('d, 'b, 'n, 'b \<times> cid list) iop" where
  "genesisTxs L b [] = ret (b, [])"
| "genesisTxs L b (t # ts) =
     bindM (wrapM ''storing tx'' (IPFS_PutTx L t)) (\<lambda>c.
       (case applyTx L b c t of
          (b', r) \<Rightarrow>
            andThen (wrapM ''applying tx'' (lift r))
              (bindM (genesisTxs L b' ts) (\<lambda>(b'', cs). ret (b'', c # cs)))))"

definition batchSet :: "('d, 'b, 'n, 'z) ilib_scheme \<Rightarrow> string \<Rightarrow> 'b \<Rightarrow> bytes \<Rightarrow> bytes \<Rightarrow> 'b result" where
  "batchSet L msg b k v = (case batch_Set L b k v of (b', r) \<Rightarrow> bindr (wrap msg r) (\<lambda>_. Ok b'))"

definition IPFS_ApplyGenesis ::
    "('d, 'b, 'n, 'z) ilib_scheme \<Rightarrow> (cid \<Rightarrow> bool) \<Rightarrow> GenesisInfo \<Rightarrow> ('d, 'b, 'n, unit) iop" where
  "IPFS_ApplyGenesis L flip g = inspect (\<lambda>s.
     bindM (genesisTxs L (pb_NewBatch L (is_metadata s)) (g_Txs g)) (\<lambda>(batch, txs).
     bindM (wrapM ''storing tx set'' (\<lambda>s. NewTxSet L (ipfsBase L flip) s txs)) (\<lambda>st.
       if ts_cid st \<noteq> b_TxRoot (g_Block g) then raise (ErrNew ''calculated tx set does not match block root'')
       else
         bindM (wrapM ''putting block'' (IPFS_PutBlock L (g_Block g))) (\<lambda>bcid.
         bindM (lift (batchSet L ''setting genesis as last block'' batch (typedKey latestBlockTPrefix []) (cid_Bytes L bcid))) (\<lambda>b1.
         bindM (lift (batchSet L ''storing genesis prefix'' b1 (typedKey genesisTPrefix []) [])) (\<lambda>b2.
           wrapM ''applying batch'' (\<lambda>s. case batch_Commit L b2 (is_metadata s) of (d, r) \<Rightarrow> (s\<lparr>is_metadata := d\<rparr>, r))))))))"

definition ipfsstore :: "('d, 'b, 'n, 'z) ilib_scheme \<Rightarrow> (cid \<Rightarrow> bool) \<Rightarrow> ('d, 'b, 'n) IPFSStorage Store" where
  "ipfsstore L flip = (ipfsBase L flip)\<lparr>ApplyGenesis := (\<lambda>ord s g. IPFS_ApplyGenesis L flip g s)\<rparr>"

end
