(* ===== verification/IPFS_Laws.thy ===== *)
theory IPFS_Laws
  imports IPFS_Model Validator_Laws
begin

text \<open>
  What is relied on of Pebble and of the IPFS node, the store's metadata as one map, and the laws of
  the store's operations over that map.
\<close>

section \<open>Keys\<close>

lemma typedKey_Cons:
  "typedKey ty (p # ps) = ty # butlast (concat (map (\<lambda>p. string_bytes p @ [tableSep]) (p # ps)))"
  by (simp add: typedKey_def)

lemma typedKey_hd: "\<exists>r. typedKey ty ps = ty # r"
  by (cases ps) (simp_all add: typedKey_def)

lemma typedKey_type: "typedKey ty ps = typedKey ty' ps' \<Longrightarrow> ty = ty'"
  using typedKey_hd [of ty ps] typedKey_hd [of ty' ps'] by auto

lemma typedKey_one: "typedKey ty [p] = ty # string_bytes p"
  by (simp add: typedKey_Cons butlast_append)

lemma typedKey_two: "typedKey ty [p, q] = ty # string_bytes p @ tableSep # string_bytes q"
  by (simp add: typedKey_Cons butlast_append)

lemma sep_byte: "(of_nat (of_char c) :: byte) = tableSep \<longleftrightarrow> c = CHR '':''"
proof
  assume "(of_nat (of_char c) :: byte) = tableSep"
  then have "unat (of_nat (of_char c) :: byte) = unat (of_nat (of_char CHR '':'') :: byte)"
    unfolding tableSep_def by (rule arg_cong)
  then have "(of_char c :: nat) = of_char CHR '':''" unfolding unat_of_char_byte .
  then show "c = CHR '':''" by (simp only: of_char_eq_iff)
qed (simp add: tableSep_def)

lemma sep_bytes: "tableSep \<in> set (string_bytes q) \<longleftrightarrow> CHR '':'' \<in> set q"
proof -
  have "tableSep \<in> set (string_bytes q) \<longleftrightarrow> (\<exists>c\<in>set q. (of_nat (of_char c) :: byte) = tableSep)"
    unfolding string_bytes_def set_map image_iff by (simp only: eq_commute)
  then show ?thesis unfolding sep_byte by blast
qed

lemma split_last:
  assumes "xs @ s # ys = xs' @ s # ys'" and "s \<notin> set ys" and "s \<notin> set ys'"
  shows "xs = xs' \<and> ys = ys'"
proof -
  have tail: "takeWhile (\<lambda>x. x \<noteq> s) (rev (us @ s # vs)) = rev vs" if "s \<notin> set vs" for us vs
  proof -
    have "\<And>x. x \<in> set (rev vs) \<Longrightarrow> x \<noteq> s" using that by auto
    then have "takeWhile (\<lambda>x. x \<noteq> s) (rev vs @ s # rev us) = rev vs @ takeWhile (\<lambda>x. x \<noteq> s) (s # rev us)"
      by (rule takeWhile_append2)
    then show ?thesis by simp
  qed
  have "rev ys = rev ys'" using tail [OF assms(2), of xs] tail [OF assms(3), of xs'] assms(1) by simp
  then show ?thesis using assms(1) by simp
qed

section \<open>What is relied on of Pebble and IPFS\<close>

text \<open>
  The contents of a database and of a batch as maps (a batch maps a key to the value it sets, or to
  nothing where it deletes): reads, writes, deletes and commits behave as on maps.
\<close>

definition pebble_ok ::
    "('d, 'b, 'n, 'z) ilib_scheme \<Rightarrow> ('d \<Rightarrow> bytes \<Rightarrow> bytes option) \<Rightarrow> ('b \<Rightarrow> bytes \<Rightarrow> bytes option option) \<Rightarrow> bool" where
  "pebble_ok L dv bv \<longleftrightarrow>
     (\<forall>d k. pb_Get L d k = (case dv d k of None \<Rightarrow> Err pebble_ErrNotFound | Some v \<Rightarrow> Ok v))
   \<and> (\<forall>d k v. \<exists>d'. pb_Set L d k v = (d', Ok ()) \<and> dv d' = (dv d)(k \<mapsto> v))
   \<and> (\<forall>d b k. batch_Get L d b k =
        (case (case bv b k of Some x \<Rightarrow> x | None \<Rightarrow> dv d k) of None \<Rightarrow> Err pebble_ErrNotFound | Some v \<Rightarrow> Ok v))
   \<and> (\<forall>b k v. \<exists>b'. batch_Set L b k v = (b', Ok ()) \<and> bv b' = (bv b)(k \<mapsto> Some v))
   \<and> (\<forall>b k. \<exists>b'. batch_Delete L b k = (b', Ok ()) \<and> bv b' = (bv b)(k \<mapsto> None))
   \<and> (\<forall>b d. \<exists>d'. batch_Commit L b d = (d', Ok ()) \<and> dv d' = (\<lambda>k. case bv b k of Some x \<Rightarrow> x | None \<Rightarrow> dv d k))
   \<and> (\<forall>d. bv (pb_NewBatch L d) = (\<lambda>_. None) \<and> bv (pb_NewIndexedBatch L d) = (\<lambda>_. None))"

text \<open>Pinning changes no content, and no error of IPFS is the sentinel of the storage package.\<close>

definition ipfs_ok :: "('d, 'b, 'n, 'z) ilib_scheme \<Rightarrow> bool" where
  "ipfs_ok L \<longleftrightarrow>
     (\<forall>n i. ipfs_Get L (fst (ipfs_Pin L n i)) = ipfs_Get L n)
   \<and> (\<forall>n i e. ipfs_Get L n i = Err e \<longrightarrow> \<not> errors_Is e ErrNotFound)"

text \<open>The metadata a store sees: its database under its batch.\<close>

definition sees ::
    "('d \<Rightarrow> bytes \<Rightarrow> bytes option) \<Rightarrow> ('b \<Rightarrow> bytes \<Rightarrow> bytes option option) \<Rightarrow> ('d, 'b, 'n) IPFSStorage
       \<Rightarrow> bytes \<Rightarrow> bytes option" where
  "sees dv bv s k =
     (case is_pfTipApply s of
        Some b \<Rightarrow> (case bv b k of Some x \<Rightarrow> x | None \<Rightarrow> dv (is_metadata s) k)
      | None \<Rightarrow> dv (is_metadata s) k)"

lemma metadataGet_sees:
  assumes "pebble_ok L dv bv"
  shows "metadataGet L s k = (case sees dv bv s k of None \<Rightarrow> Err pebble_ErrNotFound | Some v \<Rightarrow> Ok v)"
  using assms by (simp add: metadataGet_def sees_def pebble_ok_def split: option.splits)

lemma metadataSet_sees:
  assumes "pebble_ok L dv bv"
  shows "\<exists>s'. metadataSet L k v s = (s', Ok ()) \<and> sees dv bv s' = (sees dv bv s)(k \<mapsto> v)
    \<and> is_ipfsNode s' = is_ipfsNode s \<and> (is_pfTipApply s' = None \<longleftrightarrow> is_pfTipApply s = None)
    \<and> (is_pfTipApply s \<noteq> None \<longrightarrow> is_metadata s' = is_metadata s)"
proof (cases "is_pfTipApply s")
  case None
  from assms obtain d where "pb_Set L (is_metadata s) k v = (d, Ok ())" "dv d = (dv (is_metadata s))(k \<mapsto> v)"
    unfolding pebble_ok_def by blast
  then show ?thesis using None by (auto simp: metadataSet_def sees_def fun_eq_iff)
next
  case (Some b)
  from assms obtain b' where "batch_Set L b k v = (b', Ok ())" "bv b' = (bv b)(k \<mapsto> Some v)"
    unfolding pebble_ok_def by blast
  then show ?thesis using Some by (auto simp: metadataSet_def sees_def fun_eq_iff split: option.splits)
qed

section \<open>Indexing\<close>

lemma batch_Set_view:
  assumes "pebble_ok L dv bv" and "batch_Set L b k v = (b', r)"
  shows "r = Ok () \<and> bv b' = (bv b)(k \<mapsto> Some v)"
  using assms unfolding pebble_ok_def by (metis prod.inject)

lemma batch_Delete_view:
  assumes "pebble_ok L dv bv" and "batch_Delete L b k = (b', r)"
  shows "r = Ok () \<and> bv b' = (bv b)(k \<mapsto> None)"
  using assms unfolding pebble_ok_def by (metis prod.inject)

text \<open>Applying a transaction touches the keys of nodes and of DIDs only.\<close>

definition index_type :: "byte \<Rightarrow> bool" where
  "index_type ty \<longleftrightarrow> ty \<in> {didTPrefix, didHisoryTPrefix, nodesTPrefix}"

lemma typedKey_ne: "ty \<noteq> ty' \<Longrightarrow> typedKey ty ps \<noteq> typedKey ty' ps'"
  by (auto dest: typedKey_type)

lemma indexTxNode_view:
  assumes "pebble_ok L dv bv" and "indexTxNode L b t i = (b', r)" and "\<not> index_type ty"
  shows "bv b' (typedKey ty ps) = bv b (typedKey ty ps)"
proof -
  have "ty \<noteq> nodesTPrefix" using assms(3) by (simp add: index_type_def)
  then show ?thesis
    using assms(2) batch_Set_view [OF assms(1), of b] batch_Delete_view [OF assms(1), of b]
    by (auto simp: indexTxNode_def Let_def typedKey_ne split: TxData.splits if_splits)
qed

lemma indexTxDID_view:
  assumes "pebble_ok L dv bv" and "indexTxDID L b t i = (b', r)" and "\<not> index_type ty"
  shows "bv b' (typedKey ty ps) = bv b (typedKey ty ps)"
proof -
  have ty: "ty \<noteq> didTPrefix" "ty \<noteq> didHisoryTPrefix" using assms(3) by (simp_all add: index_type_def)
  show ?thesis
  proof (cases "\<exists>d doc. tx_Data t = DataDID d \<and> did_Document d = Some doc")
    case False
    then show ?thesis using assms(2) by (auto simp: indexTxDID_def split: TxData.splits option.splits)
  next
    case True
    then obtain d doc where d: "tx_Data t = DataDID d" "did_Document d = Some doc" by blast
    obtain b1 r1 where b1: "batch_Set L b (typedKey didHisoryTPrefix [doc_ID doc, cid_String L i]) (cid_Bytes L i) = (b1, r1)"
      by fastforce
    from batch_Set_view [OF assms(1) this] have r1: "r1 = Ok ()"
      and v1: "bv b1 (typedKey ty ps) = bv b (typedKey ty ps)" using ty by (simp_all add: typedKey_ne)
    have "bv b' (typedKey ty ps) = bv b1 (typedKey ty ps)"
      using assms(2) d b1 r1 ty batch_Set_view [OF assms(1), of b1] batch_Delete_view [OF assms(1), of b1]
      by (auto simp: indexTxDID_def Let_def typedKey_ne split: if_splits)
    with v1 show ?thesis by simp
  qed
qed

lemma applyTx_view:
  assumes "pebble_ok L dv bv" and "applyTx L b i t = (b', r)" and "\<not> index_type ty"
  shows "bv b' (typedKey ty ps) = bv b (typedKey ty ps)"
  using assms(2) indexTxNode_view [OF assms(1) _ assms(3)] indexTxDID_view [OF assms(1) _ assms(3)]
  by (auto simp: applyTx_def indexTxVC_def Let_def split: if_splits prod.splits result.splits)

lemma indexTxs_view:
  assumes pb: "pebble_ok L dv bv" and ip: "ipfs_ok L"
  shows "indexTxs L flip test bId b n txs = (b', n', Ok ()) \<Longrightarrow>
    ipfs_Get L n' = ipfs_Get L n
    \<and> (\<forall>(c, t)\<in>set txs. bv b' (typedKey txBlockTPrefix [cid_String L c]) = Some (Some (cid_Bytes L bId)))
    \<and> (\<forall>c. bv b (typedKey txBlockTPrefix [c]) = Some (Some (cid_Bytes L bId)) \<longrightarrow>
           bv b' (typedKey txBlockTPrefix [c]) = Some (Some (cid_Bytes L bId)))"
proof (induction txs arbitrary: b n)
  case (Cons ct txs)
  obtain c t where ct: "ct = (c, t)" by fastforce
  obtain b1 r1 where b1: "batch_Set L b (typedKey txBlockTPrefix [cid_String L c]) (cid_Bytes L bId) = (b1, r1)" by fastforce
  from batch_Set_view [OF pb b1] have v1: "r1 = Ok ()" "bv b1 = (bv b)(typedKey txBlockTPrefix [cid_String L c] \<mapsto> Some (cid_Bytes L bId))"
    by auto
  obtain b2 r2 where b2: "applyTx L b1 c t = (b2, r2)" by fastforce
  have "\<not> index_type txBlockTPrefix" by (simp add: index_type_def)
  note v2 = applyTx_view [OF pb b2 this]
  define n1 where "n1 = (if \<not> test \<and> flip c then fst (ipfs_Pin L n c) else n)"
  have n1: "ipfs_Get L n1 = ipfs_Get L n" using ip by (simp add: n1_def ipfs_ok_def)
  have "indexTxs L flip test bId b2 n1 txs = (b', n', Ok ())"
    using Cons.prems b1 b2 v1(1)
    by (auto simp: ct n1_def split: result.splits prod.splits if_splits)
  from Cons.IH [OF this] v1(2) v2 n1 show ?case by (auto simp: ct)
qed simp

text \<open>A transaction with data of its type and an action that type supports is always indexed.\<close>

definition indexable :: "Tx \<Rightarrow> bool" where
  "indexable t \<longleftrightarrow>
     (case tx_Data t of
        DataNode _ \<Rightarrow> tx_Type t = TxType_Node \<and> tx_Action t \<in> {TxActionAdd, TxActionRevoke}
      | DataDID d \<Rightarrow> tx_Type t = TxType_DID \<and> did_Document d \<noteq> None
          \<and> tx_Action t \<in> {TxActionAdd, TxActionUpdate, TxActionRevoke}
      | _ \<Rightarrow> False)"

lemma batch_Ok:
  assumes "pebble_ok L dv bv"
  shows "snd (batch_Set L b k v) = Ok ()" and "snd (batch_Delete L b k) = Ok ()"
  using assms unfolding pebble_ok_def by (metis snd_conv)+

lemma applyTx_Ok:
  assumes "pebble_ok L dv bv" and "indexable t"
  shows "snd (applyTx L b i t) = Ok ()"
  using assms(2)
  by (auto simp: indexable_def applyTx_def indexTxNode_def indexTxDID_def Let_def split: TxData.splits
      prod.splits result.splits option.splits
      dest!: batch_Set_view [OF assms(1)] batch_Delete_view [OF assms(1)])

lemma indexTxs_Ok:
  assumes pb: "pebble_ok L dv bv" and pin: "\<And>n i. snd (ipfs_Pin L n i) = Ok ()"
  shows "\<forall>(c, t)\<in>set txs. indexable t \<Longrightarrow> \<exists>b' n'. indexTxs L flip test bId b n txs = (b', n', Ok ())"
proof (induction txs arbitrary: b n)
  case (Cons ct txs)
  obtain c t where ct: "ct = (c, t)" by fastforce
  have set: "batch_Set L b k v = (fst (batch_Set L b k v), Ok ())" for b k v
    by (simp add: prod_eq_iff batch_Ok [OF pb])
  have app: "applyTx L b c t = (fst (applyTx L b c t), Ok ())" for b
    using Cons.prems applyTx_Ok [OF pb, of t] by (simp add: ct prod_eq_iff)
  have pin': "ipfs_Pin L n i = (fst (ipfs_Pin L n i), Ok ())" for n i
    by (simp add: prod_eq_iff pin)
  show ?case unfolding ct indexTxs.simps
    by (subst set, simp, subst app, simp, subst pin', simp) (use Cons in auto)
qed simp

section \<open>Accepting a block\<close>

lemma same_objects:
  assumes "ipfs_Get L (is_ipfsNode s') = ipfs_Get L (is_ipfsNode s)"
  shows "IPFS_GetBlock L s' = IPFS_GetBlock L s" and "IPFS_AllTx L s' = IPFS_AllTx L s"
proof -
  have raw: "getRaw L s' = getRaw L s" using assms by (simp add: fun_eq_iff getRaw_def)
  then show "IPFS_GetBlock L s' = IPFS_GetBlock L s" by (simp add: fun_eq_iff IPFS_GetBlock_def)
  have "IPFS_GetTx L s' = IPFS_GetTx L s" "IPFS_GetSet L s' = IPFS_GetSet L s"
    using raw by (simp_all add: fun_eq_iff IPFS_GetTx_def IPFS_GetSet_def)
  then show "IPFS_AllTx L s' = IPFS_AllTx L s" by (intro ext) (simp add: IPFS_AllTx_def)
qed

lemma indexBlock_view:
  assumes pb: "pebble_ok L dv bv" and ip: "ipfs_ok L" and pin: "\<And>n i. snd (ipfs_Pin L n i) = Ok ()"
    and ord: "range_ok ord" and blk: "IPFS_GetBlock L s i = Ok blk" and txs: "IPFS_AllTx L s blk = Ok txs"
    and good: "\<forall>(c, t)\<in>set txs. indexable t"
  shows "\<exists>s'. indexBlock L flip ord i s = (s', Ok ())
    \<and> ipfs_Get L (is_ipfsNode s') = ipfs_Get L (is_ipfsNode s)
    \<and> (\<forall>(c, t)\<in>set txs. sees dv bv s' (typedKey txBlockTPrefix [cid_String L c]) = Some (cid_Bytes L i))"
proof -
  have set: "set (ord txs) = set txs" using ord unfolding range_ok_def by (metis set_mset_mset)
  obtain n0 where n0: "ipfs_Pin L (is_ipfsNode s) i = (n0, Ok ())" "ipfs_Get L n0 = ipfs_Get L (is_ipfsNode s)"
    using pin [of "is_ipfsNode s" i] ip unfolding ipfs_ok_def by (metis prod.collapse)
  have run: "\<exists>b' n'. indexTxs L flip test i b n0 (ord txs) = (b', n', Ok ())
      \<and> ipfs_Get L n' = ipfs_Get L n0
      \<and> (\<forall>(c, t)\<in>set txs. bv b' (typedKey txBlockTPrefix [cid_String L c]) = Some (Some (cid_Bytes L i)))" for test b
    using indexTxs_Ok [OF pb pin, of "ord txs" flip test i b n0] indexTxs_view [OF pb ip, of flip test i b n0 "ord txs"] good
    unfolding set by blast
  show ?thesis
  proof (cases "is_pfTipApply s")
    case None
    obtain b' n' where b': "indexTxs L flip False i (pb_NewBatch L (is_metadata s)) n0 (ord txs) = (b', n', Ok ())"
      "ipfs_Get L n' = ipfs_Get L n0"
      "\<forall>(c, t)\<in>set txs. bv b' (typedKey txBlockTPrefix [cid_String L c]) = Some (Some (cid_Bytes L i))"
      using run [of False "pb_NewBatch L (is_metadata s)"] by blast
    obtain d where d: "batch_Commit L b' (is_metadata s) = (d, Ok ())"
      "dv d = (\<lambda>k. case bv b' k of Some x \<Rightarrow> x | None \<Rightarrow> dv (is_metadata s) k)"
      using pb unfolding pebble_ok_def by blast
    have "indexBlock L flip ord i s = (s\<lparr>is_metadata := d, is_ipfsNode := n'\<rparr>, Ok ())"
      using None blk txs n0(1) b'(1) d(1)
      by (simp add: indexBlock_def inspect_def bindM_def andThen_def wrapM_def lift_def pinAdd_def)
    then show ?thesis using b'(2,3) n0(2) d(2) None by (auto simp: sees_def)
  next
    case (Some b)
    obtain b' n' where b': "indexTxs L flip True i b n0 (ord txs) = (b', n', Ok ())"
      "ipfs_Get L n' = ipfs_Get L n0"
      "\<forall>(c, t)\<in>set txs. bv b' (typedKey txBlockTPrefix [cid_String L c]) = Some (Some (cid_Bytes L i))"
      using run [of True b] by blast
    have "indexBlock L flip ord i s = (s\<lparr>is_pfTipApply := Some b', is_ipfsNode := n'\<rparr>, Ok ())"
      using Some blk txs n0(1) b'(1)
      by (simp add: indexBlock_def inspect_def bindM_def andThen_def wrapM_def lift_def pinAdd_def)
    then show ?thesis using b'(2,3) n0(2) by (auto simp: sees_def)
  qed
qed

lemma readBlockState_validated:
  assumes "pebble_ok L dv bv" and "sees dv bv s k = Some (LittleEndian_PutUint32 (of_int BlockStateValidated))"
  shows "readBlockState L s k = Ok BlockStateValidated"
  using metadataGet_sees [OF assms(1), of s k] assms(2)
  by (simp add: readBlockState_def LittleEndian_PutUint32_def LittleEndian_Uint32_def)

lemma MarkBlock_accepts:
  assumes pb: "pebble_ok L dv bv" and ip: "ipfs_ok L" and pin: "\<And>n i. snd (ipfs_Pin L n i) = Ok ()"
    and ord: "range_ok ord" and blk: "IPFS_GetBlock L s i = Ok blk" and txs: "IPFS_AllTx L s blk = Ok txs"
    and good: "\<forall>(c, t)\<in>set txs. indexable t"
    and st: "sees dv bv s (typedKey blockStateTPrefix [cid_String L i]) = Some (LittleEndian_PutUint32 (of_int BlockStateValidated))"
  shows "\<exists>s'. IPFS_MarkBlock L flip ord i BlockStateAccepted s = (s', Ok ())
    \<and> ipfs_Get L (is_ipfsNode s') = ipfs_Get L (is_ipfsNode s)
    \<and> sees dv bv s' (typedKey latestBlockTPrefix []) = Some (cid_Bytes L i)
    \<and> (\<forall>(c, t)\<in>set txs. sees dv bv s' (typedKey txBlockTPrefix [cid_String L c]) = Some (cid_Bytes L i))"
proof -
  let ?k = "typedKey blockStateTPrefix [cid_String L i]"
  let ?v = "LittleEndian_PutUint32 (of_int BlockStateAccepted)"
  obtain s1 where s1: "metadataSet L ?k ?v s = (s1, Ok ())" "is_ipfsNode s1 = is_ipfsNode s"
    using metadataSet_sees [OF pb, of ?k ?v s] by blast
  then have obj: "ipfs_Get L (is_ipfsNode s1) = ipfs_Get L (is_ipfsNode s)" by simp
  obtain s2 where s2: "indexBlock L flip ord i s1 = (s2, Ok ())" "ipfs_Get L (is_ipfsNode s2) = ipfs_Get L (is_ipfsNode s)"
    "\<forall>(c, t)\<in>set txs. sees dv bv s2 (typedKey txBlockTPrefix [cid_String L c]) = Some (cid_Bytes L i)"
    using indexBlock_view [OF pb ip pin ord, of s1 i blk txs flip] blk txs good
    unfolding same_objects [OF obj] obj by blast
  obtain s3 where s3: "metadataSet L (typedKey latestBlockTPrefix []) (cid_Bytes L i) s2 = (s3, Ok ())"
    "sees dv bv s3 = (sees dv bv s2)(typedKey latestBlockTPrefix [] \<mapsto> cid_Bytes L i)" "is_ipfsNode s3 = is_ipfsNode s2"
    using metadataSet_sees [OF pb, of "typedKey latestBlockTPrefix []" "cid_Bytes L i" s2] by blast
  have "IPFS_MarkBlock L flip ord i BlockStateAccepted s = (s3, Ok ())"
    using readBlockState_validated [OF pb st] s1(1) s2(1) s3(1)
    by (simp add: IPFS_MarkBlock_def Let_def inspect_def bindM_def andThen_def wrapM_def lift_def whenM_def)
  then show ?thesis using s2(2,3) s3(2,3) by (auto simp: typedKey_ne)
qed

section \<open>Errors of lookups\<close>

text \<open>No error of \<^verbatim>\<open>GetTxBlock\<close> is the sentinel \<^verbatim>\<open>storage.ErrNotFound\<close>.\<close>

lemma GetTxBlock_error:
  assumes pb: "pebble_ok L dv bv" and ip: "ipfs_ok L" and "IPFS_GetTxBlock L s c = Err e"
  shows "\<not> errors_Is e ErrNotFound"
proof -
  have blk: "\<not> errors_Is e' ErrNotFound" if "IPFS_GetBlock L s i = Err e'" for i e'
    using that ip
    by (cases "ipfs_Get L (is_ipfsNode s) i"; cases "mp_dec_block L (case ipfs_Get L (is_ipfsNode s) i of Ok d \<Rightarrow> d | _ \<Rightarrow> [])")
       (auto simp: IPFS_GetBlock_def getRaw_def msgpack_def ipfs_ok_def)
  show ?thesis
  proof (cases "sees dv bv s (typedKey txBlockTPrefix [cid_String L c])")
    case None
    then have "e = ErrWrap ''looking up tx block'' pebble_ErrNotFound"
      using assms(3) by (simp add: IPFS_GetTxBlock_def metadataGet_sees [OF pb])
    then show ?thesis by simp
  next
    case (Some v)
    then show ?thesis
      using assms(3) blk
      by (cases "cid_Cast L v") (auto simp: IPFS_GetTxBlock_def metadataGet_sees [OF pb] castCid_def)
  qed
qed

lemma valid_run_new_empty:
  assumes "pebble_ok L dv bv" and "ipfs_ok L" and "valid_run L (ipfsstore L flip) True s txs"
  shows "txs = []"
proof (cases txs)
  case (Cons ct txs')
  then obtain e where "IPFS_GetTxBlock L s (fst ct) = Err e" "errors_Is e ErrNotFound"
    using assms(3) by (cases ct) (auto simp: ipfsstore_def ipfsBase_def)
  then show ?thesis using GetTxBlock_error [OF assms(1,2)] by blast
qed

lemma MarkBlock_unvalidated_node:
  assumes "pebble_ok L dv bv" and "IPFS_MarkBlock L flip ord i BlockStateUnvalidated s = (s', r)"
  shows "is_ipfsNode s' = is_ipfsNode s"
proof -
  let ?k = "typedKey blockStateTPrefix [cid_String L i]"
  let ?v = "LittleEndian_PutUint32 (of_int BlockStateUnvalidated)"
  obtain s1 where "metadataSet L ?k ?v s = (s1, Ok ())" "is_ipfsNode s1 = is_ipfsNode s"
    using metadataSet_sees [OF assms(1), of ?k ?v s] by blast
  then show ?thesis
    using assms(2)
    by (cases "readBlockState L s ?k")
       (auto simp: IPFS_MarkBlock_def Let_def inspect_def bindM_def andThen_def wrapM_def lift_def whenM_def ret_def)
qed

section \<open>Test stores\<close>

text \<open>The state of a test store over the database \<open>d\<close>.\<close>

definition testing :: "'d \<Rightarrow> ('d, 'b, 'n) IPFSStorage \<Rightarrow> bool" where
  "testing d s \<longleftrightarrow> is_metadata s = d \<and> is_pfTipApply s \<noteq> None"

lemma testing_metadataSet [keeps_intros]: "keepsM (testing d) (metadataSet L k v)"
  by (auto simp: keepsM_def testing_def metadataSet_def split: prod.splits)

lemma testing_putRaw [keeps_intros]: "keepsM (testing d) (putRaw L v)"
  by (auto simp: keepsM_def testing_def putRaw_def split: prod.splits)

lemma testing_pinAdd [keeps_intros]: "keepsM (testing d) (pinAdd L i)"
  by (auto simp: keepsM_def testing_def pinAdd_def split: prod.splits)

lemma testing_ApplyTx: "keepsM (testing d) (IPFS_ApplyTx L i t)"
  by (auto simp: keepsM_def testing_def IPFS_ApplyTx_def split: prod.splits)

lemma testing_UpdateLastApplied: "keepsM (testing d) (IPFS_UpdateLastApplied L i)"
  unfolding IPFS_UpdateLastApplied_def by (intro keeps_intros)

lemma testing_index: "keepsM (testing d)
    (\<lambda>s. case is_pfTipApply s of Some b \<Rightarrow> (case f s b of (b', n, r) \<Rightarrow> (s\<lparr>is_pfTipApply := Some b', is_ipfsNode := n\<rparr>, r))
       | None \<Rightarrow> g s)"
  by (auto simp: keepsM_def testing_def split: prod.splits)

lemma testing_MarkBlock: "keepsM (testing d) (IPFS_MarkBlock L flip ord i st)"
  unfolding IPFS_MarkBlock_def indexBlock_def Let_def by (intro keeps_intros testing_index)

lemma testing_puts: "keepsM (testing d) (IPFS_PutTx L t)" "keepsM (testing d) (IPFS_PutBlock L b)"
  "keepsM (testing d) (IPFS_PutSet L flip st)"
  unfolding IPFS_PutTx_def IPFS_PutBlock_def IPFS_PutSet_def by (intro keeps_intros)+

text \<open>The states a test store started from \<open>s\<close> goes through.\<close>

inductive test_run :: "('d, 'b, 'n, 'z) ilib_scheme \<Rightarrow> (cid \<Rightarrow> bool) \<Rightarrow> ('d, 'b, 'n) IPFSStorage \<Rightarrow> ('d, 'b, 'n) IPFSStorage \<Rightarrow> bool"
  for L flip s where
  started: "IPFS_StartTest L s = Ok t \<Longrightarrow> test_run L flip s t"
| applied: "test_run L flip s t \<Longrightarrow> test_run L flip s (fst (IPFS_ApplyTx L i tx t))"
| marked: "test_run L flip s t \<Longrightarrow> test_run L flip s (fst (IPFS_MarkBlock L flip ord i st t))"
| latest: "test_run L flip s t \<Longrightarrow> test_run L flip s (fst (IPFS_UpdateLastApplied L i t))"
| put_tx: "test_run L flip s t \<Longrightarrow> test_run L flip s (fst (IPFS_PutTx L tx t))"
| put_block: "test_run L flip s t \<Longrightarrow> test_run L flip s (fst (IPFS_PutBlock L b t))"
| put_set: "test_run L flip s t \<Longrightarrow> test_run L flip s (fst (IPFS_PutSet L flip st t))"

lemma test_run_testing: "test_run L flip s t \<Longrightarrow> testing (is_metadata s) t"
proof (induction rule: test_run.induct)
  case (started t)
  then show ?case by (auto simp: IPFS_StartTest_def testing_def split: if_splits)
qed (auto intro: keepsM_D testing_ApplyTx testing_MarkBlock testing_UpdateLastApplied testing_puts)

end
