(* ===== verification/IPFS_Props.thy ===== *)
theory IPFS_Props
  imports IPFS_Laws Storage_Props Consensus_Laws
begin

text \<open>
  Properties of the store over IPFS and Pebble: which keys can collide, what accepting a block leaves
  to be read, that a test store keeps its writes to itself, and two defects of a node that runs on it.
\<close>

section \<open>An example store\<close>

text \<open>A database and a batch as lists of entries, the latest first; an IPFS node that holds the objects it was given.\<close>

definition idemo ::
    "clib \<Rightarrow> ((bytes \<times> bytes) list, (bytes \<times> bytes option) list, (cid \<times> bytes) list) ilib" where
  "idemo C = clib.extend C (ilib.fields
     (\<lambda>d k. case map_of d k of None \<Rightarrow> Err pebble_ErrNotFound | Some v \<Rightarrow> Ok v)
     (\<lambda>d k v. (alist_put k v d, Ok ()))
     (\<lambda>d lower upper. filter (\<lambda>(k, v). take 1 k = lower) d)
     (\<lambda>d. []) (\<lambda>d. [])
     (\<lambda>d b k. case (case map_of b k of Some x \<Rightarrow> x | None \<Rightarrow> map_of d k) of None \<Rightarrow> Err pebble_ErrNotFound | Some v \<Rightarrow> Ok v)
     (\<lambda>b k v. (alist_put k (Some v) b, Ok ()))
     (\<lambda>b k. (alist_put k None b, Ok ()))
     (\<lambda>d b lower upper. filter (\<lambda>(k, v). take 1 k = lower) d)
     (\<lambda>b d. (fold (\<lambda>(k, x) d. case x of Some v \<Rightarrow> alist_put k v d | None \<Rightarrow> filter (\<lambda>(k', _). k' \<noteq> k) d) (rev b) d, Ok ()))
     (\<lambda>b. (b, Ok ()))
     (\<lambda>n d. let c = content_id C d in (alist_put c d n, Ok c))
     (\<lambda>n c. case map_of n c of None \<Rightarrow> Err (ErrNew ''block not found'') | Some d \<Rightarrow> Ok d)
     (\<lambda>n c. (n, Ok ())))"

lemma map_of_drop: "map_of (filter (\<lambda>(k', _). k' \<noteq> k) d) = (map_of d)(k := None)"
  by (induction d) (auto simp: fun_eq_iff)

lemma map_of_commit:
  "map_of (fold (\<lambda>(k, x) d. case x of Some v \<Rightarrow> alist_put k v d | None \<Rightarrow> filter (\<lambda>(k', _). k' \<noteq> k) d) (rev b) d)
   = (\<lambda>k. case map_of b k of Some x \<Rightarrow> x | None \<Rightarrow> map_of d k)"
proof (induction b)
  case (Cons p b)
  obtain k x where "p = (k, x)" by fastforce
  with Cons show ?case by (cases x) (auto simp: fun_eq_iff map_of_drop)
qed simp

lemma idemo_pebble: "pebble_ok (idemo C) map_of map_of"
  by (simp add: pebble_ok_def idemo_def clib.defs ilib.defs map_of_commit)

lemma idemo_ipfs: "ipfs_ok (idemo C)" "snd (ipfs_Pin (idemo C) n i) = Ok ()"
  by (auto simp: ipfs_ok_def idemo_def clib.defs ilib.defs split: option.splits)

lemma idemo_clib [simp]:
  "cid_String (idemo C) = cid_String C" "cid_Bytes (idemo C) = cid_Bytes C" "cid_Cast (idemo C) = cid_Cast C"
  "cid_Undef (idemo C) = cid_Undef C" "mp_dec_block (idemo C) = mp_dec_block C" "mp_dec_set (idemo C) = mp_dec_set C"
  "mp_dec_tx (idemo C) = mp_dec_tx C"
  by (simp_all add: idemo_def clib.defs ilib.defs)

lemma idemo_Get [simp]:
  "ipfs_Get (idemo C) n c = (case map_of n c of None \<Rightarrow> Err (ErrNew ''block not found'') | Some d \<Rightarrow> Ok d)"
  by (simp add: idemo_def clib.defs ilib.defs)

text \<open>A store with the example block and its only transaction; the block is validated.\<close>

definition istore :: "((bytes \<times> bytes) list, (bytes \<times> bytes option) list, (cid \<times> bytes) list) IPFSStorage" where
  "istore =
     \<lparr>is_ipfsNode = [(demo_cid, [0, 3]), (demo_root, enc_set [] (Some demo_cid)), (demo_bid, [3])],
      is_metadata = [(typedKey blockStateTPrefix [cid_String demo_L' demo_bid], [1, 0, 0, 0]), (typedKey genesisTPrefix [], [])],
      is_pfTipApply = None\<rparr>"

abbreviation iblock :: Block where "iblock \<equiv> (demo_block demo_root)\<lparr>b_ID := demo_bid\<rparr>"

lemma istore_reads:
  "IPFS_GetBlock (idemo demo_L') istore demo_bid = Ok iblock"
  "IPFS_GetSet (idemo demo_L') istore demo_root = Ok \<lparr>ts_Children = [], ts_Tx = Some demo_cid, ts_cid = []\<rparr>"
  "IPFS_GetTx (idemo demo_L') istore demo_cid = Ok demo_tx"
  by (simp_all add: IPFS_GetBlock_def IPFS_GetSet_def IPFS_GetTx_def getRaw_def msgpack_def istore_def
      demo_def dec_enc_set Tx_Unmarshal_def) (simp add: demo_tx_def demo_unsigned_def)

lemma istore_all: "IPFS_AllTx (idemo demo_L') istore iblock = Ok [(demo_cid, demo_tx)]"
proof -
  have "b_TxRoot iblock = demo_root" by (simp add: demo_block_def)
  then show ?thesis
    unfolding IPFS_AllTx_def allTx_def
    by (simp add: allTx_loop.simps [of _ _ "[demo_root]"] allTx_loop.simps [of _ _ "[]"] istore_reads)
qed

lemma range_ok_id: "range_ok (\<lambda>xs. xs)"
  by (simp add: range_ok_def)

section \<open>Keys\<close>

text \<open>
  The keys of two kinds of metadata never collide; keys of one part are equal only for equal
  parts; keys of two parts, the second without a separator, are equal only for equal parts.
\<close>

theorem typedKey_inj:
  "(typedKey ty ps = typedKey ty' ps' \<longrightarrow> ty = ty')
   \<and> (typedKey ty [r] = typedKey ty [r'] \<longleftrightarrow> r = r')
   \<and> (CHR '':'' \<notin> set q \<and> CHR '':'' \<notin> set q' \<longrightarrow>
       (typedKey ty [p, q] = typedKey ty [p', q'] \<longleftrightarrow> p = p' \<and> q = q'))"
proof (intro conjI impI)
  show "ty = ty'" if "typedKey ty ps = typedKey ty' ps'" using that by (rule typedKey_type)
  show "typedKey ty [r] = typedKey ty [r'] \<longleftrightarrow> r = r'" by (simp add: typedKey_one)
  assume "CHR '':'' \<notin> set q \<and> CHR '':'' \<notin> set q'"
  then have "tableSep \<notin> set (string_bytes q)" "tableSep \<notin> set (string_bytes q')" by (simp_all add: sep_bytes)
  then show "typedKey ty [p, q] = typedKey ty [p', q'] \<longleftrightarrow> p = p' \<and> q = q'"
    using split_last [of "string_bytes p" tableSep "string_bytes q" "string_bytes p'" "string_bytes q'"]
    by (auto simp: typedKey_two)
qed

theorem typedKey_inj_witness:
  "typedKey didTPrefix [''did:web:a''] \<noteq> typedKey nodesTPrefix [''did:web:a'']
   \<and> typedKey didHisoryTPrefix [''did:web:a'', ''bc''] \<noteq> typedKey didHisoryTPrefix [''did:web'', ''bd'']"
  using typedKey_inj [of didTPrefix "[''did:web:a'']" nodesTPrefix "[''did:web:a'']"]
    typedKey_inj [of didHisoryTPrefix "[]" didHisoryTPrefix "[]" _ _ "''bc''" "''bd''" "''did:web:a''" "''did:web''"]
  by simp

section \<open>Accepting a block\<close>



text \<open>
  Every block with a transaction in it is refused as a new block on this store: the lookup of the
  transaction's earlier block, which must fail with the not-found error of the storage package, fails
  with that of the database or finds a block.
\<close>

theorem ipfs_block_with_tx_refused:
  assumes "pebble_ok L dv bv" and "ipfs_ok L" and "range_ok ord"
    and "IPFS_AllTx L s b = Ok txs" and "txs \<noteq> []"
  shows "snd (IsBlockValid L (ipfsstore L flip) ord s b True) \<noteq> Ok ()"
proof
  assume "snd (IsBlockValid L (ipfsstore L flip) ord s b True) = Ok ()"
  then have "IsBlockValid L (ipfsstore L flip) ord s b True
      = (fst (IsBlockValid L (ipfsstore L flip) ord s b True), Ok ())"
    by (simp add: prod_eq_iff)
  from IsBlockValid_Ok [OF this] obtain s1 u txs1 test where
    s1: "MarkBlock (ipfsstore L flip) ord s (b_ID b) BlockStateUnvalidated = (s1, Ok u)"
    and all: "AllTx (ipfsstore L flip) s1 b = Ok txs1" and run: "valid_run L (ipfsstore L flip) True test (ord txs1)"
    by blast
  from s1 have "is_ipfsNode s1 = is_ipfsNode s"
    by (intro MarkBlock_unvalidated_node [OF assms(1)]) (simp add: ipfsstore_def ipfsBase_def)
  then have "IPFS_AllTx L s1 = IPFS_AllTx L s" by (intro same_objects) simp
  with all assms(4) have "txs1 = txs" by (simp add: ipfsstore_def ipfsBase_def)
  moreover have "ord txs1 = []" by (rule valid_run_new_empty [OF assms(1,2) run])
  ultimately have "mset txs = {#}" using assms(3) unfolding range_ok_def by (metis mset_zero_iff)
  with assms(5) show False by simp
qed

theorem ipfs_block_with_tx_refused_witness:
  "snd (IsBlockValid (idemo demo_L') (ipfsstore (idemo demo_L') (\<lambda>_. True)) (\<lambda>xs. xs) istore iblock True) \<noteq> Ok ()"
  by (rule ipfs_block_with_tx_refused [OF idemo_pebble idemo_ipfs(1) range_ok_id istore_all]) simp

section \<open>Test stores\<close>



section \<open>Restarting a node\<close>

lemma options_store: "c_store (fold apply_option opts c) = c_store c"
proof (induction opts arbitrary: c)
  case (Cons x opts)
  then show ?case by (cases x) simp_all
qed simp

lemma NewConsensus_unread:
  assumes "HasGenesisApplied S s" and "GetLastApplied S s = Err err"
  shows "NewConsensus L S e i s now opts = Err (ErrWrap ''fetching last applied block'' err)"
proof -
  obtain pool where pool: "NewTxMemPool = Ok pool" using NewTxMemPool_ok by blast
  have "restoreState L S c = (c, Err (ErrWrap ''fetching last applied block'' err))" if "c_store c = s" for c
    using assms(2) that by (simp add: restoreState_def inspect_def bindM_def wrapM_def lift_def)
  then show ?thesis
    using assms(1)
    by (simp add: NewConsensus_def pool Let_def options_store setupTimers_def blankConsensus_def whenM_def ret_def
        andThen_def bindM_def split: option.splits)
qed

text \<open>
  The reference to the last applied block is written as text and read as bytes: after a node with
  an applied genesis has stored one whose text is not the bytes of an identifier, reading it fails, and
  a node cannot be started again on that store.
\<close>

theorem node_restart_fails:
  assumes "pebble_ok L dv bv" and "cid_Cast L (string_bytes (cid_String L i)) = None"
    and "IPFS_HasGenesisApplied L s"
  shows "\<exists>s'. IPFS_UpdateLastApplied L i s = (s', Ok ())
    \<and> (\<exists>err. IPFS_GetLastApplied L s' = Err err
         \<and> (\<forall>e p now opts. NewConsensus L (ipfsstore L flip) e p s' now opts
               = Err (ErrWrap ''fetching last applied block'' err)))"
proof -
  let ?k = "typedKey latestBlockTPrefix []"
  let ?err = "ErrWrap ''casting block ref'' (ErrNew ''cid'')"
  obtain s' where s': "metadataSet L ?k (string_bytes (cid_String L i)) s = (s', Ok ())"
    "sees dv bv s' = (sees dv bv s)(?k \<mapsto> string_bytes (cid_String L i))"
    using metadataSet_sees [OF assms(1), of ?k "string_bytes (cid_String L i)" s] by blast
  have "IPFS_HasGenesisApplied L s'"
    using assms(3) s'(2)
    by (simp add: IPFS_HasGenesisApplied_def metadataGet_sees [OF assms(1)] typedKey_ne)
  moreover have last: "IPFS_GetLastApplied L s' = Err ?err"
    using s'(2) assms(2) by (simp add: IPFS_GetLastApplied_def metadataGet_sees [OF assms(1)] castCid_def)
  ultimately have "NewConsensus L (ipfsstore L flip) e p s' now opts = Err (ErrWrap ''fetching last applied block'' ?err)"
    for e p now opts
    by (intro NewConsensus_unread) (simp_all add: ipfsstore_def ipfsBase_def)
  moreover have "IPFS_UpdateLastApplied L i s = (s', Ok ())"
    using s'(1) by (simp add: IPFS_UpdateLastApplied_def wrapM_def)
  ultimately show ?thesis using last by blast
qed

text \<open>Identifiers that are cast only when they do not start with the letter that starts their text.\<close>

theorem node_restart_fails_witness:
  "\<exists>s'. IPFS_UpdateLastApplied (idemo (demo_L'\<lparr>cid_Cast := \<lambda>b. if take 1 b = [98] then None else Some (bytes_string b)\<rparr>)) demo_bid istore = (s', Ok ())
    \<and> (\<exists>err. IPFS_GetLastApplied (idemo (demo_L'\<lparr>cid_Cast := \<lambda>b. if take 1 b = [98] then None else Some (bytes_string b)\<rparr>)) s' = Err err)"
proof -
  let ?C = "demo_L'\<lparr>cid_Cast := \<lambda>b. if take 1 b = [98] then None else Some (bytes_string b)\<rparr>"
  have cast: "cid_Cast (idemo ?C) (string_bytes (cid_String (idemo ?C) demo_bid)) = None"
    by (simp add: demo_def string_bytes_def)
  have gen: "IPFS_HasGenesisApplied (idemo ?C) istore"
    by (simp add: IPFS_HasGenesisApplied_def metadataGet_sees [OF idemo_pebble] sees_def istore_def typedKey_ne)
  from node_restart_fails [OF idemo_pebble cast gen, of "\<lambda>_. True"] show ?thesis by blast
qed

end
