(* ===== verification/Stream_Model.thy ===== *)
theory Stream_Model
  imports Didem_Prelude
begin

text \<open>
  \<^verbatim>\<open>internal/stream/stream.go\<close>: messages framed by their length over a network stream, with the buffered
  reader and writer of Go's \<^verbatim>\<open>bufio\<close> and the scratch \<^verbatim>\<open>bytes.Buffer\<close> it uses. How the network cuts what
  was sent into the results of its reads is a list of chunks; allocation is taken to succeed.
\<close>

section \<open>Buffered input and output\<close>

abbreviation bufSize :: nat where "bufSize \<equiv> 4096"

text \<open>
  One read of the network stream into \<open>n\<close> bytes: from the first chunk, whose rest stays; at the end of
  the stream an error.
\<close>

fun net_Read :: "nat \<Rightarrow> bytes list \<Rightarrow> bytes list \<times> bytes result" where
  "net_Read n [] = ([], Err (ErrNew ''EOF''))"
| "net_Read n (c # cs) = (if length c \<le> n then cs else drop n c # cs, Ok (take n c))"

text \<open>\<^verbatim>\<open>bufio.Reader.Read\<close>: the chunks to come, the bytes buffered, and the outcome.\<close>

definition bufio_Read :: "nat \<Rightarrow> bytes list \<Rightarrow> bytes \<Rightarrow> bytes list \<times> bytes \<times> bytes result" where
  "bufio_Read n cs b =
     (if n = 0 then (cs, b, Ok [])
      else if b \<noteq> [] then (cs, drop n b, Ok (take n b))
      else if bufSize \<le> n then (case net_Read n cs of (cs', r) \<Rightarrow> (cs', [], r))
      else (case net_Read bufSize cs of
              (cs', Ok d) \<Rightarrow> (cs', drop n d, Ok (take n d))
            | (cs', r) \<Rightarrow> (cs', [], r)))"

text \<open>
  \<^verbatim>\<open>bufio.Writer.Write\<close> and \<^verbatim>\<open>Flush\<close>: the bytes buffered and the segments written to the stream.
\<close>

function bufio_Write :: "bytes \<Rightarrow> bytes list \<Rightarrow> bytes \<Rightarrow> bytes \<times> bytes list" where
  "bufio_Write b out p =
     (if length p \<le> bufSize - length b then (b @ p, out)
      else if b = [] then ([], out @ [p])
      else bufio_Write [] (out @ [b @ take (bufSize - length b) p]) (drop (bufSize - length b) p))"
  by pat_completeness auto
termination by (relation "measure (\<lambda>(b, out, p). length p + (if b = [] then 0 else 1))") auto

declare bufio_Write.simps [simp del]

definition bufio_Flush :: "bytes \<Rightarrow> bytes list \<Rightarrow> bytes \<times> bytes list" where
  "bufio_Flush b out = (if b = [] then ([], out) else ([], out @ [b]))"

section \<open>The stream\<close>

text \<open>
  A stream: the array of its scratch buffer, what the reader holds and will be given, and what it has
  written. The network refuses writes when \<open>rw_broken\<close> holds.
\<close>

record RW =
  rw_arr :: bytes
  rw_buffered :: bytes
  rw_chunks :: "bytes list"
  rw_out :: "bytes list"
  rw_broken :: bool

definition NewRW :: "bytes list \<Rightarrow> bool \<Rightarrow> RW" where
  "NewRW chunks broken =
     \<lparr>rw_arr = [], rw_buffered = [], rw_chunks = chunks, rw_out = [], rw_broken = broken\<rparr>"

text \<open>\<^verbatim>\<open>buf.Reset(); buf.Grow(n)\<close>: the array is kept when it is large enough.\<close>

definition grow :: "nat \<Rightarrow> bytes \<Rightarrow> bytes" where
  "grow n arr =
     (if n \<le> length arr then arr
      else if arr = [] \<and> n \<le> 64 then replicate 64 0
      else replicate (2 * length arr + n) 0)"

definition overwrite :: "bytes \<Rightarrow> bytes \<Rightarrow> bytes" where
  "overwrite d arr = d @ drop (length d) arr"

definition RW_Write :: "bytes \<Rightarrow> (RW, unit) op" where
  "RW_Write b = (\<lambda>c.
     let len = LittleEndian_PutUint32 (of_nat (length b));
         arr = overwrite len (grow 4 (rw_arr c));
         (b1, out1) = bufio_Write [] [] (take 4 arr);
         (b2, out2) = bufio_Write b1 out1 b;
         (b3, out3) = bufio_Flush b2 out2
     in if rw_broken c
        then (c\<lparr>rw_arr := arr\<rparr>, if out2 = [] then Err (ErrNew ''write'') else Err (ErrWrap ''transmitting data'' (ErrNew ''write'')))
        else (c\<lparr>rw_arr := arr, rw_out := rw_out c @ out3\<rparr>, Ok ()))"

definition RW_Fill :: "nat \<Rightarrow> (RW, bytes) op" where
  "RW_Fill n = (\<lambda>c.
     case bufio_Read n (rw_chunks c) (rw_buffered c) of
       (cs, b, r) \<Rightarrow>
         (c\<lparr>rw_chunks := cs, rw_buffered := b,
            rw_arr := (case r of Ok d \<Rightarrow> overwrite d (rw_arr c) | _ \<Rightarrow> rw_arr c)\<rparr>, r))"

definition RW_Read :: "(RW, bytes) op" where
  "RW_Read =
     andThen (modify (\<lambda>c. c\<lparr>rw_arr := grow 4 (rw_arr c)\<rparr>))
     (andThen (RW_Fill 4) (inspect (\<lambda>c.
       bindM (lift (LittleEndian_Uint32 (take 4 (rw_arr c)))) (\<lambda>len.
       andThen (modify (\<lambda>c. c\<lparr>rw_arr := grow (unat len) (rw_arr c)\<rparr>))
         (RW_Fill (unat len))))))"

section \<open>Laws\<close>

lemma length_grow: "n \<le> length (grow n arr)"
  by (simp add: grow_def)

lemma overwrite_take: "length d \<le> n \<Longrightarrow> take n (overwrite d arr) = d @ take (n - length d) (drop (length d) arr)"
  by (simp add: overwrite_def)

text \<open>A frame is written in at most two segments, the first filled up to the size of the buffer.\<close>

definition frame :: "bytes \<Rightarrow> bytes" where
  "frame b = LittleEndian_PutUint32 (of_nat (length b)) @ b"

definition segments :: "bytes \<Rightarrow> bytes list" where
  "segments b =
     (if length b \<le> bufSize - 4 then [frame b]
      else [take bufSize (frame b), drop bufSize (frame b)])"

lemma write_segments:
  assumes "length h = 4"
  shows "(case bufio_Write [] [] h of (b1, out1) \<Rightarrow> case bufio_Write b1 out1 b of (b2, out2) \<Rightarrow> bufio_Flush b2 out2)
    = ([], if length b \<le> bufSize - 4 then [h @ b] else [h @ take (bufSize - 4) b, drop (bufSize - 4) b])"
proof -
  have 1: "bufio_Write [] [] h = (h, [])" using assms by (simp add: bufio_Write.simps [of "[]"])
  have ne: "h \<noteq> []" using assms by auto
  show ?thesis
  proof (cases "length b \<le> bufSize - 4")
    case True
    then have "bufio_Write h [] b = (h @ b, [])" using assms by (simp add: bufio_Write.simps [of h])
    then show ?thesis using True 1 ne by (simp add: bufio_Flush_def)
  next
    case False
    let ?out = "[h @ take (bufSize - 4) b]" and ?p = "drop (bufSize - 4) b"
    have "bufio_Write h [] b = bufio_Write [] ?out ?p"
      using False assms ne by (simp add: bufio_Write.simps [of h])
    moreover have "?p \<noteq> []" using False by simp
    ultimately show ?thesis
      using False 1 by (auto simp: bufio_Write.simps [of "[]"] bufio_Flush_def)
  qed
qed

lemma RW_Write_segments:
  assumes "\<not> rw_broken c"
  shows "RW_Write b c = (c\<lparr>rw_arr := overwrite (LittleEndian_PutUint32 (of_nat (length b))) (grow 4 (rw_arr c)),
      rw_out := rw_out c @ segments b\<rparr>, Ok ())"
proof -
  let ?h = "LittleEndian_PutUint32 (of_nat (length b))"
  have "take 4 (overwrite ?h (grow 4 (rw_arr c))) = ?h" by (simp add: overwrite_take)
  then show ?thesis
    using assms write_segments [of ?h b]
    by (auto simp: RW_Write_def Let_def segments_def frame_def split: prod.splits)
qed

text \<open>
  A read whose first chunk starts the frame: what is left of the chunk after the header is the message,
  whatever its length says.
\<close>

lemma RW_Read_chunk:
  assumes "length b < 2 ^ 32" and "rw_buffered c = []" and "rw_chunks c = take n (frame b) # cs"
    and "4 < n" and "n \<le> bufSize" and "b \<noteq> []"
  shows "\<exists>arr. RW_Read c = (c\<lparr>rw_arr := arr, rw_chunks := cs, rw_buffered := []\<rparr>, Ok (take (n - 4) b))"
proof -
  let ?h = "LittleEndian_PutUint32 (of_nat (length b))"
  let ?c1 = "c\<lparr>rw_arr := overwrite ?h (grow 4 (rw_arr c)), rw_chunks := cs, rw_buffered := take (n - 4) b\<rparr>"
  have len: "unat (of_nat (length b) :: uint32) = length b"
    using assms(1) by (simp add: unat_of_nat)
  have chunk: "take n (frame b) = ?h @ take (n - 4) b" using assms(4) by (simp add: frame_def)
  have size: "length (?h @ take (n - 4) b) \<le> bufSize" using assms(4,5) by simp
  have 1: "RW_Fill 4 (c\<lparr>rw_arr := grow 4 (rw_arr c)\<rparr>) = (?c1, Ok ?h)"
    using assms(2,3,5) size by (simp add: RW_Fill_def bufio_Read_def chunk min_absorb2)
  have "take 4 (rw_arr ?c1) = ?h" by (simp add: overwrite_take)
  then have lenr: "LittleEndian_Uint32 (take 4 (rw_arr ?c1)) = Ok (of_nat (length b))"
    using LittleEndian_roundtrip [of "of_nat (length b)" "[]"] by simp
  have "take (n - 4) b \<noteq> []" using assms(4,6) by simp
  moreover have "take (min (length b) (n - 4)) b = take (n - 4) b" by (simp add: min_def)
  ultimately have 2: "RW_Fill (length b) (?c1\<lparr>rw_arr := a\<rparr>)
      = (c\<lparr>rw_arr := overwrite (take (n - 4) b) a, rw_chunks := cs, rw_buffered := []\<rparr>, Ok (take (n - 4) b))" for a
    using assms(6) by (simp add: RW_Fill_def bufio_Read_def)
  show ?thesis
    unfolding RW_Read_def andThen_def bindM_def modify_def inspect_def lift_def
    using 1 lenr 2 by (auto simp: len)
qed

lemma RW_Read_empty:
  assumes "rw_buffered c = []" and "rw_chunks c = frame [] # cs"
  shows "\<exists>arr. RW_Read c = (c\<lparr>rw_arr := arr, rw_chunks := cs, rw_buffered := []\<rparr>, Ok [])"
proof -
  let ?h = "LittleEndian_PutUint32 (of_nat 0)"
  let ?c1 = "c\<lparr>rw_arr := overwrite ?h (grow 4 (rw_arr c)), rw_chunks := cs, rw_buffered := []\<rparr>"
  have 1: "RW_Fill 4 (c\<lparr>rw_arr := grow 4 (rw_arr c)\<rparr>) = (?c1, Ok ?h)"
    using assms by (simp add: RW_Fill_def bufio_Read_def frame_def)
  have "take 4 (rw_arr ?c1) = ?h" by (simp add: overwrite_take)
  then have lenr: "LittleEndian_Uint32 (take 4 (rw_arr ?c1)) = Ok 0"
    using LittleEndian_roundtrip [of 0 "[]"] by simp
  have 2: "RW_Fill 0 (?c1\<lparr>rw_arr := a\<rparr>)
      = (c\<lparr>rw_arr := overwrite [] a, rw_chunks := cs, rw_buffered := []\<rparr>, Ok [])" for a
    by (simp add: RW_Fill_def bufio_Read_def)
  show ?thesis
    unfolding RW_Read_def andThen_def bindM_def modify_def inspect_def lift_def
    using 1 lenr 2 by auto
qed

text \<open>The segments of a message, read one by one: the message up to what the first segment holds of it.\<close>

lemma RW_Read_segments:
  assumes "length b < 2 ^ 32" and "rw_buffered c = []" and "rw_chunks c = segments b @ cs"
  shows "\<exists>arr cs'. RW_Read c = (c\<lparr>rw_arr := arr, rw_chunks := cs', rw_buffered := []\<rparr>, Ok (take (bufSize - 4) b))
     \<and> cs' = tl (segments b) @ cs"
proof (cases "b = []")
  case True
  then show ?thesis using RW_Read_empty [of c cs] assms(2,3) by (auto simp: segments_def)
next
  case False
  have "rw_chunks c = take bufSize (frame b) # (tl (segments b) @ cs)"
    using assms(3) by (auto simp: segments_def frame_def)
  from RW_Read_chunk [OF assms(1,2) this _ _ False] show ?thesis by simp
qed

end
