(* ===== verification/Did_Handler.thy ===== *)
theory Did_Handler
  imports Stream_Model Consensus_Laws
begin

text \<open>
  \<^verbatim>\<open>internal/did/handler.go\<close> and its use in \<^verbatim>\<open>internal/node/streams.go\<close>: a node answers requests for the tip
  of its chain, and before it takes part in the consensus it asks peers for theirs and catches up. The
  protobuf codecs are parameters; which peers are connected, how they are shuffled and what they reply
  is what the surroundings of an attempt decide.
\<close>

section \<open>Tip requests\<close>

datatype ConsensusRequest = ConsensusRequest_Tip string | ConsensusRequest_nil

record TipResponse =
  tr_Tip :: string
  tr_ChainId :: string

record plib = clib +
  pb_enc_req :: "ConsensusRequest \<Rightarrow> bytes option"
  pb_dec_req :: "bytes \<Rightarrow> ConsensusRequest option"
  pb_enc_resp :: "TipResponse \<Rightarrow> bytes option"
  pb_dec_resp :: "bytes \<Rightarrow> TipResponse option"
  bls_NewPrivateKey :: "bytes \<Rightarrow> bytes option"

definition proto :: "'a option \<Rightarrow> 'a result" where
  "proto r = (case r of None \<Rightarrow> Err (ErrNew ''proto'') | Some a \<Rightarrow> Ok a)"

definition ChainID :: "'s Consensus \<Rightarrow> string" where
  "ChainID c = bytes_string (c_chain c)"

definition handleTipReq :: "'z plib_scheme \<Rightarrow> 's Consensus \<Rightarrow> string \<Rightarrow> (RW, unit) op" where
  "handleTipReq L c chainId =
     (if chainId \<noteq> ChainID c then ret ()
      else logged (bindM (lift (proto (pb_enc_resp L \<lparr>tr_Tip = cid_String L (st_Block (c_state c)), tr_ChainId = ChainID c\<rparr>)))
             RW_Write))"

text \<open>\<^verbatim>\<open>Handle\<close> on an incoming stream; its errors are only logged.\<close>

definition Handle :: "'z plib_scheme \<Rightarrow> 's Consensus \<Rightarrow> (RW, unit) op" where
  "Handle L c = logged
     (bindM RW_Read (\<lambda>msg.
      bindM (lift (proto (pb_dec_req L msg))) (\<lambda>req.
        case req of
          ConsensusRequest_Tip chainId \<Rightarrow> handleTipReq L c chainId
        | ConsensusRequest_nil \<Rightarrow> raise (ErrNew ''unsupported request type''))))"

text \<open>\<^verbatim>\<open>ReqTip\<close> on the outcome of opening a stream to the peer.\<close>

definition ReqTip :: "'z plib_scheme \<Rightarrow> 's Consensus \<Rightarrow> RW result \<Rightarrow> string result" where
  "ReqTip L c opened =
     bindr (wrap ''connecting to peer'' opened) (\<lambda>s. snd
       (bindM (wrapM ''marshalling req'' (lift (proto (pb_enc_req L (ConsensusRequest_Tip (ChainID c)))))) (\<lambda>b.
        andThen (wrapM ''sending req'' (RW_Write b))
        (bindM (wrapM ''reading resp'' RW_Read) (\<lambda>br.
         bindM (wrapM ''unmarshalling resp'' (lift (proto (pb_dec_resp L br)))) (\<lambda>resp.
           if tr_ChainId resp \<noteq> ChainID c then raise (ErrNew ''resp contained mismatch chain id'')
           else ret (tr_Tip resp))))) s))"

section \<open>Agreeing on a tip\<close>

text \<open>
  \<^verbatim>\<open>askForTip\<close> on the replies of the peers asked: the tips with the number of peers that named each. A
  worker skips \<^verbatim>\<open>wg.Done\<close> when a request fails, so one failure makes the call wait for its deadline.
\<close>

definition count_tip :: "string \<Rightarrow> (string \<times> nat) list \<Rightarrow> (string \<times> nat) list" where
  "count_tip t tips = alist_put t (case map_of tips t of None \<Rightarrow> 1 | Some tc \<Rightarrow> tc + 1) tips"

fun count_tips :: "string result list \<Rightarrow> (string \<times> nat) list \<Rightarrow> (string \<times> nat) list result" where
  "count_tips [] tips = Ok tips"
| "count_tips (Ok t # rs) tips = count_tips rs (count_tip t tips)"
| "count_tips (Panic # rs) tips = Panic"
| "count_tips (_ # rs) tips = (case count_tips rs tips of Panic \<Rightarrow> Panic | _ \<Rightarrow> Err (ErrNew ''ctx timeout''))"

definition askForTip :: "string result list \<Rightarrow> (string \<times> nat) list result" where
  "askForTip replies = count_tips replies []"

text \<open>What the surroundings decide in one attempt to start: the connected peers at each look, each
  with whether it is tagged as a drand peer, the shuffle, and the reply to each request.\<close>

record sync_env =
  se_peers :: "nat \<Rightarrow> (peer_ID \<times> bool) list"
  se_shuffle :: "peer_ID list \<Rightarrow> peer_ID list"
  se_reply :: "nat \<Rightarrow> peer_ID \<Rightarrow> string result"
  se_env :: env
  se_vord :: "nat \<Rightarrow> range_order"
  se_mord :: "nat \<Rightarrow> range_order"

definition requiredPeers :: "'s Consensus \<Rightarrow> nat" where
  "requiredPeers c = (if take 4 (ChainID c) = ''test'' then 1 else 10)"

text \<open>The wait for enough peers; the list is carried over from one look to the next.\<close>

partial_function (option) waitPeers ::
    "(nat \<Rightarrow> (peer_ID \<times> bool) list) \<Rightarrow> nat \<Rightarrow> nat \<Rightarrow> peer_ID list \<Rightarrow> peer_ID list option" where
  "waitPeers look need k peers =
     (let peers' = peers @ map fst (filter (\<lambda>(p, drand). \<not> drand) (look k)) in
      if length peers' < need then waitPeers look need (k + 1) peers' else Some peers')"

text \<open>What is done with the tip the peers agree on.\<close>

definition syncTip ::
    "'z lib_scheme \<Rightarrow> 's Store \<Rightarrow> sync_env \<Rightarrow> string \<Rightarrow> ('s Consensus, unit) op" where
  "syncTip L S e tip = inspect (\<lambda>c.
     if tip = cid_String L (st_Block (c_state c)) then wrapM ''starting consensus'' (Start (se_env e))
     else (case cid_Parse L tip of
             None \<Rightarrow> raise (ErrNew ''cid'')
           | Some bcid \<Rightarrow>
               andThen (onStore (\<lambda>s. ApplyFromTip L S (se_vord e) (se_mord e) s bcid))
                 (wrapM ''starting consensus'' (Start (se_env e)))))"

definition replies :: "sync_env \<Rightarrow> peer_ID list \<Rightarrow> string result list" where
  "replies e peers = map (\<lambda>i. se_reply e i (peers ! i)) [0..<length peers]"

text \<open>
  \<^verbatim>\<open>Handler.Start\<close>: \<open>k\<close> counts its recursive calls; \<open>None\<close> where it never returns.
\<close>

partial_function (option) Handler_Start ::
    "'z lib_scheme \<Rightarrow> 's Store \<Rightarrow> (nat \<Rightarrow> sync_env) \<Rightarrow> nat \<Rightarrow> 's Consensus \<Rightarrow> ('s Consensus \<times> unit result) option" where
  "Handler_Start L S envs k c =
     (case waitPeers (se_peers (envs k)) (requiredPeers c) 0 [] of
        None \<Rightarrow> None
      | Some peers \<Rightarrow>
          (case wrap ''requesting tips'' (askForTip (replies (envs k) (take (requiredPeers c) (se_shuffle (envs k) peers)))) of
             Ok tips \<Rightarrow>
               if length tips \<noteq> requiredPeers c \<or> length tips \<noteq> 1 then Handler_Start L S envs (k + 1) c
               else Some (syncTip L S (envs k) (fst (hd tips)) c)
           | Err e \<Rightarrow> Some (c, Err e)
           | Panic \<Rightarrow> Some (c, Panic)
           | Diverge \<Rightarrow> Some (c, Diverge)))"

text \<open>
  The goroutine of \<^verbatim>\<open>newDidStreamHandler\<close>: it starts the handler until that succeeds. \<open>j\<close> counts its
  attempts, each with surroundings of its own.
\<close>

partial_function (option) startDid ::
    "'z lib_scheme \<Rightarrow> 's Store \<Rightarrow> (nat \<Rightarrow> nat \<Rightarrow> sync_env) \<Rightarrow> nat \<Rightarrow> 's Consensus \<Rightarrow> ('s Consensus \<times> unit result) option" where
  "startDid L S envs j c =
     (case Handler_Start L S (envs j) 0 c of
        None \<Rightarrow> None
      | Some (c', Err e) \<Rightarrow> startDid L S envs (j + 1) c'
      | Some (c', Ok u) \<Rightarrow> Some (c', Ok u)
      | Some (c', Panic) \<Rightarrow> Some (c', Panic)
      | Some (c', Diverge) \<Rightarrow> Some (c', Diverge))"

section \<open>Making the handler\<close>

text \<open>
  \<^verbatim>\<open>NewHandler\<close> on the chain configuration; without a chain there is no handler. A fatal log entry ends
  the process and is an error here.
\<close>

definition NewHandler ::
    "'z plib_scheme \<Rightarrow> 's Store \<Rightarrow> env \<Rightarrow> peer_ID \<Rightarrow> 's \<Rightarrow> int \<Rightarrow> GenesisInfo \<Rightarrow> string \<Rightarrow> 's Consensus option result" where
  "NewHandler L S e i s now genesis key =
     (if g_ChainID genesis = [] then Ok None
      else
        bindr (if key = [] then Ok []
               else (case mb_Decode L key of
                       None \<Rightarrow> Err (ErrNew ''unable to decode chain key'')
                     | Some keyRaw \<Rightarrow>
                         (case bls_NewPrivateKey L keyRaw of
                            None \<Rightarrow> Err (ErrNew ''unable to decode BLS12381 key'')
                          | Some k \<Rightarrow> Ok [WithSigningKey k]))) (\<lambda>keyOpts.
        bindr (NewConsensus L S e i s now (keyOpts @ [WithGenesis genesis])) (\<lambda>c. Ok (Some c))))"

section \<open>Laws\<close>

lemma count_tips_length:
  assumes "count_tips rs tips = Ok tips'"
  shows "length tips' \<le> length tips + length rs"
  using assms
proof (induction rs tips rule: count_tips.induct)
  case (2 t rs tips)
  then show ?case by (fastforce simp: count_tip_def length_alist_put split: if_splits)
qed (auto split: result.splits)

lemma count_tips_no_Diverge: "count_tips rs tips \<noteq> Diverge"
  by (induction rs tips rule: count_tips.induct) (auto split: result.splits)

text \<open>The required numbers of peers and of tips are both met only on a test chain.\<close>

lemma Handler_Start_fails:
  assumes "take 4 (ChainID c) \<noteq> ''test''" and "Handler_Start L S envs k c = Some cr"
  shows "fst cr = c \<and> (snd cr = Panic \<or> (\<exists>e. snd cr = Err e))"
proof -
  have "c = c \<longrightarrow> fst cr = c \<and> (snd cr = Panic \<or> (\<exists>e. snd cr = Err e))"
  proof (rule Handler_Start.raw_induct [where P = "\<lambda>L S envs k c0 cr. c0 = c \<longrightarrow>
        fst cr = c \<and> (snd cr = Panic \<or> (\<exists>e. snd cr = Err e))", OF _ assms(2)], goal_cases)
    case (1 f L S envs k c0 cr)
    have "requiredPeers c = 10" using assms(1) by (simp add: requiredPeers_def)
    then show ?case
      using 1(1) [of L S envs "k + 1" c0 cr] 1(2) count_tips_no_Diverge
      by (auto simp: askForTip_def split: option.splits result.splits if_splits elim: wrap.elims)
  qed
  then show ?thesis by simp
qed

lemma startDid_fails:
  assumes "take 4 (ChainID c) \<noteq> ''test''" and "startDid L S envs j c = Some cr"
  shows "cr = (c, Panic)"
proof -
  have "c = c \<longrightarrow> cr = (c, Panic)"
  proof (rule startDid.raw_induct [where P = "\<lambda>L S envs j c0 cr. c0 = c \<longrightarrow> cr = (c, Panic)", OF _ assms(2)], goal_cases)
    case (1 f L S envs j c0 cr)
    show ?case
    proof
      assume c0: "c0 = c"
      from 1(2) obtain cr' where s: "Handler_Start L S (envs j) 0 c0 = Some cr'" by (auto split: option.splits)
      from Handler_Start_fails [OF assms(1)] s c0 have "fst cr' = c" "snd cr' = Panic \<or> (\<exists>e. snd cr' = Err e)" by blast+
      then show "cr = (c, Panic)" using 1(1) [of L S envs "j + 1" c cr] 1(2) s by (cases cr') auto
    qed
  qed
  then show ?thesis by simp
qed

text \<open>A look that shows a peer adds it again each time.\<close>

lemma waitPeers_again:
  assumes "\<And>i. look i = [(p, False)]"
  shows "m = need - n \<Longrightarrow> n < need \<Longrightarrow> waitPeers look need k (replicate n p) = Some (replicate need p)"
proof (induction m arbitrary: k n)
  case (Suc m)
  have step: "replicate n p @ map fst (filter (\<lambda>(p, drand). \<not> drand) (look k)) = replicate (Suc n) p"
    by (simp add: assms replicate_append_same)
  have "waitPeers look need k (replicate n p)
      = (if Suc n < need then waitPeers look need (k + 1) (replicate (Suc n) p) else Some (replicate (Suc n) p))"
    by (subst waitPeers.simps) (unfold step Let_def length_replicate, rule refl)
  moreover have "Suc n < need \<or> need = Suc n" using Suc.prems(2) by (simp only: less_eq_Suc_le) auto
  ultimately show ?case using Suc.IH [of "Suc n" "k + 1"] Suc.prems by (elim disjE) simp_all
qed simp

text \<open>Catching up with a tip leaves the head of the chain the node works on as it was.\<close>

lemma Start_state: "c_state (fst (Start e c)) = c_state c"
proof -
  have "keepsM (\<lambda>c'. c_state c' = c_state c) (Start e)"
    unfolding Start_def seqM.simps Msgs_def
    by (intro keeps_intros keepsM_modify) (auto simp: setupTimers_def)
  then show ?thesis by (auto dest: keepsM_D)
qed

end
