(* ===== verification/Handler_Props.thy ===== *)
theory Handler_Props
  imports Did_Handler Demo_Net
begin

text \<open>
  Properties of the framed streams and of the handler that joins a node to the consensus: what of a
  message arrives, what a request for a tip returns, and when the consensus of a node is started.
\<close>

section \<open>Streams\<close>



section \<open>Tips\<close>

text \<open>The bytes of a request, of the answer of a node to it, and codecs that read back what they wrote.\<close>

definition tip_request :: "'z plib_scheme \<Rightarrow> 's Consensus \<Rightarrow> bytes list" where
  "tip_request L c = (case pb_enc_req L (ConsensusRequest_Tip (ChainID c)) of
     None \<Rightarrow> [] | Some b \<Rightarrow> rw_out (fst (RW_Write b (NewRW [] False))))"

definition tip_answer :: "'z plib_scheme \<Rightarrow> 's Consensus \<Rightarrow> bytes list \<Rightarrow> bytes list" where
  "tip_answer L d req = rw_out (fst (Handle L d (NewRW req False)))"

definition tip_codec :: "'z plib_scheme \<Rightarrow> string \<Rightarrow> string \<Rightarrow> bool" where
  "tip_codec L ch tip \<longleftrightarrow>
     (\<exists>b. pb_enc_req L (ConsensusRequest_Tip ch) = Some b \<and> pb_dec_req L b = Some (ConsensusRequest_Tip ch) \<and> length b \<le> 4092)
   \<and> (\<exists>b. pb_enc_resp L \<lparr>tr_Tip = tip, tr_ChainId = ch\<rparr> = Some b \<and> pb_dec_resp L b = Some \<lparr>tr_Tip = tip, tr_ChainId = ch\<rparr>
        \<and> length b \<le> 4092)"

lemma small_message:
  assumes "length b \<le> 4092"
  shows "rw_out (fst (RW_Write b (NewRW [] False))) = segments b"
    and "\<exists>r'. RW_Read (NewRW (segments b) x) = (r', Ok b) \<and> rw_out r' = [] \<and> rw_broken r' = x"
proof -
  show "rw_out (fst (RW_Write b (NewRW [] False))) = segments b"
    by (subst RW_Write_segments) (simp_all add: NewRW_def)
  show "\<exists>r'. RW_Read (NewRW (segments b) x) = (r', Ok b) \<and> rw_out r' = [] \<and> rw_broken r' = x"
    using RW_Read_segments [of b "NewRW (segments b) x" "[]"] assms by (auto simp: NewRW_def)
qed

lemma ReqTip_run:
  assumes "pb_enc_req L (ConsensusRequest_Tip (ChainID c)) = Some b" and "RW_Write b s = (s1, Ok ())"
    and "RW_Read s1 = (s2, r)"
  shows "ReqTip L c (Ok s) = bindr (wrap ''reading resp'' r) (\<lambda>br.
     bindr (wrap ''unmarshalling resp'' (proto (pb_dec_resp L br))) (\<lambda>resp.
       if tr_ChainId resp \<noteq> ChainID c then Err (ErrNew ''resp contained mismatch chain id'') else Ok (tr_Tip resp)))"
proof -
  have enc: "proto (pb_enc_req L (ConsensusRequest_Tip (ChainID c))) = Ok b" using assms(1) by (simp add: proto_def)
  show ?thesis
    unfolding ReqTip_def bindM_def wrapM_def lift_def andThen_def enc
    using assms(2,3)
    by (cases r; cases "proto (pb_dec_resp L (case r of Ok d \<Rightarrow> d | _ \<Rightarrow> []))") (simp_all add: raise_def ret_def)
qed

lemma RW_Read_nothing:
  assumes "rw_chunks s = []" and "rw_buffered s = []"
  shows "\<exists>s'. RW_Read s = (s', Err (ErrNew ''EOF''))"
  using assms by (simp add: RW_Read_def andThen_def bindM_def modify_def RW_Fill_def bufio_Read_def)


definition pdemo :: "clib \<Rightarrow> plib" where
  "pdemo C = clib.extend C (plib.fields
     (\<lambda>r. case r of ConsensusRequest_Tip ch \<Rightarrow> Some (string_bytes ch) | ConsensusRequest_nil \<Rightarrow> None)
     (\<lambda>b. Some (ConsensusRequest_Tip (bytes_string b)))
     (\<lambda>r. Some (enc_strs [tr_Tip r, tr_ChainId r]))
     (\<lambda>b. case dec_strs b of Some (_, [t, ch]) \<Rightarrow> Some \<lparr>tr_Tip = t, tr_ChainId = ch\<rparr> | _ \<Rightarrow> None)
     Some)"

lemma pdemo_sel:
  "pb_enc_req (pdemo C) (ConsensusRequest_Tip ch) = Some (string_bytes ch)"
  "pb_dec_req (pdemo C) b = Some (ConsensusRequest_Tip (bytes_string b))"
  "pb_enc_resp (pdemo C) r = Some (enc_strs [tr_Tip r, tr_ChainId r])"
  "pb_dec_resp (pdemo C) (enc_strs [t, ch]) = Some \<lparr>tr_Tip = t, tr_ChainId = ch\<rparr>"
  "cid_String (pdemo C) = cid_String C"
  by (simp_all add: pdemo_def clib.defs plib.defs dec_enc_strs del: enc_strs.simps)


section \<open>Joining the consensus\<close>

definition demo_sync :: sync_env where
  "demo_sync =
     \<lparr>se_peers = (\<lambda>i. if i = 0 then [(''d'', True)] else [(''q'', False)]), se_shuffle = rev,
      se_reply = (\<lambda>n q. Ok (cid_String net_L (st_Block (c_state net_start)))), se_env = demo_env,
      se_vord = (\<lambda>i xs. xs), se_mord = (\<lambda>i xs. xs)\<rparr>"

text \<open>
  C22. On a chain whose name does not start with \<^verbatim>\<open>test\<close> the consensus of a node is never started: the
  handler needs ten peers and as many different tips, and at the same time a single tip. Unless a
  request panics, the attempts to start go on forever and leave the node as it was.
\<close>

theorem main_chain_never_starts:
  assumes "take 4 (ChainID c) \<noteq> ''test''"
  shows "startDid L S envs j c = None \<or> startDid L S envs j c = Some (c, Panic)"
  using startDid_fails [OF assms, of L S envs j] by (cases "startDid L S envs j c") auto

theorem main_chain_never_starts_witness:
  "startDid net_L (memstore net_L) (\<lambda>_ _. demo_sync) 0 (net_follow\<lparr>c_chain := string_bytes ''main''\<rparr>) = None
   \<or> startDid net_L (memstore net_L) (\<lambda>_ _. demo_sync) 0 (net_follow\<lparr>c_chain := string_bytes ''main''\<rparr>)
      = Some (net_follow\<lparr>c_chain := string_bytes ''main''\<rparr>, Panic)"
  by (rule main_chain_never_starts) (simp add: ChainID_def)

lemma waitPeers_one:
  assumes "(p, False) \<in> set (look i)"
  shows "k \<le> i \<Longrightarrow> \<exists>ps. waitPeers look 1 k peers = Some ps \<and> ps \<noteq> []"
proof (induction "i - k" arbitrary: k peers)
  case 0
  then have "k = i" by simp
  then have "filter (\<lambda>(p, drand). \<not> drand) (look k) \<noteq> []" using assms by (auto simp: filter_empty_conv)
  then show ?case by (subst waitPeers.simps) (auto simp: Let_def)
next
  case (Suc m)
  then have "\<exists>ps. waitPeers look 1 (k + 1) peers' = Some ps \<and> ps \<noteq> []" for peers' by simp
  then show ?case by (subst waitPeers.simps) (auto simp: Let_def)
qed

text \<open>
  C21. On a test chain a node that sooner or later sees a peer, whose peers all name the block the node
  has committed last, starts its consensus at the first attempt.
\<close>

theorem test_chain_starts:
  assumes "take 4 (ChainID c) = ''test''" and "(p, False) \<in> set (se_peers (envs j 0) i)"
    and "\<And>ps. mset (se_shuffle (envs j 0) ps) = mset ps"
    and "\<And>n q. se_reply (envs j 0) n q = Ok (cid_String L (st_Block (c_state c)))"
    and "Start (se_env (envs j 0)) c = (c', Ok ())"
  shows "startDid L S envs j c = Some (c', Ok ())"
proof -
  let ?e = "envs j 0"
  have need: "requiredPeers c = 1" using assms(1) by (simp add: requiredPeers_def)
  obtain ps where ps: "waitPeers (se_peers ?e) 1 0 [] = Some ps" "ps \<noteq> []"
    using waitPeers_one [of p "se_peers ?e" i 0 "[]"] assms(2) by blast
  then have "se_shuffle ?e ps \<noteq> []" using assms(3) [of ps] by (metis mset_zero_iff)
  then have "length (take 1 (se_shuffle ?e ps)) = 1" by (cases "se_shuffle ?e ps") auto
  then have "replies ?e (take 1 (se_shuffle ?e ps)) = [Ok (cid_String L (st_Block (c_state c)))]"
    unfolding replies_def by (simp add: assms(4))
  then have ask: "askForTip (replies ?e (take 1 (se_shuffle ?e ps))) = Ok [(cid_String L (st_Block (c_state c)), 1)]"
    by (simp add: askForTip_def count_tip_def)
  have "syncTip L S ?e (cid_String L (st_Block (c_state c))) c = (c', Ok ())"
    using assms(5) by (simp add: syncTip_def inspect_def wrapM_def)
  then have "Handler_Start L S (envs j) 0 c = Some (c', Ok ())"
    using ps ask by (subst Handler_Start.simps) (simp add: need)
  then show ?thesis by (subst startDid.simps) simp
qed

abbreviation test_node :: "MemStore Consensus" where
  "test_node \<equiv> net_start\<lparr>c_chain := string_bytes ''testnet''\<rparr>"

lemma test_node_Start: "snd (Start demo_env test_node) = Ok ()"
  by (simp add: Start_def Msgs_def demo_env_def setupTimers_def stopTimer_def net_start_def run_simps)

theorem test_chain_starts_witness:
  "startDid net_L (memstore net_L) (\<lambda>_ _. demo_sync) 0 test_node = Some (fst (Start demo_env test_node), Ok ())"
proof (rule test_chain_starts [where i = 1 and p = "''q''"])
  show "take 4 (ChainID test_node) = ''test''" by (simp add: ChainID_def)
  show "Start (se_env demo_sync) test_node = (fst (Start demo_env test_node), Ok ())"
    using test_node_Start by (simp add: demo_sync_def prod_eq_iff)
qed (simp_all add: demo_sync_def)

text \<open>
  Catching up with the tip of the peers applies the blocks to the store only: the consensus is then
  started with the height and the last block the node had before.
\<close>

theorem sync_keeps_old_head:
  assumes "syncTip L S e tip c = (c', r)"
  shows "c_state c' = c_state c"
proof -
  have start: "keepsM (\<lambda>c'. c_state c' = c_state c) (wrapM m (Start e'))" for m e'
    by (rule keepsM_wrapM) (simp add: keepsM_def Start_state)
  have store: "keepsM (\<lambda>c'. c_state c' = c_state c) (onStore f)" for f
    by (simp add: keepsM_def onStore_def case_prod_beta)
  have "keepsM (\<lambda>c'. c_state c' = c_state c) (syncTip L S e tip)"
    unfolding syncTip_def by (intro keepsM_inspect keepsM_if keepsM_option keepsM_andThen keepsM_raise start store)
  from keepsM_D [OF this, of c] assms show ?thesis by simp
qed

theorem sync_keeps_old_head_witness:
  "c_state (fst (syncTip net_L (memstore net_L) demo_sync ''b'' test_node)) = c_state test_node"
  by (rule sync_keeps_old_head [OF prod.collapse [symmetric]])

end
