(* ===== verification/Config_Model.thy ===== *)
theory Config_Model
  imports Did_Handler
begin

text \<open>
  \<^verbatim>\<open>internal/config\<close>: the configuration of a node, read from the defaults of the sources and from what a
  file, the environment or a flag sets. The conversions of \<^verbatim>\<open>viper\<close> and the codec of the genesis
  information are parameters; the path functions of the standard library are written out.
\<close>

section \<open>Paths\<close>

text \<open>\<^verbatim>\<open>strings.Split\<close> with a separator of one character, and \<^verbatim>\<open>strings.Join\<close>.\<close>

fun splitOn :: "char \<Rightarrow> string \<Rightarrow> string list" where
  "splitOn c [] = [[]]"
| "splitOn c (x # xs) =
     (if x = c then [] # splitOn c xs
      else (case splitOn c xs of [] \<Rightarrow> [[x]] | w # ws \<Rightarrow> (x # w) # ws))"

fun joinWith :: "char \<Rightarrow> string list \<Rightarrow> string" where
  "joinWith c [] = []"
| "joinWith c [w] = w"
| "joinWith c (w # ws) = w @ c # joinWith c ws"

text \<open>
  \<^verbatim>\<open>filepath.Clean\<close>: empty elements and \<^verbatim>\<open>.\<close> are dropped, \<^verbatim>\<open>..\<close> takes back the element before it and is
  kept only at the start of a relative path.
\<close>

fun clean_step :: "bool \<Rightarrow> string list \<Rightarrow> string \<Rightarrow> string list" where
  "clean_step rooted out e =
     (if e = [] \<or> e = ''.'' then out
      else if e \<noteq> ''..'' then out @ [e]
      else if out \<noteq> [] \<and> last out \<noteq> ''..'' then butlast out
      else if rooted then out
      else out @ [''..''])"

definition filepath_Clean :: "string \<Rightarrow> string" where
  "filepath_Clean p =
     (let rooted = has_prefix ''/'' p;
          out = (if rooted then ''/'' else []) @ joinWith (CHR ''/'') (foldl (clean_step rooted) [] (splitOn (CHR ''/'') p))
      in if out = [] then ''.'' else out)"

definition filepath_Join :: "string \<Rightarrow> string \<Rightarrow> string" where
  "filepath_Join a b =
     (if a \<noteq> [] then filepath_Clean (a @ ''/'' @ b) else if b \<noteq> [] then filepath_Clean b else [])"

text \<open>\<^verbatim>\<open>expandPath\<close>; without a current user the dereference of \<^verbatim>\<open>usr\<close> panics.\<close>

definition expandPath :: "string option \<Rightarrow> string \<Rightarrow> string result" where
  "expandPath home path =
     (case home of
        None \<Rightarrow> Panic
      | Some dir \<Rightarrow>
          Ok (if path = ''~'' then dir
              else if has_prefix ''~/'' path then filepath_Join dir (drop 2 path)
              else path))"

section \<open>Values\<close>

datatype cfgval = VBool bool | VInt int | VString string | VStrings "string list"

datatype read_outcome = ReadOk | ConfigFileNotFoundError | ReadError

text \<open>\<^verbatim>\<open>vp_set\<close> is what the file, the environment and the flags set.\<close>

record viper =
  vp_read :: read_outcome
  vp_set :: "string \<Rightarrow> cfgval option"
  vp_ToBool :: "cfgval \<Rightarrow> bool"
  vp_ToInt :: "cfgval \<Rightarrow> int"
  vp_ToString :: "cfgval \<Rightarrow> string"
  vp_ToStrings :: "cfgval \<Rightarrow> string list"

abbreviation Cfg_p2p_connections_peerCountLow :: string where
  "Cfg_p2p_connections_peerCountLow \<equiv> ''p2p.connections.peerCountLow''"

abbreviation Cfg_p2p_connections_peerCountHigh :: string where
  "Cfg_p2p_connections_peerCountHigh \<equiv> ''p2p.connections.peerCountHigh''"

definition p2pDefaults :: "(string \<times> cfgval) list" where
  "p2pDefaults =
     [(Cfg_p2p_connections_peerCountLow, VInt 162),
      (Cfg_p2p_connections_peerCountHigh, VInt 192),
      (''p2p.bootstartPeers'', VStrings
         [''/dnsaddr/bootstrap.didem.tcfw.com.au/p2p/12D3KooWBaKMRyqvN4VKKggSW9up159ugtEYYSTry1wtZKEzyHcX'']),
      (''p2p.listeningAddrs'', VStrings [''/ip4/0.0.0.0/udp/8712/quic'', ''/ip6/::0/udp/8712/quic'']),
      (''p2p.enableRelay'', VBool False),
      (''p2p.identityFile'', VString ''~/.didem/p2p_identity''),
      (''p2p.ipfsRepo'', VString ''~/.didem/data''),
      (''p2p.advertiseAddrs'', VStrings [])]"

definition defaults :: "(string \<times> cfgval) list" where
  "defaults =
     [(''verbose'', VBool False),
      (''identityStore'', VString ''~/.didem/identities.yaml''),
      (''rawRandomSource'', VBool False)]"

definition viper_Get :: "viper \<Rightarrow> string \<Rightarrow> cfgval option" where
  "viper_Get V k = (case vp_set V k of Some v \<Rightarrow> Some v | None \<Rightarrow> map_of (defaults @ p2pDefaults) k)"

definition GetBool :: "viper \<Rightarrow> string \<Rightarrow> bool" where
  "GetBool V k = (case viper_Get V k of None \<Rightarrow> False | Some v \<Rightarrow> vp_ToBool V v)"

definition GetInt :: "viper \<Rightarrow> string \<Rightarrow> int" where
  "GetInt V k = (case viper_Get V k of None \<Rightarrow> 0 | Some v \<Rightarrow> vp_ToInt V v)"

definition GetString :: "viper \<Rightarrow> string \<Rightarrow> string" where
  "GetString V k = (case viper_Get V k of None \<Rightarrow> [] | Some v \<Rightarrow> vp_ToString V v)"

definition GetStringSlice :: "viper \<Rightarrow> string \<Rightarrow> string list" where
  "GetStringSlice V k = (case viper_Get V k of None \<Rightarrow> [] | Some v \<Rightarrow> vp_ToStrings V v)"

section \<open>The configuration\<close>

record P2P =
  PeersCountHigh :: int
  PeersCountLow :: int
  BootstrapPeers :: "string list"
  ListenAddrs :: "string list"
  Relay :: bool
  IdentityFile :: string
  IpfsRepo :: string
  AdvertiseAddrs :: "string list"

definition buildP2PConfig :: "viper \<Rightarrow> string option \<Rightarrow> P2P result" where
  "buildP2PConfig V home =
     bindr (expandPath home (GetString V ''p2p.identityFile'')) (\<lambda>ident.
     bindr (expandPath home (GetString V ''p2p.ipfsRepo'')) (\<lambda>repo.
       Ok \<lparr>PeersCountHigh = GetInt V Cfg_p2p_connections_peerCountHigh,
           PeersCountLow = GetInt V Cfg_p2p_connections_peerCountHigh,
           BootstrapPeers = GetStringSlice V ''p2p.bootstartPeers'',
           ListenAddrs = GetStringSlice V ''p2p.listeningAddrs'',
           Relay = GetBool V ''p2p.enableRelay'', IdentityFile = ident, IpfsRepo = repo,
           AdvertiseAddrs = GetStringSlice V ''p2p.advertiseAddrs''\<rparr>))"

record nlib = plib +
  mp_enc_genesis :: "GenesisInfo \<Rightarrow> bytes option"
  mp_dec_genesis :: "bytes \<Rightarrow> GenesisInfo option"

record Chain =
  Genesis :: GenesisInfo
  Key :: string

definition zero_Genesis :: "'z lib_scheme \<Rightarrow> GenesisInfo" where
  "zero_Genesis L =
     \<lparr>g_ChainID = [],
      g_Block = \<lparr>b_Version = 0, b_ID = cid_Undef L, b_Parent = cid_Undef L, b_Height = 0, b_CreatedAt = 0, b_Proposer = [],
        b_Signature = [], b_Nonce = replicate 32 0, b_Bloom = [], b_TxRoot = cid_Undef L\<rparr>,
      g_Txs = []\<rparr>"

text \<open>The loop over the transactions of the genesis, each marshalled and unmarshalled in place.\<close>

fun remarshalTxs :: "'z lib_scheme \<Rightarrow> Tx list \<Rightarrow> Tx list result" where
  "remarshalTxs L [] = Ok []"
| "remarshalTxs L (t # ts) =
     bindr (wrap ''remarshal tx'' (Tx_Marshal L t)) (\<lambda>b.
     bindr (wrap ''remarshal tx'' (Tx_Unmarshal L b)) (\<lambda>t'.
     bindr (remarshalTxs L ts) (\<lambda>ts'. Ok (t' # ts'))))"

definition buildChainConfig :: "'z nlib_scheme \<Rightarrow> viper \<Rightarrow> Chain result" where
  "buildChainConfig L V =
     (let gcfg = GetString V ''chain.genesis'' in
      bindr (if gcfg = [] then Ok (zero_Genesis L)
             else
               bindr (wrap ''b64 decoding genesis config'' (proto (mb_Decode L gcfg))) (\<lambda>raw.
               bindr (wrap ''unmarshaling genesis info'' (proto (mp_dec_genesis L raw))) (\<lambda>g.
               bindr (remarshalTxs L (g_Txs g)) (\<lambda>txs. Ok (g\<lparr>g_Txs := txs\<rparr>))))) (\<lambda>g.
        Ok \<lparr>Genesis = g, Key = GetString V ''chain.key''\<rparr>))"

record Config =
  cfg_p2p :: P2P
  cfg_IdentityStore :: string
  cfg_RawRandomSource :: bool
  cfg_chain :: Chain

definition GetConfig :: "'z nlib_scheme \<Rightarrow> viper \<Rightarrow> string option \<Rightarrow> Config result" where
  "GetConfig L V home =
     (if vp_read V = ReadError then Err (ErrWrap ''reading config file'' (ErrNew ''viper''))
      else
        bindr (wrap ''p2p config'' (buildP2PConfig V home)) (\<lambda>p2p.
        bindr (expandPath home (GetString V ''identityStore'')) (\<lambda>ids.
        bindr (wrap ''chain config'' (buildChainConfig L V)) (\<lambda>ch.
          Ok \<lparr>cfg_p2p = p2p, cfg_IdentityStore = ids, cfg_RawRandomSource = GetBool V ''rawRandomSource'', cfg_chain = ch\<rparr>))))"

section \<open>Laws\<close>

lemma splitOn_ne [simp]: "splitOn c s \<noteq> []"
  by (cases s) (simp_all split: list.split)

lemma joinWith_Cons: "ws \<noteq> [] \<Longrightarrow> joinWith c (w # ws) = w @ c # joinWith c ws"
  by (cases ws) simp_all

text \<open>Joining undoes splitting, and splitting gives words without the separator.\<close>

lemma joinWith_splitOn: "joinWith c (splitOn c s) = s"
proof (induction s)
  case (Cons x xs)
  obtain w ws where w: "splitOn c xs = w # ws" by (cases "splitOn c xs") auto
  then show ?case using Cons by (cases ws) (auto simp: joinWith_Cons)
qed simp

lemma splitOn_words: "w \<in> set (splitOn c s) \<Longrightarrow> c \<notin> set w"
proof (induction s arbitrary: w)
  case (Cons x xs)
  obtain v vs where "splitOn c xs = v # vs" by (cases "splitOn c xs") auto
  then show ?case using Cons by (auto split: if_splits)
qed simp

lemma expandPath_other: "path \<noteq> ''~'' \<Longrightarrow> \<not> has_prefix ''~/'' path \<Longrightarrow> expandPath (Some dir) path = Ok path"
  by (simp add: expandPath_def)

lemma filepath_Clean_rooted: "has_prefix ''/'' p \<Longrightarrow> has_prefix ''/'' (filepath_Clean p)"
  by (simp add: filepath_Clean_def has_prefix_def)

lemma expandPath_rooted:
  assumes "has_prefix ''/'' dir" and "path = ''~'' \<or> has_prefix ''~/'' path"
  shows "\<exists>q. expandPath (Some dir) path = Ok q \<and> has_prefix ''/'' q \<and> expandPath (Some dir) q = Ok q"
proof -
  have rooted: "expandPath (Some dir) q = Ok q" if "has_prefix ''/'' q" for q
    using that by (cases q) (auto simp: expandPath_def has_prefix_def)
  obtain q where "expandPath (Some dir) path = Ok q" "has_prefix ''/'' q"
  proof (cases "path = ''~''")
    case True
    then show ?thesis using that assms(1) by (simp add: expandPath_def)
  next
    case False
    have "has_prefix ''/'' (dir @ ''/'' @ drop 2 path)" "dir \<noteq> []"
      using assms(1) by (cases dir; auto simp: has_prefix_def)+
    then show ?thesis using that False assms(2) by (simp add: expandPath_def filepath_Join_def filepath_Clean_rooted)
  qed
  then show ?thesis using rooted by blast
qed

lemma remarshalTxs_typed: "remarshalTxs L ts = Ok ts' \<Longrightarrow> t \<in> set ts' \<Longrightarrow> \<exists>b. Tx_Unmarshal L b = Ok t"
proof (induction ts arbitrary: ts')
  case (Cons u us)
  then show ?case by (auto simp: bindr_Ok wrap_Ok)
qed simp

lemma remarshalTxs_same:
  "(\<And>t. t \<in> set ts \<Longrightarrow> codec_tx_ok L t) \<Longrightarrow> (\<And>t. t \<in> set ts \<Longrightarrow> tx_typed t) \<Longrightarrow> remarshalTxs L ts = Ok ts"
proof (induction ts)
  case (Cons t ts)
  obtain b where "Tx_Marshal L t = Ok b" "Tx_Unmarshal L b = Ok t"
    using Tx_Unmarshal_Marshal [of t L] Cons(2,3) by auto
  then show ?case using Cons by simp
qed simp

end
