(* ===== verification/Identity_Model.thy ===== *)
theory Identity_Model
  imports Tx_Model
begin

text \<open>
  \<^verbatim>\<open>pkg/did/publicIdentity.go\<close>, \<^verbatim>\<open>pkg/did/privateIdentity.go\<close> and the identity store of
  \<^verbatim>\<open>internal/did/fileStore.go\<close>. Hashes, encodings and YAML are parameters; the file system is a map from
  paths to contents that the operations change.
\<close>

section \<open>Third-party operations\<close>

record IdentityFileStoreId =
  ifs_Type :: string
  ifs_Data :: string

record idlib = lib +
  mh_SHA3_384_B58 :: "bytes \<Rightarrow> string option"
  mb_Encode_Base64 :: "bytes \<Rightarrow> string option"
  mb_Encode_Base58BTC :: "bytes \<Rightarrow> string option"
  bls_Public :: "bytes \<Rightarrow> bytes"
  yaml_Marshal :: "IdentityFileStoreId list \<Rightarrow> bytes option"
  yaml_Unmarshal :: "bytes \<Rightarrow> IdentityFileStoreId list option"

section \<open>Keys and public identities\<close>

text \<open>
  A value of the interface \<^verbatim>\<open>crypto.PublicKey\<close>: the slice type of Ed25519 keys, pointers to the other
  kinds of key (the address and the encoding of what it points to), and what decoding may put there.
\<close>

datatype PublicKey =
    KeyEd25519 bytes
  | KeyRSA nat bytes
  | KeyECDSA nat bytes
  | KeyBls nat bytes
  | KeyBytes bytes
  | KeyString string
  | KeyMap
  | KeyNil

text \<open>
  \<^verbatim>\<open>==\<close> on such values: pointers are compared by address, and values of one type that cannot be compared
  (slices, maps) panic.
\<close>

fun key_eq :: "PublicKey \<Rightarrow> PublicKey \<Rightarrow> bool result" where
  "key_eq (KeyEd25519 _) (KeyEd25519 _) = Panic"
| "key_eq (KeyBytes _) (KeyBytes _) = Panic"
| "key_eq KeyMap KeyMap = Panic"
| "key_eq (KeyRSA a _) (KeyRSA b _) = Ok (a = b)"
| "key_eq (KeyECDSA a _) (KeyECDSA b _) = Ok (a = b)"
| "key_eq (KeyBls a _) (KeyBls b _) = Ok (a = b)"
| "key_eq (KeyString s) (KeyString t) = Ok (s = t)"
| "key_eq KeyNil KeyNil = Ok True"
| "key_eq _ _ = Ok False"

definition EncodeMultibase :: "'z idlib_scheme \<Rightarrow> PublicKey \<Rightarrow> string result" where
  "EncodeMultibase L k =
     (let enc = (\<lambda>raw. case mb_Encode_Base58BTC L raw of None \<Rightarrow> Err (ErrNew ''multibase'') | Some s \<Rightarrow> Ok s) in
      case k of
        KeyEd25519 raw \<Rightarrow> enc raw
      | KeyBls _ raw \<Rightarrow> enc raw
      | _ \<Rightarrow> Err (ErrNew ''unsupported pk type''))"

record PublicIdentity =
  pi_ID :: string
  pi_PublicKeys :: "PublicKey list"

text \<open>The loops of \<^verbatim>\<open>Matches\<close>: the inner one compares with every key, found or not.\<close>

fun key_among :: "PublicKey \<Rightarrow> PublicKey list \<Rightarrow> bool \<Rightarrow> bool result" where
  "key_among k [] f = Ok f"
| "key_among k (p # ps) f = bindr (key_eq p k) (\<lambda>e. key_among k ps (if e then True else f))"

fun keys_among :: "PublicKey list \<Rightarrow> PublicKey list \<Rightarrow> bool result" where
  "keys_among [] ps = Ok True"
| "keys_among (k # ks) ps = bindr (key_among k ps False) (\<lambda>f. if f then keys_among ks ps else Ok False)"

definition Matches :: "PublicIdentity \<Rightarrow> PublicIdentity \<Rightarrow> bool result" where
  "Matches pi p = (if pi_ID pi \<noteq> pi_ID p then Ok False else keys_among (pi_PublicKeys pi) (pi_PublicKeys p))"

section \<open>Private identities\<close>

datatype PrivateIdentity = Bls12381G2Identity bytes | Ed25519Identity bytes

text \<open>
  \<^verbatim>\<open>ed25519.PrivateKey.Public\<close> copies the bytes from position 32 on into an array of 32.
\<close>

definition ed25519_Public :: "bytes \<Rightarrow> bytes result" where
  "ed25519_Public sk =
     (if length sk < 32 then Panic else Ok (take 32 (drop 32 sk @ replicate 32 0)))"

definition identityOf :: "'z idlib_scheme \<Rightarrow> bytes \<Rightarrow> PublicKey \<Rightarrow> PublicIdentity result" where
  "identityOf L raw k =
     (case mh_SHA3_384_B58 L raw of
        None \<Rightarrow> Err (ErrNew ''multihash'')
      | Some i \<Rightarrow> Ok \<lparr>pi_ID = i, pi_PublicKeys = [k]\<rparr>)"

text \<open>\<^verbatim>\<open>PublicIdentity()\<close>; \<open>new\<close> is the address of the key that the BLS variant allocates.\<close>

fun PublicIdentityOf :: "'z idlib_scheme \<Rightarrow> nat \<Rightarrow> PrivateIdentity \<Rightarrow> PublicIdentity result" where
  "PublicIdentityOf L new (Bls12381G2Identity sk) = identityOf L (bls_Public L sk) (KeyBls new (bls_Public L sk))"
| "PublicIdentityOf L new (Ed25519Identity sk) =
     bindr (ed25519_Public sk) (\<lambda>pk. identityOf L pk (KeyEd25519 pk))"

section \<open>The identity store\<close>

record FileStore =
  fs_path :: string
  fs_ids :: "IdentityFileStoreId list"
  fs_idx :: "(string \<times> PrivateIdentity) list"

text \<open>
  The file system: the contents of files, and which paths can be opened. Opening creates a file that
  does not exist.
\<close>

record disk =
  dk_files :: "string \<rightharpoonup> bytes"
  dk_openable :: "string \<Rightarrow> bool"

definition OpenFile :: "string \<Rightarrow> (disk, bytes) op" where
  "OpenFile path = (\<lambda>d.
     if \<not> dk_openable d path then (d, Err (ErrNew ''open''))
     else (case dk_files d path of
             Some b \<Rightarrow> (d, Ok b)
           | None \<Rightarrow> (d\<lparr>dk_files := (dk_files d)(path \<mapsto> [])\<rparr>, Ok [])))"

definition decodeType :: "'z idlib_scheme \<Rightarrow> string \<Rightarrow> string \<Rightarrow> PrivateIdentity result" where
  "decodeType L t data =
     (case mb_Decode L data of
        None \<Rightarrow> Err (ErrWrap ''decoding identity data'' (ErrNew ''multibase''))
      | Some raw \<Rightarrow> if t = ''ed25519'' then Ok (Ed25519Identity raw) else Err (ErrNew ''unknown key type''))"

text \<open>\<^verbatim>\<open>buildIdx\<close> over the entries that are left; the index so far is kept when it fails.\<close>

fun buildIdx ::
    "'z idlib_scheme \<Rightarrow> IdentityFileStoreId list \<Rightarrow> (string \<times> PrivateIdentity) list
       \<Rightarrow> (string \<times> PrivateIdentity) list \<times> unit result" where
  "buildIdx L [] idx = (idx, Ok ())"
| "buildIdx L (f # fs) idx =
     (case wrap ''decoding id'' (decodeType L (ifs_Type f) (ifs_Data f)) of
        Ok i \<Rightarrow>
          (case wrap ''getting public id from private'' (PublicIdentityOf L 0 i) of
             Ok pid \<Rightarrow> buildIdx L fs (alist_put (pi_ID pid) i idx)
           | r \<Rightarrow> (idx, fail_as r ()))
      | r \<Rightarrow> (idx, fail_as r ()))"

definition FileStore_read :: "'z idlib_scheme \<Rightarrow> FileStore \<Rightarrow> (disk, FileStore) op" where
  "FileStore_read L fs =
     bindM (wrapM ''opening identity file for read'' (OpenFile (fs_path fs))) (\<lambda>b.
       case yaml_Unmarshal L b of
         None \<Rightarrow> raise (ErrWrap ''unmarshalling identity data'' (ErrNew ''yaml''))
       | Some ids \<Rightarrow>
           (case buildIdx L ids [] of
              (idx, r) \<Rightarrow> lift (bindr r (\<lambda>_. Ok (fs\<lparr>fs_ids := ids, fs_idx := idx\<rparr>)))))"

definition NewFileStore :: "'z idlib_scheme \<Rightarrow> string \<Rightarrow> (disk, FileStore) op" where
  "NewFileStore L path = FileStore_read L \<lparr>fs_path = path, fs_ids = [], fs_idx = []\<rparr>"

definition FileStore_write :: "'z idlib_scheme \<Rightarrow> FileStore \<Rightarrow> (disk, unit) op" where
  "FileStore_write L fs =
     andThen (wrapM ''opening identity file for write'' (OpenFile (fs_path fs)))
       (case yaml_Marshal L (fs_ids fs) of
          None \<Rightarrow> raise (ErrWrap ''marshalling identity data'' (ErrNew ''yaml''))
        | Some b \<Rightarrow> modify (\<lambda>d. d\<lparr>dk_files := (dk_files d)(fs_path fs \<mapsto> b)\<rparr>))"

text \<open>\<^verbatim>\<open>Add\<close> on the store and the disk; the entry stays in the store also when writing it fails.\<close>

definition FileStore_Add :: "'z idlib_scheme \<Rightarrow> PrivateIdentity \<Rightarrow> (FileStore \<times> disk, unit) op" where
  "FileStore_Add L i = (\<lambda>(fs, d).
     case PublicIdentityOf L 0 i of
       Ok pid \<Rightarrow>
         if pi_ID pid \<in> fst ` set (fs_idx fs) then ((fs, d), Ok ())
         else (case i of
                 Ed25519Identity pk \<Rightarrow>
                   (case mb_Encode_Base64 L pk of
                      None \<Rightarrow> ((fs, d), Err (ErrWrap ''encoding private key to multibase'' (ErrNew ''multibase'')))
                    | Some raw \<Rightarrow>
                        (let fs' = fs\<lparr>fs_ids := fs_ids fs @ [\<lparr>ifs_Type = ''ed25519'', ifs_Data = raw\<rparr>]\<rparr> in
                         case FileStore_write L fs' d of (d', r) \<Rightarrow> ((fs', d'), r)))
               | Bls12381G2Identity _ \<Rightarrow> ((fs, d), Err (ErrNew ''unknown did PK type'')))
     | r \<Rightarrow> ((fs, d), fail_as r ()))"

definition FileStore_Find :: "FileStore \<Rightarrow> string \<Rightarrow> PrivateIdentity result" where
  "FileStore_Find fs i = (case map_of (fs_idx fs) i of None \<Rightarrow> Err (ErrNew ''not found'') | Some p \<Rightarrow> Ok p)"

text \<open>\<open>ord\<close> is the order in which Go ranges over the index.\<close>

definition FileStore_List ::
    "((string \<times> PrivateIdentity) list \<Rightarrow> (string \<times> PrivateIdentity) list) \<Rightarrow> FileStore \<Rightarrow> PrivateIdentity list" where
  "FileStore_List ord fs = map snd (ord (fs_idx fs))"

section \<open>Laws\<close>

lemma buildIdx_app:
  "buildIdx L fs idx = (idx1, Ok ()) \<Longrightarrow> buildIdx L (fs @ gs) idx = buildIdx L gs idx1"
proof (induction L fs idx rule: buildIdx.induct)
  case (2 L f fs idx)
  then show ?case by (auto split: result.splits)
qed simp

text \<open>The entries of an index come from entries of the file, under the identifier of their key.\<close>

definition indexed :: "'z idlib_scheme \<Rightarrow> IdentityFileStoreId list \<Rightarrow> string \<times> PrivateIdentity \<Rightarrow> bool" where
  "indexed L ids e \<longleftrightarrow>
     (\<exists>f pid sk. f \<in> set ids \<and> ifs_Type f = ''ed25519'' \<and> mb_Decode L (ifs_Data f) = Some sk
        \<and> snd e = Ed25519Identity sk \<and> PublicIdentityOf L 0 (snd e) = Ok pid \<and> fst e = pi_ID pid)"

lemma buildIdx_indexed:
  "buildIdx L fs idx = (idx1, r) \<Longrightarrow> set fs \<subseteq> set ids \<Longrightarrow> \<forall>e\<in>set idx. indexed L ids e \<Longrightarrow>
   \<forall>e\<in>set idx1. indexed L ids e"
proof (induction L fs idx rule: buildIdx.induct)
  case (2 L f fs idx)
  show ?case
  proof (cases "\<exists>sk pid. mb_Decode L (ifs_Data f) = Some sk \<and> ifs_Type f = ''ed25519'' \<and> PublicIdentityOf L 0 (Ed25519Identity sk) = Ok pid")
    case True
    then obtain sk pid where f: "mb_Decode L (ifs_Data f) = Some sk" "ifs_Type f = ''ed25519''"
      "PublicIdentityOf L 0 (Ed25519Identity sk) = Ok pid" by blast
    then have "indexed L ids (pi_ID pid, Ed25519Identity sk)" using 2(3) by (fastforce simp: indexed_def)
    then have "\<forall>e\<in>set (alist_put (pi_ID pid) (Ed25519Identity sk) idx). indexed L ids e"
      using 2(4) by (auto dest: in_set_alist_put)
    then show ?thesis using 2 f by (auto simp: decodeType_def simp del: PublicIdentityOf.simps)
  next
    case False
    then show ?thesis using 2(2,4)
      by (auto simp: decodeType_def wrap_Ok simp del: PublicIdentityOf.simps split: option.splits if_splits result.splits)
  qed
qed simp

text \<open>The entries of a file that was indexed are all of the one type the store knows.\<close>

definition typed_entry :: "'z idlib_scheme \<Rightarrow> IdentityFileStoreId \<Rightarrow> bool" where
  "typed_entry L f \<longleftrightarrow> ifs_Type f = ''ed25519'' \<and> mb_Decode L (ifs_Data f) \<noteq> None"

lemma buildIdx_typed:
  "buildIdx L fs idx = (idx1, Ok ()) \<Longrightarrow> f \<in> set fs \<Longrightarrow> typed_entry L f"
proof (induction L fs idx rule: buildIdx.induct)
  case (2 L g fs idx)
  then obtain i pid where i: "decodeType L (ifs_Type g) (ifs_Data g) = Ok i" "PublicIdentityOf L 0 i = Ok pid"
    by (auto simp: wrap_Ok simp del: PublicIdentityOf.simps split: result.splits)
  then have "typed_entry L g" by (auto simp: typed_entry_def decodeType_def split: option.splits if_splits)
  moreover have "typed_entry L f" if "f \<in> set fs" using 2 i that by (auto simp del: PublicIdentityOf.simps)
  ultimately show ?case using 2(3) by auto
qed simp

definition store_typed :: "'z idlib_scheme \<Rightarrow> FileStore \<Rightarrow> bool" where
  "store_typed L fs \<longleftrightarrow> (\<forall>f\<in>set (fs_ids fs). typed_entry L f) \<and> (\<forall>e\<in>set (fs_idx fs). indexed L (fs_ids fs) e)"

text \<open>The stores that opening and adding give rise to.\<close>

inductive store_run :: "'z idlib_scheme \<Rightarrow> FileStore \<times> disk \<Rightarrow> bool" for L where
  opened: "NewFileStore L path d = (d', Ok fs) \<Longrightarrow> store_run L (fs, d')"
| added: "store_run L (fs, d) \<Longrightarrow> store_run L (fst (FileStore_Add L i (fs, d)))"

lemma NewFileStore_Ok:
  assumes "NewFileStore L path d = (d', Ok fs)"
  shows "\<exists>b. yaml_Unmarshal L b = Some (fs_ids fs) \<and> buildIdx L (fs_ids fs) [] = (fs_idx fs, Ok ())
     \<and> fs_path fs = path \<and> dk_openable d path \<and> dk_files d' path = Some b \<and> dk_openable d' = dk_openable d"
  using assms
  by (auto simp: NewFileStore_def FileStore_read_def bindM_def wrapM_def OpenFile_def raise_def lift_def bindr_Ok
      split: if_splits option.splits prod.splits)

lemma indexed_mono: "indexed L ids e \<Longrightarrow> set ids \<subseteq> set ids' \<Longrightarrow> indexed L ids' e"
  unfolding indexed_def by blast

lemma Add_entries:
  assumes "FileStore_Add L i (fs, d) = ((fs', d'), r)"
  shows "fs_idx fs' = fs_idx fs \<and> fs_path fs' = fs_path fs \<and>
    (fs_ids fs' = fs_ids fs \<or> (\<exists>sk raw. i = Ed25519Identity sk \<and> mb_Encode_Base64 L sk = Some raw
        \<and> fs_ids fs' = fs_ids fs @ [\<lparr>ifs_Type = ''ed25519'', ifs_Data = raw\<rparr>]))"
  using assms
  by (auto simp: FileStore_Add_def Let_def simp del: PublicIdentityOf.simps
      split: result.splits if_splits PrivateIdentity.splits option.splits prod.splits)

lemma buildIdx_ok: "buildIdx L fs idx = (idx1, r) \<Longrightarrow> alist_ok idx \<Longrightarrow> alist_ok idx1"
proof (induction L fs idx rule: buildIdx.induct)
  case (2 L f fs idx)
  then show ?case by (auto simp del: PublicIdentityOf.simps split: result.splits)
qed simp

definition store_good :: "'z idlib_scheme \<Rightarrow> FileStore \<Rightarrow> bool" where
  "store_good L fs \<longleftrightarrow> store_typed L fs \<and> alist_ok (fs_idx fs)"

lemma store_run_good:
  assumes "\<And>sk raw. mb_Encode_Base64 L sk = Some raw \<Longrightarrow> mb_Decode L raw = Some sk" and "store_run L (fs, d)"
  shows "store_good L fs"
  using assms(2)
proof (induction "(fs, d)" arbitrary: fs d rule: store_run.induct)
  case (opened path d0 d fs)
  then obtain b where "buildIdx L (fs_ids fs) [] = (fs_idx fs, Ok ())" using NewFileStore_Ok by blast
  then show ?case
    using buildIdx_typed [of L "fs_ids fs"] buildIdx_indexed [of L "fs_ids fs" "[]" "fs_idx fs" "Ok ()" "fs_ids fs"] buildIdx_ok
    by (fastforce simp: store_good_def store_typed_def alist_ok_def)
next
  case (added fs0 d0 i)
  obtain r where "FileStore_Add L i (fs0, d0) = ((fs, d), r)" using added(3) by (metis prod.collapse)
  from Add_entries [OF this] show ?case
    using added(2) assms(1) unfolding store_good_def store_typed_def
    by (elim conjE disjE exE) (auto simp: typed_entry_def intro: indexed_mono)
qed

section \<open>What users of a store rely on\<close>

text \<open>
  The interface \<^verbatim>\<open>did.IdentityStore\<close> as its users need it: an identity is found under its own identifier
  only, and the identities that are listed are the ones that can be found.
\<close>

locale identity_store =
  fixes L :: "'z idlib_scheme"
    and lookup :: "'s \<Rightarrow> string \<Rightarrow> PrivateIdentity result"
    and listed :: "'s \<Rightarrow> PrivateIdentity set"
    and good :: "'s \<Rightarrow> bool"
  assumes lookup_id: "good s \<Longrightarrow> lookup s i = Ok p \<Longrightarrow> \<exists>pid. PublicIdentityOf L 0 p = Ok pid \<and> pi_ID pid = i"
    and listed_lookup: "good s \<Longrightarrow> p \<in> listed s \<longleftrightarrow> (\<exists>i. lookup s i = Ok p)"
begin

lemma lookup_inj: "good s \<Longrightarrow> lookup s i = Ok p \<Longrightarrow> lookup s j = Ok p \<Longrightarrow> i = j"
  using lookup_id [of s i p] lookup_id [of s j p] by auto

lemma listed_public: "good s \<Longrightarrow> p \<in> listed s \<Longrightarrow> \<exists>pid. PublicIdentityOf L 0 p = Ok pid \<and> lookup s (pi_ID pid) = Ok p"
  using lookup_id [of s _ p] listed_lookup [of s p] by fast

end

interpretation filestore: identity_store L FileStore_Find "\<lambda>fs. snd ` set (fs_idx fs)" "store_good L" for L
proof unfold_locales
  fix s i p
  assume s: "store_good L s" and "FileStore_Find s i = Ok p"
  then have "(i, p) \<in> set (fs_idx s)" by (auto simp: FileStore_Find_def split: option.splits dest: map_of_SomeD)
  then show "\<exists>pid. PublicIdentityOf L 0 p = Ok pid \<and> pi_ID pid = i"
    using s unfolding store_good_def store_typed_def indexed_def by fastforce
next
  fix s p
  assume "store_good L s"
  then have "(i, p) \<in> set (fs_idx s) \<longleftrightarrow> FileStore_Find s i = Ok p" for i
    by (auto simp: store_good_def alist_ok_def FileStore_Find_def split: option.splits dest: eq_key_imp_eq_value)
  then show "p \<in> snd ` set (fs_idx s) \<longleftrightarrow> (\<exists>i. FileStore_Find s i = Ok p)" by force
qed

end
