(* ===== verification/Comm_Model.thy ===== *)
theory Comm_Model
  imports Stream_Model Identity_Model
begin

text \<open>
  \<^verbatim>\<open>pkg/comm\<close>, \<^verbatim>\<open>internal/comm\<close> and \<^verbatim>\<open>internal/api/comm.go\<close>: messages between identities, the handshake of
  the two sides of a stream and the sending of a message to the nodes that provide a recipient. The
  codec of messages, hashes and signature schemes are parameters; random nonces, the clock and the
  outcomes of the network are arguments.
\<close>

section \<open>Messages\<close>

record MessageAttachment =
  ma_Id :: string
  ma_MediaType :: string
  ma_Data :: bytes

text \<open>Pointers to identities may be nil, and so may the list of recipients.\<close>

record Message =
  msg_Type :: string
  msg_Id :: string
  msg_ThreadId :: string
  msg_CreatedTime :: int
  msg_ExpiresTime :: int
  msg_From :: "PublicIdentity option"
  msg_To :: "PublicIdentity option list option"
  msg_Nonce :: bytes
  msg_Signature :: bytes
  msg_Body :: "(string \<times> string) list"
  msg_Attachments :: "MessageAttachment list"

definition blank_Message :: Message where
  "blank_Message =
     \<lparr>msg_Type = [], msg_Id = [], msg_ThreadId = [], msg_CreatedTime = 0, msg_ExpiresTime = 0, msg_From = None,
      msg_To = None, msg_Nonce = replicate 32 0, msg_Signature = [], msg_Body = [], msg_Attachments = []\<rparr>"

definition Message_Copy :: "Message \<Rightarrow> Message" where
  "Message_Copy e = blank_Message
     \<lparr>msg_CreatedTime := msg_CreatedTime e, msg_From := msg_From e, msg_To := msg_To e, msg_Body := msg_Body e,
      msg_Attachments := map (\<lambda>p. \<lparr>ma_Id = [], ma_MediaType = ma_MediaType p, ma_Data = ma_Data p\<rparr>) (msg_Attachments e)\<rparr>"

text \<open>\<^verbatim>\<open>To[0]\<close>, dereferenced.\<close>

definition firstTo :: "Message \<Rightarrow> PublicIdentity result" where
  "firstTo m = (case msg_To m of Some (Some p # _) \<Rightarrow> Ok p | _ \<Rightarrow> Panic)"

definition deref :: "'a option \<Rightarrow> 'a result" where
  "deref p = (case p of None \<Rightarrow> Panic | Some a \<Rightarrow> Ok a)"

section \<open>Signatures\<close>

record mlib = idlib +
  mp_enc_message :: "Message \<Rightarrow> bytes option"
  mp_dec_message :: "bytes \<Rightarrow> Message option"
  sha3_512 :: "bytes \<Rightarrow> bytes"
  ecdsa_SignASN1 :: "bytes \<Rightarrow> bytes \<Rightarrow> bytes option"
  ecdsa_VerifyASN1 :: "bytes \<Rightarrow> bytes \<Rightarrow> bytes \<Rightarrow> bool"
  rsa_SignPKCS1v15 :: "bytes \<Rightarrow> bytes \<Rightarrow> bytes option"
  rsa_VerifyPKCS1v15 :: "bytes \<Rightarrow> bytes \<Rightarrow> bytes \<Rightarrow> bool"
  ed25519_Sign :: "bytes \<Rightarrow> bytes \<Rightarrow> bytes"
  mh_SHA3_384 :: "bytes \<Rightarrow> bytes option"
  mh_FromB58String :: "string \<Rightarrow> bytes option"

datatype PrivateKey = SkECDSA bytes | SkEd25519 bytes | SkRSA bytes | SkBls bytes

fun PrivateKeyOf :: "PrivateIdentity \<Rightarrow> PrivateKey" where
  "PrivateKeyOf (Bls12381G2Identity sk) = SkBls sk"
| "PrivateKeyOf (Ed25519Identity sk) = SkEd25519 sk"

definition orErr :: "string \<Rightarrow> 'a option \<Rightarrow> 'a result" where
  "orErr m r = (case r of None \<Rightarrow> Err (ErrNew m) | Some a \<Rightarrow> Ok a)"

definition sign :: "'z mlib_scheme \<Rightarrow> PrivateKey \<Rightarrow> bytes \<Rightarrow> bytes result" where
  "sign L pk b =
     (case pk of
        SkECDSA k \<Rightarrow> orErr ''ecdsa'' (ecdsa_SignASN1 L k (sha3_512 L b))
      | SkEd25519 k \<Rightarrow> if length k \<noteq> 64 then Panic else Ok (ed25519_Sign L k b)
      | SkRSA k \<Rightarrow> orErr ''rsa'' (rsa_SignPKCS1v15 L k (sha3_512 L b))
      | SkBls _ \<Rightarrow> Err (ErrNew ''unknown private key type''))"

text \<open>\<^verbatim>\<open>verify\<close>: on an RSA key only the error is set, never the flag that is tested at the end.\<close>

definition verify :: "'z mlib_scheme \<Rightarrow> PublicKey \<Rightarrow> bytes \<Rightarrow> bytes \<Rightarrow> unit result" where
  "verify L pk b sig =
     (case pk of
        KeyRSA _ k \<Rightarrow>
          if \<not> rsa_VerifyPKCS1v15 L k (sha3_512 L b) sig then Err (ErrNew ''crypto/rsa: verification error'')
          else Err (ErrNew ''invalid signature'')
      | KeyEd25519 k \<Rightarrow>
          if length k \<noteq> 32 then Panic
          else if ed25519_Verify L k b sig then Ok () else Err (ErrNew ''invalid signature'')
      | KeyECDSA _ k \<Rightarrow>
          if ecdsa_VerifyASN1 L k (sha3_512 L b) sig then Ok () else Err (ErrNew ''invalid signature'')
      | _ \<Rightarrow> Err (ErrNew ''unknown public key type''))"

text \<open>The loop that looks for a key the signature is valid for.\<close>

fun anyVerifies :: "'z mlib_scheme \<Rightarrow> PublicKey list \<Rightarrow> bytes \<Rightarrow> bytes \<Rightarrow> bool result" where
  "anyVerifies L [] b sig = Ok False"
| "anyVerifies L (k # ks) b sig =
     (case verify L k b sig of
        Ok _ \<Rightarrow> Ok True
      | Err _ \<Rightarrow> anyVerifies L ks b sig
      | Panic \<Rightarrow> Panic
      | Diverge \<Rightarrow> Diverge)"

definition marshalMsg :: "'z mlib_scheme \<Rightarrow> Message \<Rightarrow> bytes result" where
  "marshalMsg L m = orErr ''msgpack'' (mp_enc_message L m)"

definition unmarshalMsg :: "'z mlib_scheme \<Rightarrow> bytes \<Rightarrow> Message result" where
  "unmarshalMsg L b = orErr ''msgpack'' (mp_dec_message L b)"

text \<open>\<^verbatim>\<open>sign\<close> of both sides: the message as it is is signed.\<close>

definition signMsg :: "'z mlib_scheme \<Rightarrow> PrivateIdentity option \<Rightarrow> Message \<Rightarrow> Message result" where
  "signMsg L identity e =
     bindr (wrap ''mashalling client hello'' (marshalMsg L e)) (\<lambda>b.
     bindr (deref identity) (\<lambda>i.
     bindr (sign L (PrivateKeyOf i) b) (\<lambda>s. Ok (e\<lparr>msg_Signature := s\<rparr>))))"

section \<open>The receiving side\<close>

text \<open>
  \<^verbatim>\<open>ServerHandler\<close>: the resolver, the stores of identities and of mail, each nil when \<open>None\<close>, and the
  state of the handshake. The store of mail has a type of its own.
\<close>

record 'i ServerHandler =
  sh_resolver :: "(string \<Rightarrow> PublicIdentity result) option"
  sh_idStore :: "(string \<Rightarrow> PrivateIdentity result) option"
  sh_emStore :: "'i option"
  sh_rw :: RW
  sh_clientHello :: "Message option"
  sh_identity :: "PrivateIdentity option"
  sh_received :: "Message option"

definition NewServerHandler ::
    "RW \<Rightarrow> 'i option \<Rightarrow> (string \<Rightarrow> PrivateIdentity result) option \<Rightarrow> 'i ServerHandler" where
  "NewServerHandler rw store idStore =
     \<lparr>sh_resolver = None, sh_idStore = idStore, sh_emStore = store, sh_rw = rw, sh_clientHello = None,
      sh_identity = None, sh_received = None\<rparr>"

definition onServerRW :: "(RW, 'a) op \<Rightarrow> ('i ServerHandler, 'a) op" where
  "onServerRW f = (\<lambda>s. case f (sh_rw s) of (rw, r) \<Rightarrow> (s\<lparr>sh_rw := rw\<rparr>, r))"

definition readClientHello :: "'z mlib_scheme \<Rightarrow> ('i ServerHandler, unit) op" where
  "readClientHello L =
     bindM (wrapM ''reading client hello'' (onServerRW RW_Read)) (\<lambda>b.
     bindM (wrapM ''parsing client hello'' (lift (unmarshalMsg L b))) (\<lambda>m.
       modify (\<lambda>s. s\<lparr>sh_clientHello := Some m\<rparr>)))"

text \<open>
  The check of a signature shared by \<^verbatim>\<open>validateClientHello\<close> and \<^verbatim>\<open>validateEmail\<close>: \<^verbatim>\<open>hd\<close> is the hello
  itself, so clearing its signature clears the one that is then verified.
\<close>

definition checkHelloSignature ::
    "'z mlib_scheme \<Rightarrow> PublicKey list \<Rightarrow> string \<Rightarrow> ('i ServerHandler, unit) op" where
  "checkHelloSignature L keys msg =
     andThen (modify (\<lambda>s. s\<lparr>sh_clientHello := map_option (\<lambda>m. m\<lparr>msg_Signature := []\<rparr>) (sh_clientHello s)\<rparr>))
     (inspect (\<lambda>s.
       bindM (lift (deref (sh_clientHello s))) (\<lambda>hd.
       bindM (wrapM ''rebuilding signature data'' (lift (marshalMsg L hd))) (\<lambda>b.
       bindM (lift (anyVerifies L keys b (msg_Signature hd))) (\<lambda>found.
         if found then ret () else raise (ErrNew msg))))))"

definition validateClientHello :: "'z mlib_scheme \<Rightarrow> ('i ServerHandler, unit) op" where
  "validateClientHello L = inspect (\<lambda>s.
     bindM (lift (deref (sh_clientHello s))) (\<lambda>hello.
       if msg_Body hello \<noteq> [] then raise (ErrNew ''unexpected body in client hello'')
       else if msg_Attachments hello \<noteq> [] then raise (ErrNew ''unexpected attachments in client hello'')
       else
         bindM (lift (deref (sh_idStore s))) (\<lambda>find.
         bindM (lift (firstTo hello)) (\<lambda>to0.
         bindM (wrapM ''finding matching identity'' (lift (find (pi_ID to0)))) (\<lambda>pi.
         andThen (modify (\<lambda>s. s\<lparr>sh_identity := Some pi\<rparr>))
         (bindM (lift (deref (sh_resolver s))) (\<lambda>resolve.
          bindM (lift (deref (msg_From hello))) (\<lambda>from.
          bindM (wrapM ''finding sender identity'' (lift (resolve (pi_ID from)))) (\<lambda>pk.
          bindM (lift (Matches pk from)) (\<lambda>same.
            if \<not> same then raise (ErrNew ''public identity mismatch'')
            else checkHelloSignature L (pi_PublicKeys to0) ''no matching singature found''))))))))))"

text \<open>\<open>nonce\<close> is what the random source yields, if it does.\<close>

definition serverHello :: "Message \<Rightarrow> bytes option \<Rightarrow> Message result" where
  "serverHello hello nonce =
     bindr (firstTo hello) (\<lambda>to0.
       (case nonce of
          None \<Rightarrow> Err (ErrWrap ''reading nonce'' (ErrNew ''rand''))
        | Some n \<Rightarrow> Ok (blank_Message\<lparr>msg_CreatedTime := msg_CreatedTime hello, msg_From := Some to0,
                          msg_To := Some [msg_From hello], msg_Nonce := n\<rparr>)))"

definition Server_sendHello :: "'z mlib_scheme \<Rightarrow> bytes option \<Rightarrow> ('i ServerHandler, unit) op" where
  "Server_sendHello L nonce = inspect (\<lambda>s.
     bindM (lift (bindr (deref (sh_clientHello s)) (\<lambda>hello. serverHello hello nonce))) (\<lambda>hello.
     bindM (wrapM ''signing client hello'' (lift (signMsg L (sh_identity s) hello))) (\<lambda>signed.
     bindM (wrapM ''mashalling client hello'' (lift (marshalMsg L signed))) (\<lambda>b.
       onServerRW (RW_Write b)))))"

definition validateEmail :: "'z mlib_scheme \<Rightarrow> ('i ServerHandler, unit) op" where
  "validateEmail L = inspect (\<lambda>s.
     bindM (lift (deref (sh_clientHello s))) (\<lambda>hello.
     bindM (lift (deref (sh_received s))) (\<lambda>m.
     bindM (lift (bindr (deref (msg_From hello)) (\<lambda>f. bindr (deref (msg_From m)) (Matches f)))) (\<lambda>same.
       if \<not> same then raise (ErrNew ''received sender does not match client hello'')
       else
         bindM (lift (firstTo hello)) (\<lambda>to0.
         bindM (lift (bindr (firstTo m) (Matches to0))) (\<lambda>same'.
           if \<not> same' then raise (ErrNew ''received sender does not match client hello'')
           else checkHelloSignature L (pi_PublicKeys to0) ''no matching singature found on received email''))))))"

definition readEmail :: "'z mlib_scheme \<Rightarrow> ('i ServerHandler, unit) op" where
  "readEmail L =
     bindM (onServerRW RW_Read) (\<lambda>b.
     bindM (wrapM ''parsing email'' (lift (unmarshalMsg L b))) (\<lambda>m.
     andThen (modify (\<lambda>s. s\<lparr>sh_received := Some m\<rparr>)) (validateEmail L)))"

text \<open>\<^verbatim>\<open>handle\<close>; \<open>add\<close> is \<^verbatim>\<open>AddToInbox\<close> of the store of mail.\<close>

definition deliver_mail :: "(Message \<Rightarrow> ('i, unit) op) \<Rightarrow> ('i ServerHandler, unit) op" where
  "deliver_mail add = (\<lambda>s.
     case (sh_emStore s, sh_received s) of
       (Some i, Some m) \<Rightarrow> (case add m i of (i', r) \<Rightarrow> (s\<lparr>sh_emStore := Some i'\<rparr>, r))
     | _ \<Rightarrow> (s, Panic))"

definition Server_handle ::
    "'z mlib_scheme \<Rightarrow> bytes option \<Rightarrow> (Message \<Rightarrow> ('i, unit) op) \<Rightarrow> ('i ServerHandler, unit) op" where
  "Server_handle L nonce add = inspect (\<lambda>s.
     if sh_resolver s = None then raise (ErrNew ''no identity resolver set to validate recipients'')
     else if sh_idStore s = None then raise (ErrNew ''no identity store set to receive mail'')
     else seqM [wrapM ''reading client hello'' (readClientHello L),
                wrapM ''validating client hello'' (validateClientHello L),
                wrapM ''sending server hello'' (Server_sendHello L nonce),
                wrapM ''reading email'' (readEmail L),
                deliver_mail add])"

text \<open>\<^verbatim>\<open>Handler.Handle\<close> of an incoming stream; the error is only logged.\<close>

definition Comm_Handle ::
    "'z mlib_scheme \<Rightarrow> bytes option \<Rightarrow> (Message \<Rightarrow> ('i, unit) op) \<Rightarrow> 'i option \<Rightarrow> (string \<Rightarrow> PrivateIdentity result) option
       \<Rightarrow> RW \<Rightarrow> 'i ServerHandler \<times> unit result" where
  "Comm_Handle L nonce add store idStore rw =
     logged (Server_handle L nonce add) (NewServerHandler rw store idStore)"

section \<open>The sending side\<close>

record ClientHandler =
  ch_email :: Message
  ch_identity :: "PrivateIdentity option"
  ch_recipient :: PublicIdentity
  ch_resolver :: "(string \<Rightarrow> PublicIdentity result) option"

record ClientStream =
  cs_rw :: RW
  cs_serverHello :: "Message option"

definition onClientRW :: "(RW, 'a) op \<Rightarrow> (ClientStream, 'a) op" where
  "onClientRW f = (\<lambda>s. case f (cs_rw s) of (rw, r) \<Rightarrow> (s\<lparr>cs_rw := rw\<rparr>, r))"

definition clientHello :: "ClientHandler \<Rightarrow> bytes option \<Rightarrow> Message result" where
  "clientHello ch nonce =
     (case nonce of
        None \<Rightarrow> Err (ErrWrap ''reading nonce'' (ErrNew ''rand''))
      | Some n \<Rightarrow> Ok (blank_Message\<lparr>msg_CreatedTime := msg_CreatedTime (ch_email ch), msg_From := msg_From (ch_email ch),
                        msg_To := msg_To (ch_email ch), msg_Nonce := n\<rparr>))"

definition Client_sendHello :: "'z mlib_scheme \<Rightarrow> ClientHandler \<Rightarrow> bytes option \<Rightarrow> (ClientStream, unit) op" where
  "Client_sendHello L ch nonce =
     bindM (wrapM ''creating new hello'' (lift (clientHello ch nonce))) (\<lambda>hello.
     bindM (wrapM ''signing client hello'' (lift (signMsg L (ch_identity ch) hello))) (\<lambda>signed.
     bindM (wrapM ''mashalling client hello'' (lift (marshalMsg L signed))) (\<lambda>b.
       onClientRW (RW_Write b))))"

definition readServerHello :: "'z mlib_scheme \<Rightarrow> (ClientStream, unit) op" where
  "readServerHello L =
     bindM (wrapM ''reading server hello'' (onClientRW RW_Read)) (\<lambda>b.
     bindM (wrapM ''unmarshalling server hello'' (lift (unmarshalMsg L b))) (\<lambda>m.
       modify (\<lambda>s. s\<lparr>cs_serverHello := Some m\<rparr>)))"

abbreviation helloTimeWindow :: int where "helloTimeWindow \<equiv> 5000000000"

text \<open>
  \<^verbatim>\<open>validateServerHello\<close>; \<open>now\<close> and \<open>now'\<close> are the two readings of the clock, in nanoseconds. The signature
  is cleared here as well before it is verified.
\<close>

definition validateServerHello ::
    "'z mlib_scheme \<Rightarrow> ClientHandler \<Rightarrow> int \<Rightarrow> int \<Rightarrow> (ClientStream, unit) op" where
  "validateServerHello L ch now now' = inspect (\<lambda>s.
     bindM (lift (deref (cs_serverHello s))) (\<lambda>h.
       if msg_CreatedTime h * 1000000000 < now - helloTimeWindow \<or> msg_CreatedTime h * 1000000000 > now' + helloTimeWindow
       then raise (ErrNew ''hello too old'')
       else if sum_list (map unat (msg_Nonce h)) = 0 then raise (ErrNew ''empty nonce'')
       else
         bindM (lift (firstTo h)) (\<lambda>to0.
           if pi_ID to0 = [] \<or> pi_PublicKeys to0 = [] then raise (ErrNew ''no identity provided'')
           else
             bindM (lift (deref (msg_From h))) (\<lambda>from.
               if pi_ID from \<noteq> pi_ID (ch_recipient ch) then raise (ErrNew ''unexpected recipient ID'')
               else
                 bindM (lift (Matches (ch_recipient ch) from)) (\<lambda>same.
                   if \<not> same then raise (ErrNew ''public identity mismatch'')
                   else
                     bindM (lift (deref (msg_From (ch_email ch)))) (\<lambda>me.
                       if pi_ID to0 \<noteq> pi_ID me then raise (ErrNew ''unexpected change in sender ID'')
                       else
                         bindM (lift (deref (ch_resolver ch))) (\<lambda>resolve.
                           (case resolve (pi_ID from) of
                              Ok knownId \<Rightarrow>
                                (let hd = h\<lparr>msg_Signature := []\<rparr> in
                                 andThen (modify (\<lambda>s. s\<lparr>cs_serverHello := Some hd\<rparr>))
                                 (bindM (wrapM ''rebuilding signature data'' (lift (marshalMsg L hd))) (\<lambda>b.
                                  bindM (lift (anyVerifies L (pi_PublicKeys knownId) b (msg_Signature hd))) (\<lambda>found.
                                    if found then ret () else raise (ErrNew ''no matching singature found'')))))
                            | Err _ \<Rightarrow> raise (ErrNew ''validating publickly known identity of recipient'')
                            | Panic \<Rightarrow> panic
                            | Diverge \<Rightarrow> lift Diverge))))))))"

definition handshake :: "'z mlib_scheme \<Rightarrow> ClientHandler \<Rightarrow> bytes option \<Rightarrow> int \<Rightarrow> int \<Rightarrow> (ClientStream, unit) op" where
  "handshake L ch nonce now now' =
     seqM [Client_sendHello L ch nonce, readServerHello L, validateServerHello L ch now now']"

text \<open>\<^verbatim>\<open>send\<close> writes the message to the network stream itself, past the framing.\<close>

definition Client_send :: "'z mlib_scheme \<Rightarrow> ClientHandler \<Rightarrow> (ClientStream, unit) op" where
  "Client_send L ch =
     bindM (wrapM ''marshaling email'' (lift (marshalMsg L (ch_email ch)))) (\<lambda>b.
     inspect (\<lambda>s.
       if rw_broken (cs_rw s) then raise (ErrWrap ''transmitting email'' (ErrNew ''write''))
       else modify (\<lambda>s. s\<lparr>cs_rw := (cs_rw s)\<lparr>rw_out := rw_out (cs_rw s) @ [b]\<rparr>\<rparr>)))"

definition clientRun :: "'z mlib_scheme \<Rightarrow> ClientHandler \<Rightarrow> bytes option \<Rightarrow> int \<Rightarrow> int \<Rightarrow> (ClientStream, unit) op" where
  "clientRun L ch nonce now now' = andThen (wrapM ''client handshake'' (handshake L ch nonce now now')) (Client_send L ch)"

text \<open>
  What the surroundings decide while a message is sent: the providers found, which of them can be
  connected to and opened, the nonces, the clock, the order in which goroutines end, and which of two
  ready channels the final \<^verbatim>\<open>select\<close> takes.
\<close>

record send_env =
  sd_find :: "cid \<Rightarrow> string list result"
  sd_connect :: "string \<Rightarrow> bool"
  sd_open :: "string \<Rightarrow> RW option"
  sd_ord :: "RW list \<Rightarrow> RW list"
  sd_nonce :: "bytes option"
  sd_nonces :: "nat \<Rightarrow> bytes option"
  sd_now :: int
  sd_clock :: "nat \<Rightarrow> int"
  sd_pick :: bool

definition findProviders :: "'z mlib_scheme \<Rightarrow> send_env \<Rightarrow> PublicIdentity \<Rightarrow> string list result" where
  "findProviders L e recipient =
     bindr (orErr ''multihash'' (mh_SHA3_384 L (string_bytes (pi_ID recipient)))) (\<lambda>mh.
       wrap ''finding recipient provider'' (sd_find e (cid_NewCidV1_Raw L mh)))"

definition connectEndProviders :: "'z mlib_scheme \<Rightarrow> send_env \<Rightarrow> PublicIdentity \<Rightarrow> RW list result" where
  "connectEndProviders L e recipient =
     bindr (wrap ''finding recipient provider'' (findProviders L e recipient)) (\<lambda>addrs.
       if addrs = [] then Err (ErrNew ''no recipient providers'')
       else
         (let connectedAddrs = filter (sd_connect e) addrs in
          if connectedAddrs = [] then Err (ErrNew ''no recipient provider connected'')
          else Ok (sd_ord e (concat (map (\<lambda>a. case sd_open e a of None \<Rightarrow> [] | Some s \<Rightarrow> [s]) connectedAddrs)))))"

text \<open>
  The end of \<^verbatim>\<open>handle\<close>, on the outcomes of the streams in the order they ended. The error channel holds
  one error: after a single failure of streams that all end both channels are ready and either may be
  taken; a second failure waits for the first to be taken. A panic ends the process.
\<close>

definition awaitStreams :: "bool \<Rightarrow> unit result list \<Rightarrow> unit result" where
  "awaitStreams pick rs =
     (if Panic \<in> set rs then Panic
      else (case filter (\<lambda>r. r \<noteq> Ok () \<and> r \<noteq> Diverge) rs of
              [] \<Rightarrow> if Diverge \<in> set rs then Diverge else Ok ()
            | r # errs \<Rightarrow> if errs = [] \<and> Diverge \<notin> set rs \<and> \<not> pick then Ok () else r))"

text \<open>The goroutines of the streams: each stream after its run, with the outcome.\<close>

definition clientRuns :: "'z mlib_scheme \<Rightarrow> send_env \<Rightarrow> ClientHandler \<Rightarrow> RW list \<Rightarrow> (ClientStream \<times> unit result) list" where
  "clientRuns L e ch ss =
     map (\<lambda>i. clientRun L ch (sd_nonces e i) (sd_clock e (2 * i)) (sd_clock e (2 * i + 1))
            \<lparr>cs_rw = ss ! i, cs_serverHello = None\<rparr>) [0..<length ss]"

text \<open>The streams after the run, and the outcome.\<close>

definition Client_handle :: "'z mlib_scheme \<Rightarrow> send_env \<Rightarrow> ClientHandler \<Rightarrow> ClientStream list \<times> unit result" where
  "Client_handle L e ch =
     (if ch_resolver ch = None then ([], Err (ErrNew ''no identity store set to validate recipients''))
      else if ch_identity ch = None then ([], Err (ErrNew ''no sender identity set''))
      else (case sd_nonce e of
              None \<Rightarrow> ([], Err (ErrWrap ''reading nonce'' (ErrNew ''rand'')))
            | Some n \<Rightarrow>
                (case connectEndProviders L e (ch_recipient ch) of
                   Ok ss \<Rightarrow>
                     (let runs = clientRuns L e (ch\<lparr>ch_email := (ch_email ch)\<lparr>msg_CreatedTime := sd_now e, msg_Nonce := n\<rparr>\<rparr>) ss
                      in (map fst runs, awaitStreams (sd_pick e) (map snd runs)))
                 | r \<Rightarrow> ([], fail_as r ()))))"

text \<open>
  \<^verbatim>\<open>Handler.Send\<close> with its options, all of which set the identity of the sender; no option sets the
  resolver of the configuration.
\<close>

record SendConfig =
  sc_Id :: "PrivateIdentity option"
  sc_PublicResolver :: "(string \<Rightarrow> PublicIdentity result) option"

definition NewDefaultSendConfig :: SendConfig where
  "NewDefaultSendConfig = \<lparr>sc_Id = None, sc_PublicResolver = None\<rparr>"

definition WithIdentity :: "PrivateIdentity \<Rightarrow> SendConfig \<Rightarrow> SendConfig" where
  "WithIdentity i cfg = cfg\<lparr>sc_Id := Some i\<rparr>"

definition send ::
    "'z mlib_scheme \<Rightarrow> send_env \<Rightarrow> (string \<Rightarrow> PublicIdentity result) option \<Rightarrow> Message \<Rightarrow> SendConfig
       \<Rightarrow> ClientStream list \<times> unit result" where
  "send L e resolver email cfg =
     (if sc_Id cfg = None then ([], Err (ErrNew ''sender identity missing''))
      else if msg_To email = None then ([], Err (ErrNew ''recipient identity missing''))
      else (case sc_PublicResolver cfg of
              None \<Rightarrow> ([], Err (ErrNew ''no resolver configure''))
            | Some resolve \<Rightarrow>
                (case bindr (firstTo email) (\<lambda>p. wrap ''resolving recipient'' (resolve (pi_ID p))) of
                   Ok rDID \<Rightarrow>
                     Client_handle L e \<lparr>ch_email = email, ch_identity = None, ch_recipient = rDID, ch_resolver = resolver\<rparr>
                 | r \<Rightarrow> ([], fail_as r ()))))"

definition Comm_Send ::
    "'z mlib_scheme \<Rightarrow> send_env \<Rightarrow> (string \<Rightarrow> PublicIdentity result) option \<Rightarrow> Message \<Rightarrow> PrivateIdentity list
       \<Rightarrow> ClientStream list \<times> unit result" where
  "Comm_Send L e resolver email opts = send L e resolver email (fold WithIdentity opts NewDefaultSendConfig)"

section \<open>The API\<close>

text \<open>
  \<^verbatim>\<open>commApi.Send\<close>: the errors of the recipients, whose goroutines are taken to append theirs one at a
  time. A panic of one is recovered into an error.
\<close>

definition sendTo ::
    "'z mlib_scheme \<Rightarrow> (string \<Rightarrow> send_env) \<Rightarrow> (string \<Rightarrow> PublicIdentity result) option \<Rightarrow> Message \<Rightarrow> string \<Rightarrow> error list" where
  "sendTo L env resolver tmpl to =
     (let internal = [ErrNew (''internal error sending to '' @ to)] in
      case bindr (deref resolver) (\<lambda>resolve. resolve to) of
        Ok i \<Rightarrow>
          (case snd (Comm_Send L (env to) resolver ((Message_Copy tmpl)\<lparr>msg_To := Some [Some i]\<rparr>) []) of
             Ok _ \<Rightarrow> []
           | Err e \<Rightarrow> [ErrWrap (''sending to '' @ to) e]
           | _ \<Rightarrow> internal)
      | Err e \<Rightarrow> [ErrWrap ''resolving recipient'' e]
      | _ \<Rightarrow> internal)"

definition commApi_Send ::
    "'z mlib_scheme \<Rightarrow> (string \<Rightarrow> send_env) \<Rightarrow> (string \<Rightarrow> PrivateIdentity result) \<Rightarrow> (string \<Rightarrow> PublicIdentity result) option
       \<Rightarrow> int \<Rightarrow> string \<Rightarrow> string list \<Rightarrow> (string \<times> string) list \<Rightarrow> (string \<times> bytes) list \<Rightarrow> error list result" where
  "commApi_Send L env lookup resolver now from to headers parts =
     bindr (wrap ''finding identity for sender'' (lookup from)) (\<lambda>fromsk.
     bindr (wrap ''building public from sender identity'' (PublicIdentityOf L 0 fromsk)) (\<lambda>pub.
       (let tmpl = blank_Message\<lparr>msg_From := Some pub, msg_CreatedTime := now, msg_Body := headers,
              msg_Attachments := map (\<lambda>(mime, d). \<lparr>ma_Id = [], ma_MediaType = mime, ma_Data = d\<rparr>) parts\<rparr>
        in Ok (concat (map (sendTo L env resolver tmpl) to)))))"

end
