(* ===== verification/Node_Model.thy ===== *)
theory Node_Model
  imports Config_Model Comm_Model
begin

text \<open>
  \<^verbatim>\<open>internal/node\<close>: the making of a node from its configuration and options, its network identity, the
  handlers of its streams, the advertisement of its identities and its source of randomness. The network
  and storage libraries that the node sets up are parameters: whether each can be made.
\<close>

section \<open>Surroundings\<close>

record node_env =
  ne_Stat :: "string \<Rightarrow> bool"
  ne_MkdirAll :: "string \<Rightarrow> bool"
  ne_GenerateKeyPair :: "bytes option"
  ne_MarshalPrivateKey :: "bytes \<Rightarrow> bytes option"
  ne_UnmarshalPrivateKey :: "bytes \<Rightarrow> bytes option"
  ne_IDFromPrivateKey :: "bytes \<Rightarrow> string option"
  ne_base64 :: "bytes \<Rightarrow> string"
  ne_NewMultiaddr :: "string \<Rightarrow> string option"
  ne_AddrInfo :: "string \<Rightarrow> string option"
  ne_NewConnManager :: "int \<Rightarrow> int \<Rightarrow> bool"
  ne_NewPeerstore :: bool
  ne_NewHost :: "bytes \<Rightarrow> string list \<Rightarrow> bool \<Rightarrow> bool"
  ne_NewDHT :: bool
  ne_NewGossipSub :: bool
  ne_InfoFromJSON :: bool
  ne_ResolveDnsaddr :: "string \<Rightarrow> string list option"
  ne_Connect :: "string \<Rightarrow> bool"
  ne_NewDrandClient :: "string list \<Rightarrow> bool"

definition need :: "string \<Rightarrow> bool \<Rightarrow> unit result" where
  "need m b = (if b then Ok () else Err (ErrNew m))"

section \<open>The network identity\<close>

text \<open>\<^verbatim>\<open>path.Dir\<close>: what comes before the last slash, cleaned.\<close>

definition path_Dir :: "string \<Rightarrow> string" where
  "path_Dir p = filepath_Clean (rev (dropWhile (\<lambda>c. c \<noteq> CHR ''/'') (rev p)))"

definition ReadFile :: "string \<Rightarrow> (disk, bytes) op" where
  "ReadFile path = (\<lambda>d. (d,
     if \<not> dk_openable d path then Err (ErrNew ''open'')
     else (case dk_files d path of None \<Rightarrow> Err (ErrNew ''no such file'') | Some b \<Rightarrow> Ok b)))"

definition WriteFile :: "string \<Rightarrow> bytes \<Rightarrow> (disk, unit) op" where
  "WriteFile path b = (\<lambda>d.
     if \<not> dk_openable d path then (d, Err (ErrNew ''open''))
     else (d\<lparr>dk_files := (dk_files d)(path \<mapsto> b)\<rparr>, Ok ()))"

definition generateIdentity :: "node_env \<Rightarrow> string \<Rightarrow> (disk, unit) op" where
  "generateIdentity E file =
     bindM (lift (wrap ''generating priv key'' (orErr ''rand'' (ne_GenerateKeyPair E)))) (\<lambda>priv.
     bindM (lift (wrap ''marshaling new private key'' (orErr ''marshal'' (ne_MarshalPrivateKey E priv)))) (\<lambda>b.
     andThen (lift (wrap ''making identity config path'' (need ''mkdir'' (ne_MkdirAll E (path_Dir file)))))
       (WriteFile file b)))"

definition getIdentity :: "node_env \<Rightarrow> string \<Rightarrow> (disk, bytes) op" where
  "getIdentity E file = inspect (\<lambda>d.
     andThen
       (if \<not> ne_Stat E file then raise (ErrWrap ''checking identity file'' (ErrNew ''stat''))
        else if dk_files d file = None then wrapM ''creating new identity'' (generateIdentity E file)
        else ret ())
       (bindM (wrapM ''reading identity file'' (ReadFile file)) (\<lambda>idB.
          lift (wrap ''unmarshaling private key'' (orErr ''unmarshal'' (ne_UnmarshalPrivateKey E idB))))))"

record IpfsIdentity =
  PrivKey :: string
  PeerID :: string

definition identityToIPFSConfigIdentity :: "node_env \<Rightarrow> string \<Rightarrow> (disk, IpfsIdentity) op" where
  "identityToIPFSConfigIdentity E fp =
     bindM (wrapM ''reading identity file'' (ReadFile fp)) (\<lambda>idB.
     bindM (lift (wrap ''unmarshaling private key'' (orErr ''unmarshal'' (ne_UnmarshalPrivateKey E idB)))) (\<lambda>sk.
     bindM (lift (orErr ''marshal'' (ne_MarshalPrivateKey E sk))) (\<lambda>skbytes.
     bindM (lift (orErr ''peer id'' (ne_IDFromPrivateKey E sk))) (\<lambda>i.
       ret \<lparr>PrivKey = ne_base64 E skbytes, PeerID = i\<rparr>))))"

section \<open>The network host\<close>

record p2pHost =
  ph_identity :: bytes
  ph_listen :: "string list"
  ph_connMgr :: "int \<times> int"
  ph_relay :: bool

fun buildListeningAddrs :: "node_env \<Rightarrow> string list \<Rightarrow> string list result" where
  "buildListeningAddrs E [] = Ok []"
| "buildListeningAddrs E (a # as) =
     bindr (orErr ''multiaddr'' (ne_NewMultiaddr E a)) (\<lambda>m.
     bindr (buildListeningAddrs E as) (\<lambda>ms. Ok (m # ms)))"

definition newP2PHost :: "node_env \<Rightarrow> Config \<Rightarrow> (disk, p2pHost) op" where
  "newP2PHost E cfg =
     (let p = cfg_p2p cfg in
      bindM (getIdentity E (IdentityFile p)) (\<lambda>i.
      bindM (lift (buildListeningAddrs E (ListenAddrs p))) (\<lambda>addrs.
      andThen (lift (need ''connmgr'' (ne_NewConnManager E (PeersCountLow p) (PeersCountHigh p))))
      (andThen (lift (need ''peerstore'' (ne_NewPeerstore E)))
      (andThen (lift (wrap ''creating libp2p host'' (need ''libp2p'' (ne_NewHost E i addrs (Relay p)))))
      (andThen (lift (wrap ''initing DHT'' (need ''dht'' (ne_NewDHT E))))
      (andThen (lift (wrap ''creating gossipsub router'' (need ''gossipsub'' (ne_NewGossipSub E))))
        (ret \<lparr>ph_identity = i, ph_listen = addrs, ph_connMgr = (PeersCountLow p, PeersCountHigh p),
              ph_relay = Relay p\<rparr>))))))))"

section \<open>The beacon's client\<close>

definition urls :: "string list" where
  "urls = [''https://api.drand.sh'', ''https://api2.drand.sh'', ''https://api3.drand.sh'', ''https://drand.cloudflare.com'']"

definition drandGSBootstrapPeers :: "string list" where
  "drandGSBootstrapPeers = [''/dnsaddr/api.drand.sh'', ''/dnsaddr/api2.drand.sh'', ''/dnsaddr/api3.drand.sh'']"

text \<open>
  The goroutine for one bootstrap peer over the addresses it resolves to: the peers that are tagged. An
  address without a peer and a connection that fails both end it.
\<close>

fun drandDial :: "node_env \<Rightarrow> string list \<Rightarrow> string list" where
  "drandDial E [] = []"
| "drandDial E (ma # mas) =
     (case ne_AddrInfo E ma of
        None \<Rightarrow> []
      | Some p \<Rightarrow> p # (if ne_Connect E p then drandDial E mas else []))"

text \<open>The client, with the sources it is given and the peers tagged for each bootstrap peer.\<close>

definition newDrandClient :: "node_env \<Rightarrow> bool \<Rightarrow> string list list result" where
  "newDrandClient E raw =
     bindr (wrap ''reading chain info'' (need ''json'' (ne_InfoFromJSON E))) (\<lambda>_.
     let tagged = (if raw then []
                   else map (\<lambda>p. case ne_ResolveDnsaddr E p of None \<Rightarrow> [] | Some mas \<Rightarrow> drandDial E mas) drandGSBootstrapPeers) in
     bindr (wrap ''constructing drand client'' (need ''drand'' (ne_NewDrandClient E (if raw then urls else [])))) (\<lambda>_.
       Ok tagged))"

section \<open>The node\<close>

text \<open>
  The handlers of the two protocols: that of identities, which carries the consensus, and that of
  messages. Nothing in the sources sets the resolver.
\<close>

record 's HostNode =
  n_cfg :: Config
  n_p2p :: "p2pHost option"
  n_storage :: "'s option"
  n_identityResolver :: "(string \<Rightarrow> PublicIdentity result) option"
  n_idStore :: "FileStore option"
  n_did :: "'s Consensus option"
  n_comm :: bool
  n_drand :: bool

datatype 's NodeOption = WithStorage 's | WithDefaultOptions | WithIdentityStore FileStore

text \<open>An option; \<open>ipfs\<close> is \<^verbatim>\<open>NewIPFSStorage\<close>.\<close>

fun applyOption ::
    "node_env \<Rightarrow> (IpfsIdentity \<Rightarrow> string \<Rightarrow> 's result) \<Rightarrow> 's NodeOption \<Rightarrow> 's HostNode \<Rightarrow> (disk, 's HostNode) op" where
  "applyOption E ipfs (WithStorage s) n = ret (n\<lparr>n_storage := Some s\<rparr>)"
| "applyOption E ipfs (WithIdentityStore fs) n = ret (n\<lparr>n_idStore := Some fs\<rparr>)"
| "applyOption E ipfs WithDefaultOptions n =
     bindM (wrapM ''converting ident from config'' (identityToIPFSConfigIdentity E (IdentityFile (cfg_p2p (n_cfg n))))) (\<lambda>ident.
     bindM (lift (wrap ''initing storage'' (ipfs ident (IpfsRepo (cfg_p2p (n_cfg n)))))) (\<lambda>s.
       ret (n\<lparr>n_storage := Some s\<rparr>)))"

fun applyOptions ::
    "node_env \<Rightarrow> (IpfsIdentity \<Rightarrow> string \<Rightarrow> 's result) \<Rightarrow> 's NodeOption list \<Rightarrow> 's HostNode \<Rightarrow> (disk, 's HostNode) op" where
  "applyOptions E ipfs [] n = ret n"
| "applyOptions E ipfs (opt # opts) n = bindM (applyOption E ipfs opt n) (applyOptions E ipfs opts)"

text \<open>
  \<^verbatim>\<open>newDidStreamHandler\<close>; without a chain there is no handler and nothing is registered. A chain needs a
  store: its interface is nil when no option set one.
\<close>

definition newDidStreamHandler ::
    "'z nlib_scheme \<Rightarrow> 's Store \<Rightarrow> env \<Rightarrow> peer_ID \<Rightarrow> int \<Rightarrow> 's HostNode \<Rightarrow> 's Consensus option result" where
  "newDidStreamHandler L S e i now n =
     (let ch = cfg_chain (n_cfg n) in
      if g_ChainID (Genesis ch) = [] then Ok None
      else (case n_storage n of
              None \<Rightarrow> Panic
            | Some s \<Rightarrow> NewHandler L S e i s now (Genesis ch) (Key ch)))"

definition setupStreamHandlers ::
    "'z nlib_scheme \<Rightarrow> 's Store \<Rightarrow> env \<Rightarrow> peer_ID \<Rightarrow> int \<Rightarrow> 's HostNode \<Rightarrow> 's HostNode result" where
  "setupStreamHandlers L S e i now n =
     bindr (newDidStreamHandler L S e i now n) (\<lambda>did.
       Ok (n\<lparr>n_did := (case did of None \<Rightarrow> n_did n | Some c \<Rightarrow> Some c), n_comm := True\<rparr>))"

text \<open>The loop of \<^verbatim>\<open>bootstrap\<close>; a peer that cannot be connected to is only logged.\<close>

fun bootstrap :: "node_env \<Rightarrow> string list \<Rightarrow> unit result" where
  "bootstrap E [] = Ok ()"
| "bootstrap E (a # as) =
     bindr (wrap ''parsing bootstrap multiaddr'' (orErr ''multiaddr'' (ne_NewMultiaddr E a))) (\<lambda>ma.
     bindr (wrap ''constructing bootstrap peer addr info'' (orErr ''addr info'' (ne_AddrInfo E ma))) (\<lambda>_.
       bootstrap E as))"

definition blankNode :: "Config \<Rightarrow> 's HostNode" where
  "blankNode cfg =
     \<lparr>n_cfg = cfg, n_p2p = None, n_storage = None, n_identityResolver = None, n_idStore = None,
      n_did = None, n_comm = False, n_drand = False\<rparr>"

definition openIdStore :: "'y idlib_scheme \<Rightarrow> 's HostNode \<Rightarrow> (disk, 's HostNode) op" where
  "openIdStore M n =
     (if cfg_IdentityStore (n_cfg n) = [] then ret n
      else bindM (wrapM ''loading identity store'' (NewFileStore M (cfg_IdentityStore (n_cfg n)))) (\<lambda>fs.
             ret (n\<lparr>n_idStore := Some fs\<rparr>)))"

definition NewNode ::
    "'z nlib_scheme \<Rightarrow> 'y idlib_scheme \<Rightarrow> 's Store \<Rightarrow> env \<Rightarrow> node_env \<Rightarrow> (IpfsIdentity \<Rightarrow> string \<Rightarrow> 's result)
       \<Rightarrow> viper \<Rightarrow> string option \<Rightarrow> peer_ID \<Rightarrow> int \<Rightarrow> 's NodeOption list \<Rightarrow> (disk, 's HostNode) op" where
  "NewNode L M S e E ipfs V home i now opts =
     bindM (lift (GetConfig L V home)) (\<lambda>cfg.
     bindM (openIdStore M (blankNode cfg)) (\<lambda>n1.
     bindM (applyOptions E ipfs opts n1) (\<lambda>n2.
     bindM (newP2PHost E cfg) (\<lambda>h.
     andThen (lift (wrap ''constructing randomness source'' (newDrandClient E (cfg_RawRandomSource cfg))))
     (bindM (lift (wrap ''attaching stream handlers''
                (setupStreamHandlers L S e i now (n2\<lparr>n_p2p := Some h, n_drand := True\<rparr>)))) (\<lambda>n3.
      andThen (lift (wrap ''bootstrapping p2p'' (bootstrap E (BootstrapPeers (cfg_p2p cfg)))))
        (ret n3)))))))"

section \<open>Advertising identities\<close>

text \<open>The identifier under which an identity is provided, and what one round of advertising provides.\<close>

definition provideIdentity :: "'y mlib_scheme \<Rightarrow> PrivateIdentity \<Rightarrow> cid result" where
  "provideIdentity M i =
     bindr (PublicIdentityOf M 0 i) (\<lambda>pid.
     bindr (orErr ''multihash'' (mh_FromB58String M (pi_ID pid))) (\<lambda>mh.
       Ok (cid_NewCidV1_Raw M mh)))"

definition advertisableIdentities ::
    "((string \<times> PrivateIdentity) list \<Rightarrow> (string \<times> PrivateIdentity) list) \<Rightarrow> 's HostNode \<Rightarrow> PrivateIdentity list result" where
  "advertisableIdentities ord n = (case n_idStore n of None \<Rightarrow> Panic | Some fs \<Rightarrow> Ok (FileStore_List ord fs))"

definition doAdvertise ::
    "'y mlib_scheme \<Rightarrow> ((string \<times> PrivateIdentity) list \<Rightarrow> (string \<times> PrivateIdentity) list) \<Rightarrow> 's HostNode \<Rightarrow> cid list result" where
  "doAdvertise M ord n =
     bindr (advertisableIdentities ord n) (\<lambda>ids.
       if Panic \<in> set (map (provideIdentity M) ids) then Panic
       else Ok (concat (map (\<lambda>i. case provideIdentity M i of Ok c \<Rightarrow> [c] | _ \<Rightarrow> []) ids)))"

section \<open>Randomness\<close>

text \<open>\<^verbatim>\<open>binary.BigEndian.Uint64\<close>; fewer than eight bytes are out of range.\<close>

definition BigEndian_Uint64 :: "bytes \<Rightarrow> uint64 result" where
  "BigEndian_Uint64 b =
     (if length b < 8 then Panic else Ok (foldl (\<lambda>v x. 256 * v + ucast x) 0 (take 8 b)))"

abbreviation nthTick :: uint64 where "nthTick \<equiv> 10"

text \<open>
  The loop of \<^verbatim>\<open>RandomSource\<close> over the beacons: each with its round, its randomness, and whether a reader
  waits on the channel when it comes. The values that are sent.
\<close>

fun RandomSource :: "(uint64 \<times> bytes \<times> bool) list \<Rightarrow> uint64 list result" where
  "RandomSource [] = Ok []"
| "RandomSource ((round, randomness, reader) # ticks) =
     (if round mod nthTick \<noteq> 0 then RandomSource ticks
      else
        bindr (BigEndian_Uint64 randomness) (\<lambda>v.
        bindr (RandomSource ticks) (\<lambda>vs. Ok (if reader then v # vs else vs))))"

end
