(* ===== verification/IPFS_Repo.thy ===== *)
theory IPFS_Repo
  imports Node_Model IPFS_Model
begin

text \<open>
  The opening of the store of \<^verbatim>\<open>internal/storage/ipfs.go\<close>: the plugins, which are set up once in a process,
  the repository of the IPFS node, the database beside it, and the dialling of the bootstrap peers. The
  calls into IPFS and Pebble are parameters.
\<close>

section \<open>Surroundings\<close>

record ('d, 'n) ipfs_env =
  ie_NewPluginLoader :: "string \<Rightarrow> bool"
  ie_Initialize :: bool
  ie_Inject :: bool
  ie_StatFails :: "string \<Rightarrow> bool"
  ie_Mkdir :: "string \<Rightarrow> bool"
  ie_InitWithIdentity :: "IpfsIdentity \<Rightarrow> bool"
  ie_fsrepo_Init :: "IpfsIdentity \<Rightarrow> string \<Rightarrow> bool"
  ie_fsrepo_Open :: "string \<Rightarrow> bool"
  ie_NewCoreNode :: "string \<Rightarrow> 'n option"
  ie_NewCoreAPI :: "'n \<Rightarrow> bool"
  ie_pebble_Open :: "string \<Rightarrow> 'd option"
  ie_Multiaddr :: "string \<Rightarrow> string option"
  ie_AddrInfoFromP2pAddr :: "string \<Rightarrow> (peer_ID \<times> string list) option"

text \<open>
  What a process holds: whether \<^verbatim>\<open>ipfsSetup\<close> was done, the directories that exist, and the repositories
  whose nodes run.
\<close>

record ipfs_proc =
  ip_setup :: bool
  ip_dirs :: "string list"
  ip_running :: "string list"

section \<open>Opening\<close>

definition setupPlugins :: "('d, 'n) ipfs_env \<Rightarrow> string \<Rightarrow> unit result" where
  "setupPlugins E externalPluginsPath =
     bindr (wrap ''error loading plugins'' (need ''loader'' (ie_NewPluginLoader E (filepath_Join externalPluginsPath ''plugins'')))) (\<lambda>_.
     bindr (wrap ''error initializing plugins'' (need ''initialize'' (ie_Initialize E))) (\<lambda>_.
       wrap ''error initializing plugins'' (need ''inject'' (ie_Inject E))))"

text \<open>A directory whose \<^verbatim>\<open>Stat\<close> fails in another way than by its absence is taken to exist.\<close>

definition createRepo :: "('d, 'n) ipfs_env \<Rightarrow> IpfsIdentity \<Rightarrow> string \<Rightarrow> (ipfs_proc, unit) op" where
  "createRepo E ident path0 =
     (let path = (if path0 \<noteq> [] \<and> last path0 = CHR ''/'' then path0 else path0 @ ''/'') in
      inspect (\<lambda>s.
        andThen
          (whenM (path \<notin> set (ip_dirs s) \<and> \<not> ie_StatFails E path)
            (andThen (lift (wrap ''creating repo dir'' (need ''mkdir'' (ie_Mkdir E path))))
              (modify (\<lambda>s. s\<lparr>ip_dirs := path # ip_dirs s\<rparr>))))
          (andThen (lift (wrap ''creating default config'' (need ''config'' (ie_InitWithIdentity E ident))))
            (lift (wrap ''failed to init p2p config'' (need ''fsrepo'' (ie_fsrepo_Init E ident path)))))))"

definition newIpfsCfg :: "('d, 'n) ipfs_env \<Rightarrow> string \<Rightarrow> string result" where
  "newIpfsCfg E path = bindr (wrap ''opening ipfs repo'' (need ''fsrepo'' (ie_fsrepo_Open E path))) (\<lambda>_. Ok path)"

text \<open>\<^verbatim>\<open>ipfsSetup.Do\<close>: the error is that of the call that runs the function, and nil in every other call.\<close>

definition setupOnce :: "('d, 'n) ipfs_env \<Rightarrow> (ipfs_proc, unit) op" where
  "setupOnce E = (\<lambda>s. if ip_setup s then (s, Ok ()) else (s\<lparr>ip_setup := True\<rparr>, setupPlugins E []))"

definition ipfsStore :: "('d, 'n) ipfs_env \<Rightarrow> IpfsIdentity \<Rightarrow> string \<Rightarrow> (ipfs_proc, 'n) op" where
  "ipfsStore E ident repo =
     andThen (setupOnce E)
     (andThen (wrapM ''checking/creating ipfs repo'' (createRepo E ident repo))
     (bindM (lift (wrap ''creating ipfs config from repo'' (newIpfsCfg E repo))) (\<lambda>cfg.
      bindM (lift (orErr ''ipfs node'' (ie_NewCoreNode E cfg))) (\<lambda>node.
      andThen (modify (\<lambda>s. s\<lparr>ip_running := repo # ip_running s\<rparr>))
      (andThen (lift (need ''core api'' (ie_NewCoreAPI E node)))
        (ret node))))))"

definition metadataStore :: "('d, 'n) ipfs_env \<Rightarrow> string \<Rightarrow> 'd result" where
  "metadataStore E repo = orErr ''pebble'' (ie_pebble_Open E repo)"

definition NewIPFSStorage ::
    "('d, 'n) ipfs_env \<Rightarrow> IpfsIdentity \<Rightarrow> string \<Rightarrow> (ipfs_proc, ('d, 'b, 'n) IPFSStorage) op" where
  "NewIPFSStorage E ident repo =
     bindM (wrapM ''opening ipfs block store'' (ipfsStore E ident (filepath_Join repo ''ipfs''))) (\<lambda>ipfs.
     bindM (lift (wrap ''opening metadata store'' (metadataStore E (filepath_Join repo ''metadata'')))) (\<lambda>m.
       ret \<lparr>is_ipfsNode = ipfs, is_metadata = m, is_pfTipApply = None\<rparr>))"

section \<open>Dialling\<close>

text \<open>The addresses of \<^verbatim>\<open>connectToPeers\<close>, collected by peer.\<close>

fun collectPeers ::
    "('d, 'n) ipfs_env \<Rightarrow> string list \<Rightarrow> (peer_ID \<times> string list) list \<Rightarrow> (peer_ID \<times> string list) list result" where
  "collectPeers E [] peerInfos = Ok peerInfos"
| "collectPeers E (a # peers) peerInfos =
     bindr (orErr ''multiaddr'' (ie_Multiaddr E a)) (\<lambda>addr.
     bindr (orErr ''addr info'' (ie_AddrInfoFromP2pAddr E addr)) (\<lambda>(i, addrs).
       collectPeers E peers
         (alist_put i ((case map_of peerInfos i of None \<Rightarrow> [] | Some as \<Rightarrow> as) @ addrs) peerInfos)))"

text \<open>
  The peers that are dialled, in the order \<open>ord\<close> of the map; whether a connection is made is only logged.
\<close>

definition connectToPeers ::
    "((peer_ID \<times> string list) list \<Rightarrow> (peer_ID \<times> string list) list) \<Rightarrow> ('d, 'n) ipfs_env \<Rightarrow> string list
       \<Rightarrow> (peer_ID \<times> string list) list result" where
  "connectToPeers ord E peers = bindr (collectPeers E peers []) (\<lambda>infos. Ok (ord infos))"

section \<open>Laws\<close>

text \<open>The address information of each of the addresses, when all of them can be read.\<close>

fun peerAddrs :: "('d, 'n) ipfs_env \<Rightarrow> string list \<Rightarrow> (peer_ID \<times> string list) list option" where
  "peerAddrs E [] = Some []"
| "peerAddrs E (a # peers) =
     Option.bind (Option.bind (ie_Multiaddr E a) (ie_AddrInfoFromP2pAddr E)) (\<lambda>x.
     Option.bind (peerAddrs E peers) (\<lambda>xs. Some (x # xs)))"

definition addrsOf :: "peer_ID \<Rightarrow> (peer_ID \<times> string list) list \<Rightarrow> string list" where
  "addrsOf i xs = concat (map snd (filter (\<lambda>x. fst x = i) xs))"

lemma addrsOf_simps [simp]:
  "addrsOf i [] = []"
  "addrsOf i (x # xs) = (if fst x = i then snd x else []) @ addrsOf i xs"
  by (simp_all add: addrsOf_def)

lemma collectPeers_spec:
  "collectPeers E peers infos = Ok g \<Longrightarrow> \<exists>xs. peerAddrs E peers = Some xs
     \<and> (\<forall>i. map_of g i = (if i \<in> fst ` (set infos \<union> set xs)
          then Some ((case map_of infos i of None \<Rightarrow> [] | Some as \<Rightarrow> as) @ addrsOf i xs) else None))
     \<and> (alist_ok infos \<longrightarrow> alist_ok g)"
proof (induction E peers infos rule: collectPeers.induct)
  case (1 E infos)
  then show ?case by (auto simp: map_of_eq_None_iff split: option.splits dest: map_of_SomeD)
next
  case (2 E a peers infos)
  obtain m i0 as0 where a: "ie_Multiaddr E a = Some m" "ie_AddrInfoFromP2pAddr E m = Some (i0, as0)"
    using 2(2) by (auto simp: bindr_Ok orErr_def split: option.splits)
  let ?infos = "alist_put i0 ((case map_of infos i0 of None \<Rightarrow> [] | Some as \<Rightarrow> as) @ as0) infos"
  have "collectPeers E peers ?infos = Ok g" using 2(2) a by (simp add: orErr_def)
  from 2(1) [OF this] obtain xs where xs: "peerAddrs E peers = Some xs"
    "\<forall>i. map_of g i = (if i \<in> fst ` (set ?infos \<union> set xs)
          then Some ((case map_of ?infos i of None \<Rightarrow> [] | Some as \<Rightarrow> as) @ addrsOf i xs) else None)"
    "alist_ok ?infos \<longrightarrow> alist_ok g"
    by (elim exE conjE)
  have "map_of g i = (if i \<in> fst ` (set infos \<union> set ((i0, as0) # xs))
          then Some ((case map_of infos i of None \<Rightarrow> [] | Some as \<Rightarrow> as) @ addrsOf i ((i0, as0) # xs)) else None)" for i
    using xs(2) by (cases "i = i0") (simp_all add: image_Un)
  then show ?case using a xs(1,3) by auto
qed

lemma collectPeers_total: "peerAddrs E peers = Some xs \<Longrightarrow> \<exists>g. collectPeers E peers infos = Ok g"
proof (induction peers arbitrary: infos xs)
  case (Cons a peers)
  then show ?case by (auto simp: orErr_def bind_eq_Some_conv)
qed simp

lemma NewIPFSStorage_ran:
  assumes "NewIPFSStorage E ident repo s = (s', Ok st)"
  shows "ie_NewCoreNode E (filepath_Join repo ''ipfs'') = Some (is_ipfsNode st)
    \<and> ie_pebble_Open E (filepath_Join repo ''metadata'') = Some (is_metadata st) \<and> is_pfTipApply st = None
    \<and> ip_setup s' \<and> ip_running s' = filepath_Join repo ''ipfs'' # ip_running s"
  using assms
  by (auto simp: NewIPFSStorage_def ipfsStore_def metadataStore_def setupOnce_def createRepo_def newIpfsCfg_def Let_def
      bindM_def wrapM_def andThen_def inspect_def modify_def lift_def ret_def whenM_def orErr_def bindr_Ok wrap_Ok
      split: prod.splits result.splits option.splits if_splits)

end
