(* ===== verification/Genesis_Model.thy ===== *)
theory Genesis_Model
  imports Config_Model Identity_Model
begin

text \<open>
  \<^verbatim>\<open>scripts/gengen/gen.go\<close>: the program that makes the genesis of a test network and the signing keys of its
  nodes. The generated keys, the clock and the nonce are arguments. Every error panics.
\<close>

section \<open>Identities\<close>

fun must :: "'a result \<Rightarrow> 'a result" where
  "must (Err e) = Panic"
| "must r = r"

record gen_identity =
  gi_blsSk :: bytes
  gi_blsPKMB :: string
  gi_pID :: string

text \<open>\<open>k\<close> numbers the identities; \<open>keys\<close> are the private keys that are generated.\<close>

fun genIdentities :: "'y idlib_scheme \<Rightarrow> (nat \<Rightarrow> bytes) \<Rightarrow> nat \<Rightarrow> string list \<Rightarrow> gen_identity list result" where
  "genIdentities M keys k [] = Ok []"
| "genIdentities M keys k (i # idents) =
     bindr (must (PublicIdentityOf M k (Bls12381G2Identity (keys k)))) (\<lambda>pk.
     bindr (must (EncodeMultibase M (hd (pi_PublicKeys pk)))) (\<lambda>pkmb.
     bindr (genIdentities M keys (k + 1) idents) (\<lambda>rest.
       Ok (\<lparr>gi_blsSk = keys k, gi_blsPKMB = pkmb, gi_pID = i\<rparr> # rest))))"

section \<open>Transactions\<close>

definition gen_document :: "gen_identity \<Rightarrow> Document" where
  "gen_document i =
     \<lparr>doc_Context = [], doc_ID = ''did:didem:'' @ gi_pID i, doc_AlsoKnownAs = [], doc_Controller = [],
      doc_VerificationMethod = [],
      doc_Authentication = [\<lparr>vm_ID = ''did:didem:'' @ gi_pID i, vm_Type = ''Bls12381G2Key2020'', vm_Controller = [],
                              vm_PublicKeyJwk = None, vm_PublicKeyMultibase = gi_blsPKMB i\<rparr>],
      doc_AssertionMethod = [], doc_KeyAgreement = [], doc_CapabilityInvocation = [], doc_CapabilityDelegation = [],
      doc_Service = []\<rparr>"

definition gen_didTx :: "int \<Rightarrow> gen_identity \<Rightarrow> Tx" where
  "gen_didTx now i =
     \<lparr>tx_Version = Version1, tx_Ts = now, tx_From = gi_pID i, tx_Type = TxType_DID, tx_Action = TxActionAdd,
      tx_Data = DataDID \<lparr>did_Document = Some (gen_document i)\<rparr>, tx_Signature = []\<rparr>"

definition gen_nodeTx :: "int \<Rightarrow> gen_identity \<Rightarrow> Tx" where
  "gen_nodeTx now i =
     \<lparr>tx_Version = Version1, tx_Ts = now, tx_From = gi_pID i, tx_Type = TxType_Node, tx_Action = TxActionAdd,
      tx_Data = DataNode \<lparr>node_Id = gi_pID i, node_Did = ''did:didem:'' @ gi_pID i, node_Key = string_bytes (gi_blsPKMB i)\<rparr>,
      tx_Signature = []\<rparr>"

fun genTxs :: "(nat \<Rightarrow> int) \<Rightarrow> nat \<Rightarrow> gen_identity list \<Rightarrow> Tx list" where
  "genTxs clock k [] = []"
| "genTxs clock k (i # is) = gen_didTx (clock k) i # gen_nodeTx (clock (k + 1)) i # genTxs clock (k + 2) is"

text \<open>
  The loop that signs each transaction, all with the key of the first identity, and stores it: the
  signed transactions and their identifiers.
\<close>

fun signTxs :: "'z clib_scheme \<Rightarrow> 's Store \<Rightarrow> bytes \<Rightarrow> Tx list \<Rightarrow> ('s, (Tx \<times> cid) list) op" where
  "signTxs L S sk [] = ret []"
| "signTxs L S sk (t # ts) =
     bindM (lift (must (Tx_Marshal L t))) (\<lambda>msg.
     bindM (lift (must (proto (bls_Sign L sk msg)))) (\<lambda>sig.
     (let t' = t\<lparr>tx_Signature := sig\<rparr> in
      bindM (\<lambda>s. case PutTx S s t' of (s', r) \<Rightarrow> (s', must r)) (\<lambda>c.
      bindM (signTxs L S sk ts) (\<lambda>rest. ret ((t', c) # rest))))))"

section \<open>The genesis\<close>

definition genesis ::
    "'z nlib_scheme \<Rightarrow> 's Store \<Rightarrow> (nat \<Rightarrow> int) \<Rightarrow> int \<Rightarrow> bytes option \<Rightarrow> gen_identity list \<Rightarrow> ('s, GenesisInfo) op" where
  "genesis L S clock now nonce identities =
     (let sk = gi_blsSk (hd identities) in
      bindM (signTxs L S sk (genTxs clock 0 identities)) (\<lambda>txs.
      bindM (\<lambda>s. case NewBlock L S now nonce s (cid_Undef L) (map snd txs) of (s', r) \<Rightarrow> (s', must r)) (\<lambda>b.
      bindM (lift (must (proto (mp_enc_block L b)))) (\<lambda>blMsg.
      bindM (lift (must (proto (bls_Sign L sk blMsg)))) (\<lambda>sig.
        ret \<lparr>g_ChainID = ''testnet'', g_Block = b\<lparr>b_Signature := sig\<rparr>, g_Txs = map fst txs\<rparr>)))))"

text \<open>The keys that are printed, each with the identifier of its node.\<close>

fun printKeys :: "'y idlib_scheme \<Rightarrow> gen_identity list \<Rightarrow> (string \<times> string) list result" where
  "printKeys M [] = Ok []"
| "printKeys M (i # is) =
     bindr (must (proto (mb_Encode_Base58BTC M (gi_blsSk i)))) (\<lambda>skbmb.
     bindr (printKeys M is) (\<lambda>rest. Ok ((skbmb, gi_pID i) # rest)))"

text \<open>The whole program: the text of the genesis and the keys.\<close>

definition gengen ::
    "'z nlib_scheme \<Rightarrow> 'y idlib_scheme \<Rightarrow> 's Store \<Rightarrow> (nat \<Rightarrow> bytes) \<Rightarrow> (nat \<Rightarrow> int) \<Rightarrow> int \<Rightarrow> bytes option \<Rightarrow> string
       \<Rightarrow> ('s, string \<times> (string \<times> string) list) op" where
  "gengen L M S keys clock now nonce p2pIdents =
     (let idents = splitOn (CHR '','') p2pIdents in
      if idents = [] then panic
      else
        bindM (lift (genIdentities M keys 0 idents)) (\<lambda>identities.
        bindM (genesis L S clock now nonce identities) (\<lambda>config.
        bindM (lift (must (proto (mp_enc_genesis L config)))) (\<lambda>b.
        bindM (lift (must (proto (mb_Encode_Base58BTC M b)))) (\<lambda>b64.
        bindM (lift (printKeys M identities)) (\<lambda>sks.
          ret (b64, sks)))))))"

section \<open>Laws\<close>

lemma must_Ok [simp]: "must r = Ok a \<longleftrightarrow> r = Ok a"
  by (cases r) simp_all

lemma genTxs_typed: "t \<in> set (genTxs clock k is) \<Longrightarrow> tx_typed t"
  by (induction clock k "is" rule: genTxs.induct) (auto simp: gen_didTx_def gen_nodeTx_def)

lemma genTxs_nodes:
  "t \<in> set (genTxs clock k is) \<Longrightarrow> tx_Data t = DataNode nd \<Longrightarrow>
   \<exists>i\<in>set is. node_Id nd = gi_pID i \<and> node_Key nd = string_bytes (gi_blsPKMB i)"
  by (induction clock k "is" rule: genTxs.induct) (auto simp: gen_didTx_def gen_nodeTx_def)

text \<open>The text of each key is that of the public key of its private key.\<close>

lemma genIdentities_keys:
  "genIdentities M keys k idents = Ok is \<Longrightarrow>
   map gi_pID is = idents \<and> (\<forall>i\<in>set is. mb_Encode_Base58BTC M (bls_Public M (gi_blsSk i)) = Some (gi_blsPKMB i))"
proof (induction M keys k idents arbitrary: "is" rule: genIdentities.induct)
  case (2 M keys k i idents)
  then show ?case
    by (fastforce simp: bindr_Ok identityOf_def EncodeMultibase_def Let_def split: option.splits)
qed simp

end
