(* ===== verification/Comm_Laws.thy ===== *)
theory Comm_Laws
  imports Comm_Model
begin

text \<open>
  Operations that never succeed, the signature checks of the handshake among them, and what the two
  sides of a stream leave behind: nothing delivered, and at most a hello written.
\<close>

section \<open>Operations that never succeed\<close>

definition neverOk :: "('s, 'a) op \<Rightarrow> bool" where
  "neverOk m \<longleftrightarrow> (\<forall>s a. snd (m s) \<noteq> Ok a)"

named_theorems never_intros \<open>rules that an operation never succeeds\<close>

lemma neverOk_raise [never_intros]: "neverOk (raise e)"
  by (simp add: neverOk_def raise_def)

lemma neverOk_panic [never_intros]: "neverOk panic"
  by (simp add: neverOk_def panic_def)

lemma neverOk_Diverge [never_intros]: "neverOk (lift Diverge)"
  by (simp add: neverOk_def lift_def)

lemma neverOk_bindM [never_intros]: "(\<And>a. neverOk (f a)) \<Longrightarrow> neverOk (bindM m f)"
  by (auto simp: neverOk_def bindM_def split: prod.splits result.splits)

lemma bindM_fail:
  assumes "neverOk m"
  shows "bindM m f s = (fst (m s), snd (bindM m f s)) \<and> snd (bindM m f s) \<noteq> Ok a"
  using assms unfolding neverOk_def
  by (cases "m s"; cases "snd (m s)") (auto simp: bindM_def dest: spec [of _ s])

lemma neverOk_bindM1: "neverOk m \<Longrightarrow> neverOk (bindM m f)"
  using bindM_fail by (fastforce simp: neverOk_def [of "bindM m f"])

lemma neverOk_andThen [never_intros]: "neverOk n \<Longrightarrow> neverOk (andThen m n)"
  by (simp add: andThen_def neverOk_bindM)

lemma neverOk_andThen1: "neverOk m \<Longrightarrow> neverOk (andThen m n)"
  by (simp add: andThen_def neverOk_bindM1)

lemma neverOk_wrapM [never_intros]: "neverOk m \<Longrightarrow> neverOk (wrapM msg m)"
  by (auto simp: neverOk_def wrapM_def case_prod_beta wrap_Ok)

lemma neverOk_inspect [never_intros]: "(\<And>s. neverOk (f s)) \<Longrightarrow> neverOk (inspect f)"
  by (simp add: neverOk_def inspect_def)

lemma neverOk_if [never_intros]: "neverOk m \<Longrightarrow> neverOk n \<Longrightarrow> neverOk (if b then m else n)"
  by simp

lemma neverOk_result [never_intros]:
  "(\<And>a. neverOk (f a)) \<Longrightarrow> (\<And>e. neverOk (g e)) \<Longrightarrow> neverOk p \<Longrightarrow> neverOk q \<Longrightarrow>
   neverOk (case r of Ok a \<Rightarrow> f a | Err e \<Rightarrow> g e | Panic \<Rightarrow> p | Diverge \<Rightarrow> q)"
  by (cases r) simp_all

text \<open>What follows such an operation does not run.\<close>

lemma andThen_neverOk:
  assumes "neverOk m"
  shows "fst (andThen m n s) = fst (m s)"
  using bindM_fail [OF assms, of "\<lambda>_. n" s] by (metis andThen_def fst_conv)

lemma keepsM_andThen_neverOk: "neverOk m \<Longrightarrow> keepsM P m \<Longrightarrow> keepsM P (andThen m n)"
  by (simp add: keepsM_def andThen_neverOk)

lemma keepsM_result:
  "(\<And>a. keepsM P (f a)) \<Longrightarrow> (\<And>e. keepsM P (g e)) \<Longrightarrow> keepsM P p \<Longrightarrow> keepsM P q \<Longrightarrow>
   keepsM P (case r of Ok a \<Rightarrow> f a | Err e \<Rightarrow> g e | Panic \<Rightarrow> p | Diverge \<Rightarrow> q)"
  by (cases r) simp_all

section \<open>Signatures\<close>

text \<open>No signature scheme accepts an empty signature.\<close>

definition no_empty_signature :: "'z mlib_scheme \<Rightarrow> bool" where
  "no_empty_signature L \<longleftrightarrow>
     (\<forall>k b. \<not> ed25519_Verify L k b []) \<and> (\<forall>k h. \<not> ecdsa_VerifyASN1 L k h [])"

lemma anyVerifies_empty:
  assumes "no_empty_signature L"
  shows "anyVerifies L ks b [] \<noteq> Ok True"
proof (induction ks)
  case (Cons k ks)
  have "verify L k b [] \<noteq> Ok u" for u
    using assms by (cases k) (auto simp: verify_def no_empty_signature_def)
  then show ?case using Cons by (auto split: result.splits)
qed simp

text \<open>A search among keys that must find one, with the signature cleared.\<close>

lemma neverOk_search:
  assumes "no_empty_signature L"
  shows "neverOk (bindM (lift (anyVerifies L ks b [])) (\<lambda>found. if found then ret () else raise e))"
  using anyVerifies_empty [OF assms, of ks b]
  by (auto simp: neverOk_def bindM_def lift_def ret_def raise_def split: result.splits)

lemma signature_cleared: "msg_Signature (m\<lparr>msg_Signature := []\<rparr>) = []"
  by simp

lemma bind_modify: "bindM (modify f) g s = g () (f s)"
  by (simp add: bindM_def modify_def)

lemma bind_lift: "bindM (lift (Ok a)) g = g a"
  by (simp add: bindM_def lift_def)

lemma checkHelloSignature_never:
  assumes "no_empty_signature L"
  shows "neverOk (checkHelloSignature L keys msg)"
  unfolding neverOk_def
proof (intro allI)
  fix s u
  show "snd (checkHelloSignature L keys msg s) \<noteq> Ok u"
  proof (cases "sh_clientHello s")
    case None
    then show ?thesis
      by (simp add: checkHelloSignature_def andThen_def bindM_def modify_def inspect_def lift_def deref_def)
  next
    case (Some m)
    have "snd (bindM (wrapM ''rebuilding signature data'' (lift (marshalMsg L (m\<lparr>msg_Signature := []\<rparr>)))) (\<lambda>b.
       bindM (lift (anyVerifies L keys b [])) (\<lambda>found. if found then ret () else raise (ErrNew msg)))
       (s\<lparr>sh_clientHello := Some (m\<lparr>msg_Signature := []\<rparr>)\<rparr>)) \<noteq> Ok u"
      using neverOk_bindM [OF neverOk_search [OF assms]] by (fastforce simp: neverOk_def)
    then show ?thesis using Some
      by (simp add: checkHelloSignature_def andThen_def bind_modify bind_lift inspect_def deref_def)
  qed
qed

lemma validateClientHello_never:
  assumes "no_empty_signature L"
  shows "neverOk (validateClientHello L)"
  unfolding validateClientHello_def by (intro never_intros checkHelloSignature_never assms)

lemma validateServerHello_never:
  assumes "no_empty_signature L"
  shows "neverOk (validateServerHello L ch now now')"
  unfolding validateServerHello_def Let_def signature_cleared
  by (rule neverOk_search [OF assms] | rule never_intros)+

lemma handshake_never:
  assumes "no_empty_signature L"
  shows "neverOk (handshake L ch nonce now now')"
  unfolding handshake_def seqM.simps
  by (intro neverOk_andThen neverOk_andThen1 [of "validateServerHello L ch now now'"] validateServerHello_never assms)

section \<open>The receiving side delivers nothing\<close>

lemma emStore_onServerRW [keeps_intros]: "keepsM (\<lambda>s. sh_emStore s = i) (onServerRW f)"
  by (simp add: keepsM_def onServerRW_def case_prod_beta)

lemma emStore_modify [keeps_intros]:
  "keepsM (\<lambda>s. sh_emStore s = i) (modify (\<lambda>s. s\<lparr>sh_clientHello := f s\<rparr>))"
  "keepsM (\<lambda>s. sh_emStore s = i) (modify (\<lambda>s. s\<lparr>sh_identity := g s\<rparr>))"
  "keepsM (\<lambda>s. sh_emStore s = i) (modify (\<lambda>s. s\<lparr>sh_received := h s\<rparr>))"
  by (simp_all add: keepsM_def modify_def)

lemma Server_handle_nothing:
  assumes "no_empty_signature L"
  shows "neverOk (Server_handle L nonce add)" and "keepsM (\<lambda>s. sh_emStore s = i) (Server_handle L nonce add)"
proof -
  note val = neverOk_wrapM [OF validateClientHello_never [OF assms], of "''validating client hello''"]
  show "neverOk (Server_handle L nonce add)"
    unfolding Server_handle_def seqM.simps
    by (intro neverOk_inspect neverOk_if neverOk_raise neverOk_andThen [OF neverOk_andThen1 [OF val]])
  have "keepsM (\<lambda>s. sh_emStore s = i) (readClientHello L)"
    unfolding readClientHello_def by (intro keeps_intros)
  moreover have "keepsM (\<lambda>s. sh_emStore s = i) (validateClientHello L)"
    unfolding validateClientHello_def checkHelloSignature_def by (intro keeps_intros)
  ultimately show "keepsM (\<lambda>s. sh_emStore s = i) (Server_handle L nonce add)"
    unfolding Server_handle_def seqM.simps
    by (intro keepsM_inspect keepsM_if keepsM_raise keepsM_andThen [OF keepsM_wrapM]
        keepsM_andThen_neverOk [OF val] keepsM_wrapM)
qed

section \<open>The identity a server answers with\<close>

lemma identity_modify [keeps_intros]:
  "keepsM (\<lambda>s. sh_identity s = i) (modify (\<lambda>s. s\<lparr>sh_clientHello := f s\<rparr>))"
  by (simp add: keepsM_def modify_def)

lemma identity_checkHelloSignature [keeps_intros]: "keepsM (\<lambda>s. sh_identity s = i) (checkHelloSignature L keys msg)"
  unfolding checkHelloSignature_def by (intro keeps_intros)

lemma bind_lift_state: "bindM (lift r) f s = (s', q) \<Longrightarrow> s' = s \<or> (\<exists>a. r = Ok a \<and> f a s = (s', q))"
  by (cases r) (auto simp: bindM_def lift_def)

lemma wrapM_lift: "wrapM msg (lift r) = lift (wrap msg r)"
  by (simp add: wrapM_def lift_def fun_eq_iff)

text \<open>The one step of the validation that sets the identity sets what the store has for the recipient.\<close>

lemma validateClientHello_identity:
  assumes "sh_idStore s = Some lookup" and "sh_identity s = None" and "sh_clientHello s = Some hello"
    and "validateClientHello L s = (s', r)" and "sh_identity s' = Some p"
  shows "\<exists>to0. firstTo hello = Ok to0 \<and> lookup (pi_ID to0) = Ok p"
proof -
  let ?tail = "\<lambda>keys. bindM (lift (deref (sh_resolver s))) (\<lambda>resolve.
          bindM (lift (deref (msg_From hello))) (\<lambda>from.
          bindM (wrapM ''finding sender identity'' (lift (resolve (pi_ID from)))) (\<lambda>pk.
          bindM (lift (Matches pk from)) (\<lambda>same.
            if \<not> same then raise (ErrNew ''public identity mismatch'')
            else checkHelloSignature L keys ''no matching singature found''))))"
  have tail: "keepsM (\<lambda>s. sh_identity s = i) (?tail keys)" for keys i by (intro keeps_intros)
  have run: "bindM (lift (firstTo hello)) (\<lambda>to0.
         bindM (wrapM ''finding matching identity'' (lift (lookup (pi_ID to0)))) (\<lambda>pi.
         andThen (modify (\<lambda>s. s\<lparr>sh_identity := Some pi\<rparr>)) (?tail (pi_PublicKeys to0)))) s = (s', r)"
    using assms(2,4,5) unfolding validateClientHello_def inspect_def assms(1,3) deref_def option.case bind_lift raise_def
    by (simp split: if_splits)
  have "s' \<noteq> s" using assms(2,5) by auto
  then obtain to0 q where q: "firstTo hello = Ok to0" "lookup (pi_ID to0) = Ok q"
    and "andThen (modify (\<lambda>s. s\<lparr>sh_identity := Some q\<rparr>)) (?tail (pi_PublicKeys to0)) s = (s', r)"
    using run unfolding wrapM_lift by (auto simp: wrap_Ok dest!: bind_lift_state)
  then have t: "?tail (pi_PublicKeys to0) (s\<lparr>sh_identity := Some q\<rparr>) = (s', r)"
    by (simp only: andThen_def bind_modify)
  have "sh_identity s' = Some q"
    using keepsM_D [OF tail [of "Some q" "pi_PublicKeys to0"], of "s\<lparr>sh_identity := Some q\<rparr>"]
    unfolding t by simp
  then show ?thesis using q assms(5) by simp
qed

text \<open>Users of an identity store that messages are sent from and received for.\<close>

locale mail_store = identity_store M lookup listed good
  for M :: "'z mlib_scheme" and lookup :: "'s \<Rightarrow> string \<Rightarrow> PrivateIdentity result"
    and listed :: "'s \<Rightarrow> PrivateIdentity set" and good :: "'s \<Rightarrow> bool"
begin

lemma server_identity:
  assumes "good st" and "sh_idStore s = Some (lookup st)" and "sh_identity s = None" and "sh_clientHello s = Some hello"
    and "validateClientHello M s = (s', r)" and "sh_identity s' = Some p"
  shows "\<exists>to0 pid. firstTo hello = Ok to0 \<and> PublicIdentityOf M 0 p = Ok pid \<and> pi_ID pid = pi_ID to0"
  using validateClientHello_identity [OF assms(2-6)] lookup_id [OF assms(1)] by blast

lemma api_sender:
  assumes "good st" and "lookup st i = Ok p"
  shows "\<exists>pub. pi_ID pub = i \<and> commApi_Send M env (lookup st) resolver now i to headers parts =
    Ok (concat (map (sendTo M env resolver (blank_Message\<lparr>msg_From := Some pub, msg_CreatedTime := now, msg_Body := headers,
              msg_Attachments := map (\<lambda>(mime, d). \<lparr>ma_Id = [], ma_MediaType = mime, ma_Data = d\<rparr>) parts\<rparr>)) to))"
  using lookup_id [OF assms] assms(2) by (auto simp: commApi_Send_def Let_def simp del: PublicIdentityOf.simps)

end

interpretation mailfile: mail_store M FileStore_Find "\<lambda>fs. snd ` set (fs_idx fs)" "store_good M" for M :: "'z mlib_scheme"
  by (rule mail_store.intro) (rule filestore.identity_store_axioms)

section \<open>The sending side writes at most a hello\<close>

text \<open>What a stream that had written \<open>out\<close> may have written after the run.\<close>

definition hello_only :: "'z mlib_scheme \<Rightarrow> bytes list \<Rightarrow> ClientStream \<Rightarrow> bool" where
  "hello_only L out s \<longleftrightarrow> rw_out (cs_rw s) = out
     \<or> (\<exists>m b. msg_Body m = [] \<and> msg_Attachments m = [] \<and> mp_enc_message L m = Some b
          \<and> rw_out (cs_rw s) = out @ segments b)"

lemma RW_Read_out: "rw_out (fst (RW_Read c)) = rw_out c"
proof -
  have "keepsM (\<lambda>c'. rw_out c' = rw_out c) (RW_Fill n)" for n
    by (simp add: keepsM_def RW_Fill_def case_prod_beta)
  moreover have "keepsM (\<lambda>c'. rw_out c' = rw_out c) (modify (\<lambda>c. c\<lparr>rw_arr := f c\<rparr>))" for f
    by (simp add: keepsM_def modify_def)
  ultimately have "keepsM (\<lambda>c'. rw_out c' = rw_out c) RW_Read"
    unfolding RW_Read_def by (intro keeps_intros)
  then show ?thesis by (auto dest: keepsM_D)
qed

lemma RW_Write_out: "rw_out (fst (RW_Write b c)) = rw_out c \<or> rw_out (fst (RW_Write b c)) = rw_out c @ segments b"
  using RW_Write_segments [of c b] by (cases "rw_broken c") (auto simp: RW_Write_def Let_def split: prod.splits)

lemma hello_only_read: "keepsM (hello_only L out) (readServerHello L)"
proof -
  have "keepsM (hello_only L out) (onClientRW RW_Read)"
    by (simp add: keepsM_def onClientRW_def hello_only_def case_prod_beta RW_Read_out)
  moreover have "keepsM (hello_only L out) (modify (\<lambda>s. s\<lparr>cs_serverHello := f s\<rparr>))" for f
    by (simp add: keepsM_def modify_def hello_only_def)
  ultimately show ?thesis unfolding readServerHello_def by (intro keeps_intros)
qed

lemma hello_only_validate: "keepsM (hello_only L out) (validateServerHello L ch now now')"
proof -
  have "keepsM (hello_only L out) (modify (\<lambda>s. s\<lparr>cs_serverHello := f s\<rparr>))" for f
    by (simp add: keepsM_def modify_def hello_only_def)
  then show ?thesis
    unfolding validateServerHello_def Let_def by (intro keeps_intros keepsM_result)
qed

lemma signMsg_parts:
  "signMsg L i e = Ok m \<Longrightarrow> msg_Body m = msg_Body e \<and> msg_Attachments m = msg_Attachments e"
  by (auto simp: signMsg_def bindr_Ok)

lemma hello_only_sendHello:
  assumes "rw_out (cs_rw s) = out"
  shows "hello_only L out (fst (Client_sendHello L ch nonce s))"
proof (cases "\<exists>hello m b. clientHello ch nonce = Ok hello \<and> signMsg L (ch_identity ch) hello = Ok m \<and> marshalMsg L m = Ok b")
  case True
  then obtain hello m b where h: "clientHello ch nonce = Ok hello" "signMsg L (ch_identity ch) hello = Ok m"
    "marshalMsg L m = Ok b" by blast
  have "msg_Body hello = [] \<and> msg_Attachments hello = []"
    using h(1) by (auto simp: clientHello_def blank_Message_def split: option.splits)
  with signMsg_parts [OF h(2)] have "msg_Body m = []" "msg_Attachments m = []" by simp_all
  moreover have "mp_enc_message L m = Some b" using h(3) by (auto simp: marshalMsg_def orErr_def split: option.splits)
  ultimately show ?thesis
    using h assms RW_Write_out [of b "cs_rw s"]
    by (auto simp: Client_sendHello_def bindM_def wrapM_def lift_def onClientRW_def hello_only_def split: prod.splits)
next
  case False
  then have "fst (Client_sendHello L ch nonce s) = s"
    by (cases "clientHello ch nonce";
        cases "signMsg L (ch_identity ch) (case clientHello ch nonce of Ok h \<Rightarrow> h | _ \<Rightarrow> blank_Message)";
        cases "marshalMsg L (case signMsg L (ch_identity ch) (case clientHello ch nonce of Ok h \<Rightarrow> h | _ \<Rightarrow> blank_Message) of Ok m \<Rightarrow> m | _ \<Rightarrow> blank_Message)")
       (auto simp: Client_sendHello_def bindM_def wrapM_def lift_def)
  then show ?thesis using assms by (simp add: hello_only_def)
qed

lemma clientRun_hello_only:
  assumes "no_empty_signature L" and "rw_out (cs_rw s) = out"
  shows "hello_only L out (fst (clientRun L ch nonce now now' s))" and "snd (clientRun L ch nonce now now' s) \<noteq> Ok ()"
proof -
  note never = neverOk_wrapM [OF handshake_never [OF assms(1)], of "''client handshake''"]
  show "snd (clientRun L ch nonce now now' s) \<noteq> Ok ()"
    using neverOk_andThen1 [OF never, of ch nonce now now' "Client_send L ch"] by (simp add: clientRun_def neverOk_def)
  have "hello_only L out (fst (handshake L ch nonce now now' s))"
    unfolding handshake_def seqM.simps
    by (intro andThen_post [where P = "hello_only L out"] hello_only_sendHello assms(2) keepsM_andThen keepsM_ret
        hello_only_read hello_only_validate)
  then show "hello_only L out (fst (clientRun L ch nonce now now' s))"
    by (simp add: clientRun_def andThen_neverOk [OF never]) (simp add: wrapM_def case_prod_beta)
qed

lemma clientRuns_hello_only:
  assumes "no_empty_signature L" and "\<And>rw. rw \<in> set rws \<Longrightarrow> rw_out rw = []"
  shows "\<forall>(s, r)\<in>set (clientRuns L e ch rws). hello_only L [] s \<and> r \<noteq> Ok ()"
proof
  fix sr assume "sr \<in> set (clientRuns L e ch rws)"
  then obtain i where i: "i < length rws" "sr = clientRun L ch (sd_nonces e i) (sd_clock e (2 * i)) (sd_clock e (2 * i + 1))
      \<lparr>cs_rw = rws ! i, cs_serverHello = None\<rparr>"
    by (auto simp: clientRuns_def)
  then have "rw_out (cs_rw \<lparr>cs_rw = rws ! i, cs_serverHello = None\<rparr>) = []" using assms(2) by simp
  from clientRun_hello_only [OF assms(1) this] i(2) show "case sr of (s, r) \<Rightarrow> hello_only L [] s \<and> r \<noteq> Ok ()"
    by (simp add: case_prod_beta)
qed

text \<open>Two failures are never both missed.\<close>

lemma awaitStreams_Ok:
  assumes "awaitStreams pick rs = Ok ()" and "\<forall>r\<in>set rs. r \<noteq> Ok ()"
  shows "length rs \<le> 1"
proof -
  let ?errs = "filter (\<lambda>r. r \<noteq> Ok () \<and> r \<noteq> Diverge) rs"
  have "length ?errs \<le> 1 \<and> Diverge \<notin> set rs"
    using assms(1) by (auto simp: awaitStreams_def filter_eq_Cons_iff split: if_splits list.splits)
  moreover from this have "?errs = rs" using assms(2) by (auto simp: filter_id_conv)
  ultimately show ?thesis by simp
qed

end
