(* ===== verification/Node_Laws.thy ===== *)
theory Node_Laws
  imports Node_Model Comm_Laws
begin

text \<open>
  Laws of the node's operations: what a run that succeeds went through, what the making of a node leaves
  of the disk, and the arithmetic of the randomness source.
\<close>

section \<open>Runs that succeed\<close>

named_theorems ran_simps \<open>rules that take apart an operation that returned a value\<close>

lemma bindM_ran [ran_simps]: "bindM m f s = (s', Ok b) \<longleftrightarrow> (\<exists>s1 a. m s = (s1, Ok a) \<and> f a s1 = (s', Ok b))"
  by (auto simp: bindM_def split: prod.splits result.splits)

lemma andThen_ran [ran_simps]: "andThen m n s = (s', Ok b) \<longleftrightarrow> (\<exists>s1 a. m s = (s1, Ok a) \<and> n s1 = (s', Ok b))"
  by (simp add: andThen_def bindM_ran)

lemma wrapM_ran [ran_simps]: "wrapM msg m s = (s', Ok b) \<longleftrightarrow> m s = (s', Ok b)"
  by (cases "m s") (simp add: wrapM_def wrap_Ok)

lemma ret_ran [ran_simps]: "ret a s = (s', Ok b) \<longleftrightarrow> s' = s \<and> a = b"
  by (auto simp: ret_def)

lemma lift_ran [ran_simps]: "lift r s = (s', Ok b) \<longleftrightarrow> s' = s \<and> r = Ok b"
  by (auto simp: lift_def)

lemma raise_ran [ran_simps]: "raise e s = (s', Ok b) \<longleftrightarrow> False"
  by (simp add: raise_def)

section \<open>The disk\<close>

lemma ReadFile_keeps [keeps_intros]: "keepsM P (ReadFile path)"
  by (simp add: keepsM_def ReadFile_def)

lemma applyOption_keeps [keeps_intros]: "keepsM P (applyOption E ipfs opt n)"
  by (cases opt) (auto simp: identityToIPFSConfigIdentity_def intro!: keeps_intros)

lemma applyOptions_keeps [keeps_intros]: "keepsM P (applyOptions E ipfs opts n)"
  by (induction opts arbitrary: n) (auto intro!: keeps_intros)

lemma OpenFile_keeps: "keepsM (\<lambda>d. path \<noteq> f \<longrightarrow> dk_files d f = None) (OpenFile path)"
  by (auto simp: keepsM_def OpenFile_def split: option.splits)

lemma openIdStore_keeps: "keepsM (\<lambda>d. cfg_IdentityStore (n_cfg n) \<noteq> f \<longrightarrow> dk_files d f = None) (openIdStore M n)"
  unfolding openIdStore_def NewFileStore_def FileStore_read_def
  by (auto intro!: keeps_intros OpenFile_keeps split: prod.splits)

section \<open>What options leave of a node\<close>

definition unset :: "'s HostNode \<Rightarrow> 's HostNode \<Rightarrow> bool" where
  "unset n n' \<longleftrightarrow> n_cfg n' = n_cfg n \<and> n_identityResolver n' = n_identityResolver n \<and> n_did n' = n_did n"

lemma applyOption_unset: "applyOption E ipfs opt n d = (d', Ok n') \<Longrightarrow> unset n n'"
  by (cases opt) (auto simp: ran_simps unset_def)

lemma applyOptions_unset: "applyOptions E ipfs opts n d = (d', Ok n') \<Longrightarrow> unset n n'"
proof (induction opts arbitrary: n d)
  case (Cons opt opts)
  then obtain n1 d1 where "applyOption E ipfs opt n d = (d1, Ok n1)" "applyOptions E ipfs opts n1 d1 = (d', Ok n')"
    by (auto simp: ran_simps)
  with Cons(1) [of n1 d1] show ?case by (auto simp: unset_def dest!: applyOption_unset)
qed (simp add: ran_simps unset_def)

text \<open>The default options read the identity file, which they do not make.\<close>

lemma default_needs_file:
  assumes "dk_files d (IdentityFile (cfg_p2p (n_cfg n))) = None" and "WithDefaultOptions \<in> set opts"
  shows "applyOptions E ipfs opts n d \<noteq> (d', Ok n')"
  using assms
proof (induction opts arbitrary: n)
  case (Cons opt opts)
  show ?case
  proof
    assume "applyOptions E ipfs (opt # opts) n d = (d', Ok n')"
    then obtain n1 d1 where run: "applyOption E ipfs opt n d = (d1, Ok n1)" "applyOptions E ipfs opts n1 d1 = (d', Ok n')"
      by (auto simp: ran_simps)
    have "opt \<noteq> WithDefaultOptions"
      using run(1) Cons(2) by (auto simp: ran_simps identityToIPFSConfigIdentity_def ReadFile_def split: if_splits)
    moreover from this have "d1 = d" using run(1) by (cases opt) (auto simp: ran_simps)
    ultimately show False
      using Cons run applyOption_unset [OF run(1)] by (auto simp: unset_def)
  qed
qed simp

lemma openIdStore_unset: "openIdStore M n d = (d', Ok n') \<Longrightarrow> unset n n'"
  by (auto simp: openIdStore_def ran_simps unset_def split: if_splits)

text \<open>The default options set up the storage with the identity in the file; the host of the network has its key.\<close>

lemma default_options_ran:
  assumes "applyOptions E ipfs [WithDefaultOptions] n d = (d', Ok n')"
  shows "\<exists>b k kb p st. d' = d \<and> dk_openable d (IdentityFile (cfg_p2p (n_cfg n)))
    \<and> dk_files d (IdentityFile (cfg_p2p (n_cfg n))) = Some b \<and> ne_UnmarshalPrivateKey E b = Some k
    \<and> ne_MarshalPrivateKey E k = Some kb \<and> ne_IDFromPrivateKey E k = Some p
    \<and> ipfs \<lparr>PrivKey = ne_base64 E kb, PeerID = p\<rparr> (IpfsRepo (cfg_p2p (n_cfg n))) = Ok st \<and> n' = n\<lparr>n_storage := Some st\<rparr>"
  using assms
  by (auto simp: ran_simps identityToIPFSConfigIdentity_def ReadFile_def wrap_Ok orErr_def split: if_splits option.splits)

lemma newP2PHost_key:
  assumes "newP2PHost E cfg d = (d', Ok h)" and "dk_files d (IdentityFile (cfg_p2p cfg)) = Some b" and "ne_UnmarshalPrivateKey E b = Some k"
  shows "ph_identity h = k \<and> d' = d"
  using assms
  by (auto simp: newP2PHost_def Let_def ran_simps getIdentity_def inspect_def ReadFile_def wrap_Ok orErr_def
      split: if_splits option.splits)

text \<open>What the making of a node went through when it succeeded.\<close>

lemma NewNode_steps:
  assumes "NewNode L M S e E ipfs V home i now opts d = (d', Ok n)"
  obtains cfg n1 d1 n2 d2 h where "GetConfig L V home = Ok cfg" and "openIdStore M (blankNode cfg) d = (d1, Ok n1)"
    and "applyOptions E ipfs opts n1 d1 = (d2, Ok n2)" and "newP2PHost E cfg d2 = (d', Ok h)"
    and "setupStreamHandlers L S e i now (n2\<lparr>n_p2p := Some h, n_drand := True\<rparr>) = Ok n"
  using assms by (auto simp: NewNode_def ran_simps wrap_Ok)

lemma NewNode_ran:
  assumes "NewNode L M S e E ipfs V home i now opts d = (d', Ok n)"
  shows "\<exists>cfg n2 h did. GetConfig L V home = Ok cfg \<and> unset (blankNode cfg) n2
    \<and> newDidStreamHandler L S e i now (n2\<lparr>n_p2p := Some h, n_drand := True\<rparr>) = Ok did
    \<and> ph_connMgr h = (PeersCountLow (cfg_p2p cfg), PeersCountHigh (cfg_p2p cfg))
    \<and> n = n2\<lparr>n_p2p := Some h, n_drand := True, n_did := did, n_comm := True\<rparr>"
proof -
  obtain cfg n1 d1 n2 d2 h where run: "GetConfig L V home = Ok cfg" "openIdStore M (blankNode cfg) d = (d1, Ok n1)"
    "applyOptions E ipfs opts n1 d1 = (d2, Ok n2)" "newP2PHost E cfg d2 = (d', Ok h)"
    and hs: "setupStreamHandlers L S e i now (n2\<lparr>n_p2p := Some h, n_drand := True\<rparr>) = Ok n"
    by (rule NewNode_steps [OF assms])
  have fresh: "unset (blankNode cfg) n2"
    using openIdStore_unset [OF run(2)] applyOptions_unset [OF run(3)] by (simp add: unset_def)
  obtain did where did: "newDidStreamHandler L S e i now (n2\<lparr>n_p2p := Some h, n_drand := True\<rparr>) = Ok did"
    and n: "n = n2\<lparr>n_p2p := Some h, n_drand := True,
              n_did := (case did of None \<Rightarrow> n_did (n2\<lparr>n_p2p := Some h, n_drand := True\<rparr>) | Some c \<Rightarrow> Some c), n_comm := True\<rparr>"
    using hs by (auto simp: setupStreamHandlers_def bindr_Ok)
  have "ph_connMgr h = (PeersCountLow (cfg_p2p cfg), PeersCountHigh (cfg_p2p cfg))"
    using run(4) by (auto simp: newP2PHost_def Let_def ran_simps)
  moreover have "n_did n2 = None" using fresh by (simp add: unset_def blankNode_def)
  ultimately show ?thesis
    using run(1) fresh did n by (intro exI [of _ cfg] exI [of _ n2] exI [of _ h] exI [of _ did] conjI) (cases did, simp_all)+
qed

section \<open>The network identity\<close>

lemma getIdentity_existing:
  assumes "ne_Stat E f" and "dk_openable d f" and "dk_files d f = Some b" and "ne_UnmarshalPrivateKey E b = Some k"
  shows "getIdentity E f d = (d, Ok k)"
  using assms by (simp add: getIdentity_def inspect_def andThen_def bindM_def ret_def wrapM_def ReadFile_def lift_def orErr_def)

lemma getIdentity_new:
  assumes "ne_Stat E f" and "dk_openable d f" and "dk_files d f = None" and "ne_GenerateKeyPair E = Some k"
    and "ne_MarshalPrivateKey E k = Some b" and "ne_UnmarshalPrivateKey E b = Some k" and "ne_MkdirAll E (path_Dir f)"
  shows "getIdentity E f d = (d\<lparr>dk_files := (dk_files d)(f \<mapsto> b)\<rparr>, Ok k)"
  using assms
  by (simp add: getIdentity_def generateIdentity_def WriteFile_def inspect_def andThen_def bindM_def ret_def wrapM_def
      ReadFile_def lift_def orErr_def need_def)

section \<open>Advertising\<close>

context mail_store
begin

lemma provide_found:
  assumes "good s" and "lookup s i = Ok p"
  shows "provideIdentity M p = bindr (orErr ''multihash'' (mh_FromB58String M i)) (\<lambda>mh. Ok (cid_NewCidV1_Raw M mh))"
  using lookup_id [OF assms] by (auto simp: provideIdentity_def simp del: PublicIdentityOf.simps)

lemma provide_listed:
  assumes "good s"
  shows "(\<exists>p\<in>listed s. provideIdentity M p = Ok c)
    \<longleftrightarrow> (\<exists>i p m. lookup s i = Ok p \<and> mh_FromB58String M i = Some m \<and> c = cid_NewCidV1_Raw M m)"
proof -
  have "provideIdentity M p = Ok c \<longleftrightarrow> (\<exists>m. mh_FromB58String M i = Some m \<and> c = cid_NewCidV1_Raw M m)"
    if "lookup s i = Ok p" for i p
    unfolding provide_found [OF assms that] by (auto simp: bindr_Ok orErr_def split: option.splits)
  then show ?thesis using listed_lookup [OF assms] by blast
qed

lemma provide_no_panic:
  assumes "good s" and "p \<in> listed s"
  shows "provideIdentity M p \<noteq> Panic"
proof -
  obtain i where "lookup s i = Ok p" using listed_lookup assms by blast
  from provide_found [OF assms(1) this] show ?thesis by (simp add: orErr_def split: option.splits)
qed

end

text \<open>What one round of advertising provides, for any order in which the index is ranged over.\<close>

lemma doAdvertise_provides:
  assumes "store_good M fs" and "n_idStore n = Some fs" and "\<And>xs. set (ord xs) = set xs"
  shows "\<exists>cs. doAdvertise M ord n = Ok cs \<and> set cs = {c. \<exists>p\<in>snd ` set (fs_idx fs). provideIdentity M p = Ok c}"
proof -
  let ?cs = "concat (map (\<lambda>i. case provideIdentity M i of Ok c \<Rightarrow> [c] | _ \<Rightarrow> []) (FileStore_List ord fs))"
  have ids: "set (FileStore_List ord fs) = snd ` set (fs_idx fs)" by (simp add: FileStore_List_def assms(3))
  have "Panic \<notin> provideIdentity M ` set (FileStore_List ord fs)"
    unfolding ids using mailfile.provide_no_panic [OF assms(1)] by (metis imageE)
  then have "doAdvertise M ord n = Ok ?cs" using assms(2) by (simp add: doAdvertise_def advertisableIdentities_def)
  moreover have "c \<in> set (case r of Ok c \<Rightarrow> [c] | _ \<Rightarrow> []) \<longleftrightarrow> r = Ok c" for c and r :: "cid result"
    by (cases r) auto
  then have "set ?cs = {c. \<exists>p\<in>snd ` set (fs_idx fs). provideIdentity M p = Ok c}"
    unfolding set_concat set_map ids image_image by blast
  ultimately show ?thesis by blast
qed

section \<open>Randomness\<close>

text \<open>Peers are dialled in order up to the first that does not answer.\<close>

lemma drandDial_answers:
  "drandDial E mas = ps \<Longrightarrow> \<forall>p\<in>set (butlast ps). ne_Connect E p"
proof (induction mas arbitrary: ps)
  case (Cons ma mas)
  then show ?case by (auto split: option.splits if_splits)
qed simp

definition isTick :: "uint64 \<times> bytes \<times> bool \<Rightarrow> bool" where
  "isTick t \<longleftrightarrow> fst t mod nthTick = 0"

lemma RandomSource_Cons:
  "RandomSource (t # ticks) =
     (if \<not> isTick t then RandomSource ticks
      else bindr (BigEndian_Uint64 (fst (snd t))) (\<lambda>v. bindr (RandomSource ticks) (\<lambda>vs. Ok (if snd (snd t) then v # vs else vs))))"
  by (cases t) (simp add: isTick_def)

lemma RandomSource_length: "RandomSource ticks = Ok vs \<Longrightarrow> length vs \<le> length (filter isTick ticks)"
proof (induction ticks arbitrary: vs)
  case (Cons t ticks)
  then show ?case by (fastforce simp: RandomSource_Cons bindr_Ok simp del: RandomSource.simps split: if_splits)
qed simp

text \<open>With a reader waiting each time nothing is lost.\<close>

lemma RandomSource_all:
  "RandomSource ticks = Ok vs \<Longrightarrow> \<forall>t\<in>set ticks. snd (snd t) \<Longrightarrow> length vs = length (filter isTick ticks)"
proof (induction ticks arbitrary: vs)
  case (Cons t ticks)
  then show ?case by (fastforce simp: RandomSource_Cons bindr_Ok simp del: RandomSource.simps split: if_splits)
qed simp

lemma RandomSource_total: "\<forall>t\<in>set ticks. 8 \<le> length (fst (snd t)) \<Longrightarrow> \<exists>vs. RandomSource ticks = Ok vs"
proof (induction ticks)
  case (Cons t ticks)
  then obtain vs where "RandomSource ticks = Ok vs" by auto
  then show ?case using Cons(2) by (simp add: RandomSource_Cons BigEndian_Uint64_def del: RandomSource.simps)
qed simp

text \<open>Of consecutive rounds every tenth is a tick.\<close>

lemma div_tick: "(n + 10) div 10 = (n + 9) div 10 + (if n mod 10 = 0 then 1 else 0)" for n :: nat
proof -
  obtain q m where n: "n = 10 * q + m" "m < 10" using mult_div_mod_eq [of 10 n] mod_less_divisor [of 10 n] by (metis zero_less_numeral)
  then have "m = 0 \<or> (\<exists>m'. m = m' + 1 \<and> m' < 9)" by (cases m) auto
  then show ?thesis
  proof (elim disjE exE conjE)
    assume "m = 0"
    then show ?thesis using n(1) by simp
  next
    fix m' assume m': "m = m' + 1" "m' < 9"
    then have "n + 9 = m' + 10 * (q + 1)" "n mod 10 \<noteq> 0" using n by auto
    then have "(n + 9) div 10 = q + 1" using m'(2) by simp
    then show ?thesis using n \<open>n mod 10 \<noteq> 0\<close> by simp
  qed
qed

lemma div_ticks: "(r + k + 9) div 10 - (r + 9) div 10 \<le> (k + 9) div 10" for r k :: nat
proof -
  have "r + k + 9 = 10 * ((r + 9) div 10) + ((r + 9) mod 10 + k)" by simp
  then have "(r + k + 9) div 10 = (r + 9) div 10 + ((r + 9) mod 10 + k) div 10" by (metis div_mult_self4 zero_neq_numeral)
  moreover have "((r + 9) mod 10 + k) div 10 \<le> (k + 9) div 10"
    using mod_less_divisor [of 10 "r + 9"] by (intro div_le_mono) simp
  ultimately show ?thesis by simp
qed

lemma ticks_upto:
  fixes r :: nat
  shows "length (filter (\<lambda>i. (r + i) mod 10 = 0) [0..<k]) = (r + k + 9) div 10 - (r + 9) div 10"
proof (induction k)
  case (Suc k)
  have "(r + Suc k + 9) div 10 = (r + k + 9) div 10 + (if (r + k) mod 10 = 0 then 1 else 0)"
    using div_tick [of "r + k"] by simp
  moreover have "(r + 9) div 10 \<le> (r + k + 9) div 10" by (simp add: div_le_mono)
  moreover have "length (filter (\<lambda>i. (r + i) mod 10 = 0) [0..<Suc k])
      = length (filter (\<lambda>i. (r + i) mod 10 = 0) [0..<k]) + (if (r + k) mod 10 = 0 then 1 else 0)"
    by (simp only: upt_Suc_append filter_append length_append) simp
  ultimately show ?case using Suc by linarith
qed simp

lemma word_tick:
  assumes "n < 2 ^ 64"
  shows "(of_nat n :: uint64) mod nthTick = 0 \<longleftrightarrow> n mod 10 = 0"
proof -
  have "unat ((of_nat n :: uint64) mod nthTick) = n mod 10" using assms by (simp add: unat_mod unat_of_nat)
  then show ?thesis by (simp only: unat_eq_zero [symmetric])
qed

lemma ticks_count:
  assumes "map fst ticks = map (\<lambda>i. of_nat (r + i)) [0..<k]" and "r + k \<le> 2 ^ 64"
  shows "length (filter isTick ticks) = (r + k + 9) div 10 - (r + 9) div 10"
proof -
  have "length (filter isTick ticks) = length (filter (\<lambda>w. w mod nthTick = 0) (map fst ticks))"
    by (simp add: filter_map comp_def isTick_def [abs_def])
  also have "\<dots> = length (filter (\<lambda>i. (of_nat (r + i) :: uint64) mod nthTick = 0) [0..<k])"
    unfolding assms(1) by (simp only: filter_map comp_def length_map)
  also have "filter (\<lambda>i. (of_nat (r + i) :: uint64) mod nthTick = 0) [0..<k] = filter (\<lambda>i. (r + i) mod 10 = 0) [0..<k]"
    using assms(2) by (intro filter_cong refl word_tick) auto
  finally show ?thesis by (simp only: ticks_upto)
qed

end
