(* ===== verification/Comm_Props.thy ===== *)
theory Comm_Props
  imports Comm_Laws Demo_Lib
begin

text \<open>
  Properties of identities and their store, and of the messages between them: what a store holds and
  what is found in it, and what becomes of a message that is sent or received.
\<close>

section \<open>An example\<close>

text \<open>Identifiers are the content, keys are encoded as text, and a file holds its entries one after the other.\<close>

definition mdemo :: "Message list \<Rightarrow> mlib" where
  "mdemo msgs = idlib.extend (lib.extend (lib.truncate (demo [] [] [])) (idlib.fields
       (\<lambda>b. Some (bytes_string (18 # b))) (\<lambda>b. Some (CHR ''z'' # bytes_string b)) (\<lambda>b. Some (CHR ''z'' # bytes_string b)) (\<lambda>b. b)
       (\<lambda>ids. Some (enc_strs (concat (map (\<lambda>i. [ifs_Type i, ifs_Data i]) ids))))
       (\<lambda>b. case dec_strs b of
              Some (_, ss) \<Rightarrow> Some (map (\<lambda>i. \<lparr>ifs_Type = ss ! (2 * i), ifs_Data = ss ! (2 * i + 1)\<rparr>) [0..<length ss div 2])
            | None \<Rightarrow> if b = [] then Some [] else None)))
     (mlib.fields (position msgs) (at_position msgs) (\<lambda>b. b) (\<lambda>k h. Some (k @ h)) (\<lambda>k h sig. sig = 0 # k @ h)
       (\<lambda>k h. Some (k @ h)) (\<lambda>k h sig. sig = k @ h) (\<lambda>k b. k @ b) (\<lambda>b. Some (18 # b)) (\<lambda>s. Some (string_bytes s)))"

lemmas record_defs = lib.defs idlib.defs mlib.defs

lemma mdemo_yaml:
  "yaml_Marshal (mdemo msgs) ids = Some (enc_strs (concat (map (\<lambda>i. [ifs_Type i, ifs_Data i]) ids)))"
  "yaml_Unmarshal (mdemo msgs) b = (case dec_strs b of
      Some (_, ss) \<Rightarrow> Some (map (\<lambda>i. \<lparr>ifs_Type = ss ! (2 * i), ifs_Data = ss ! (2 * i + 1)\<rparr>) [0..<length ss div 2])
    | None \<Rightarrow> if b = [] then Some [] else None)"
  by (simp_all add: mdemo_def record_defs)

lemma mdemo_yaml_roundtrip: "yaml_Unmarshal (mdemo msgs) (enc_strs [t, d]) = Some [\<lparr>ifs_Type = t, ifs_Data = d\<rparr>]"
  unfolding mdemo_yaml dec_enc_strs by simp

section \<open>The identity store\<close>

text \<open>
  C12. Whatever is opened and added, each entry of an identity store is of the one type it knows and has
  data that decode, and each identity in its index is the Ed25519 key of such an entry, under the
  identifier of its public key.
\<close>

theorem identity_store_typed:
  assumes "\<And>sk raw. mb_Encode_Base64 L sk = Some raw \<Longrightarrow> mb_Decode L raw = Some sk" and "store_run L (fs, d)"
  shows "store_typed L fs"
  using store_run_good [OF assms] by (simp only: store_good_def)

lemma mdemo_multibase: "mb_Encode_Base64 (mdemo msgs) sk = Some raw \<Longrightarrow> mb_Decode (mdemo msgs) raw = Some sk"
proof -
  have "string_bytes (bytes_string sk) = sk" for sk
    by (rule bytes_string_inj) simp
  then show "mb_Encode_Base64 (mdemo msgs) sk = Some raw \<Longrightarrow> mb_Decode (mdemo msgs) raw = Some sk"
    by (auto simp: mdemo_def record_defs demo_def)
qed

definition demo_disk :: disk where
  "demo_disk = \<lparr>dk_files = Map.empty, dk_openable = (\<lambda>_. True)\<rparr>"

definition empty_store :: FileStore where
  "empty_store = \<lparr>fs_path = ''ids'', fs_ids = [], fs_idx = []\<rparr>"

lemma demo_open: "NewFileStore (mdemo msgs) ''ids'' demo_disk = (demo_disk\<lparr>dk_files := [''ids'' \<mapsto> []]\<rparr>, Ok empty_store)"
  by (simp add: NewFileStore_def FileStore_read_def bindM_def wrapM_def OpenFile_def demo_disk_def empty_store_def
      mdemo_def record_defs lift_def)

theorem identity_store_typed_witness:
  "store_typed (mdemo []) (fst (fst (FileStore_Add (mdemo []) (Ed25519Identity (replicate 64 7)) (empty_store, demo_disk\<lparr>dk_files := [''ids'' \<mapsto> []]\<rparr>))))"
proof -
  let ?s = "FileStore_Add (mdemo []) (Ed25519Identity (replicate 64 7)) (empty_store, demo_disk\<lparr>dk_files := [''ids'' \<mapsto> []]\<rparr>)"
  have "store_run (mdemo []) (fst ?s)"
    by (rule store_run.added [OF store_run.opened [OF demo_open]])
  then have "store_run (mdemo []) (fst (fst ?s), snd (fst ?s))" by (simp only: prod.collapse)
  then show ?thesis by (rule identity_store_typed [OF mdemo_multibase, rotated])
qed

text \<open>
  C13. An identity that is added to a store that was just opened is found when the file is opened again,
  as is every identity that was found before; in the store it was added to it is not.
\<close>

theorem identity_found_after_reopen:
  assumes "NewFileStore L path d = (d1, Ok fs)" and "PublicIdentityOf L 0 (Ed25519Identity sk) = Ok pid"
    and "pi_ID pid \<notin> fst ` set (fs_idx fs)" and "mb_Encode_Base64 L sk = Some raw" and "mb_Decode L raw = Some sk"
    and "yaml_Marshal L (fs_ids fs @ [\<lparr>ifs_Type = ''ed25519'', ifs_Data = raw\<rparr>]) = Some b"
    and "yaml_Unmarshal L b = Some (fs_ids fs @ [\<lparr>ifs_Type = ''ed25519'', ifs_Data = raw\<rparr>])"
  shows "\<exists>fs1 d2 fs2. FileStore_Add L (Ed25519Identity sk) (fs, d1) = ((fs1, d2), Ok ())
    \<and> NewFileStore L path d2 = (d2, Ok fs2) \<and> FileStore_Find fs2 (pi_ID pid) = Ok (Ed25519Identity sk)
    \<and> (\<forall>i p. FileStore_Find fs i = Ok p \<longrightarrow> FileStore_Find fs2 i = Ok p)
    \<and> \<not> is_Ok (FileStore_Find fs1 (pi_ID pid))"
proof -
  let ?e = "\<lparr>ifs_Type = ''ed25519'', ifs_Data = raw\<rparr>"
  let ?fs1 = "fs\<lparr>fs_ids := fs_ids fs @ [?e]\<rparr>"
  let ?d2 = "d1\<lparr>dk_files := (dk_files d1)(path \<mapsto> b)\<rparr>"
  let ?fs2 = "\<lparr>fs_path = path, fs_ids = fs_ids fs @ [?e], fs_idx = alist_put (pi_ID pid) (Ed25519Identity sk) (fs_idx fs)\<rparr>"
  obtain b0 where open1: "buildIdx L (fs_ids fs) [] = (fs_idx fs, Ok ())" "fs_path fs = path" "dk_openable d1 path" "dk_files d1 path = Some b0"
    using NewFileStore_Ok [OF assms(1)] by auto
  have "FileStore_write L ?fs1 d1 = (?d2, Ok ())"
    using open1(2-4) assms(6) by (simp add: FileStore_write_def andThen_def bindM_def wrapM_def OpenFile_def modify_def)
  then have add: "FileStore_Add L (Ed25519Identity sk) (fs, d1) = ((?fs1, ?d2), Ok ())"
    using assms(2-4) by (simp add: FileStore_Add_def Let_def del: PublicIdentityOf.simps)
  have "buildIdx L (fs_ids fs @ [?e]) [] = (fs_idx ?fs2, Ok ())"
    using buildIdx_app [OF open1(1), of "[?e]"] assms(2,5) by (simp add: decodeType_def del: PublicIdentityOf.simps)
  then have again: "NewFileStore L path ?d2 = (?d2, Ok ?fs2)"
    using open1(3) assms(7) by (simp add: NewFileStore_def FileStore_read_def bindM_def wrapM_def OpenFile_def lift_def)
  have "map_of (fs_idx fs) (pi_ID pid) = None" using assms(3) by (simp add: map_of_eq_None_iff)
  then show ?thesis
    using add again by (auto simp: FileStore_Find_def split: option.splits)
qed

theorem identity_found_after_reopen_witness:
  "\<exists>fs1 d2 fs2. FileStore_Add (mdemo []) (Ed25519Identity (replicate 64 7)) (empty_store, demo_disk\<lparr>dk_files := [''ids'' \<mapsto> []]\<rparr>) = ((fs1, d2), Ok ())
    \<and> NewFileStore (mdemo []) ''ids'' d2 = (d2, Ok fs2)
    \<and> FileStore_Find fs2 (bytes_string (18 # replicate 32 7)) = Ok (Ed25519Identity (replicate 64 7))"
proof -
  let ?L = "mdemo []" and ?sk = "replicate 64 7 :: bytes" and ?i = "bytes_string (18 # replicate 32 7)"
  let ?raw = "CHR ''z'' # bytes_string ?sk"
  let ?e = "\<lparr>ifs_Type = ''ed25519'', ifs_Data = ?raw\<rparr>"
  have raw: "mb_Encode_Base64 ?L ?sk = Some ?raw" by (simp add: mdemo_def record_defs)
  have pub: "PublicIdentityOf ?L 0 (Ed25519Identity ?sk) = Ok \<lparr>pi_ID = ?i, pi_PublicKeys = [KeyEd25519 (replicate 32 7)]\<rparr>"
    by (simp add: ed25519_Public_def identityOf_def mdemo_def record_defs)
  have yaml: "yaml_Marshal ?L [?e] = Some (enc_strs [''ed25519'', ?raw])"
    by (simp add: mdemo_yaml del: enc_strs.simps)
  have parsed: "yaml_Unmarshal ?L (enc_strs [''ed25519'', ?raw]) = Some [?e]"
    by (rule mdemo_yaml_roundtrip)
  have "\<exists>fs1 d2 fs2. FileStore_Add ?L (Ed25519Identity ?sk) (empty_store, demo_disk\<lparr>dk_files := [''ids'' \<mapsto> []]\<rparr>) = ((fs1, d2), Ok ())
    \<and> NewFileStore ?L ''ids'' d2 = (d2, Ok fs2)
    \<and> FileStore_Find fs2 (pi_ID \<lparr>pi_ID = ?i, pi_PublicKeys = [KeyEd25519 (replicate 32 7)]\<rparr>) = Ok (Ed25519Identity ?sk)
    \<and> (\<forall>i p. FileStore_Find empty_store i = Ok p \<longrightarrow> FileStore_Find fs2 i = Ok p)
    \<and> \<not> is_Ok (FileStore_Find fs1 (pi_ID \<lparr>pi_ID = ?i, pi_PublicKeys = [KeyEd25519 (replicate 32 7)]\<rparr>))"
    by (rule identity_found_after_reopen [OF demo_open pub _ raw mdemo_multibase [OF raw]])
       (simp_all only: empty_store_def FileStore.simps append_Nil yaml list.set image_empty empty_iff not_False_eq_True, rule parsed)
  then show ?thesis
    unfolding PublicIdentity.simps by (elim exE conjE) (intro exI conjI)
qed

section \<open>Messages\<close>

text \<open>
  C38. Nothing a stream delivers ever reaches the store of mail, however the receiving side is set up:
  the signature of the hello is cleared before it is verified, so that no handshake succeeds.
\<close>

theorem server_never_delivers:
  assumes "no_empty_signature L" and "Server_handle L nonce add s = (s', r)"
  shows "sh_emStore s' = sh_emStore s \<and> r \<noteq> Ok ()"
  using Server_handle_nothing(1) [OF assms(1), of nonce add] assms(2)
    keepsM_D [OF Server_handle_nothing(2) [OF assms(1)], of s "sh_emStore s" nonce add]
  unfolding neverOk_def by (metis fst_conv snd_conv)

lemma mdemo_no_empty: "no_empty_signature (mdemo msgs\<lparr>ed25519_Verify := \<lambda>k b sig. sig = 0 # k @ b\<rparr>)"
  by (simp add: no_empty_signature_def mdemo_def record_defs)

definition demo_server :: "Message list ServerHandler" where
  "demo_server = (NewServerHandler (NewRW (segments [3]) False) (Some []) (Some (\<lambda>i. Ok (Ed25519Identity (replicate 64 7)))))
     \<lparr>sh_resolver := Some (\<lambda>i. Ok \<lparr>pi_ID = i, pi_PublicKeys = []\<rparr>)\<rparr>"

theorem server_never_delivers_witness:
  "sh_emStore (fst (Server_handle (mdemo [blank_Message]\<lparr>ed25519_Verify := \<lambda>k b sig. sig = 0 # k @ b\<rparr>)
     (Some (replicate 32 1)) (\<lambda>m ms. (m # ms, Ok ())) demo_server)) = Some []"
  using server_never_delivers [OF mdemo_no_empty prod.collapse [symmetric], of "[blank_Message]" "Some (replicate 32 1)" "\<lambda>m ms. (m # ms, Ok ())" demo_server]
  by (simp add: demo_server_def NewServerHandler_def)

text \<open>
  Sending a message writes it to no stream: on each stream that was opened at most a hello without
  a body is written. Success is reported all the same when no stream was opened, and when the failure of
  the only one is not taken.
\<close>

theorem client_sends_no_mail:
  assumes "no_empty_signature L" and "Client_handle L e ch = (ss, r)"
    and "\<And>a rw. sd_open e a = Some rw \<Longrightarrow> rw_out rw = []" and "\<And>xs. set (sd_ord e xs) \<subseteq> set xs"
  shows "(\<forall>s\<in>set ss. hello_only L [] s) \<and> (r = Ok () \<longrightarrow> length ss \<le> 1)"
proof (cases "ss = []")
  case False
  then obtain ch' rws where rws: "connectEndProviders L e (ch_recipient ch) = Ok rws" "ss = map fst (clientRuns L e ch' rws)"
    "r = awaitStreams (sd_pick e) (map snd (clientRuns L e ch' rws))"
    using assms(2) by (auto simp: Client_handle_def Let_def split: if_splits option.splits result.splits)
  have "rw_out rw = []" if "rw \<in> set rws" for rw
    using rws(1) that assms(3,4)
    by (fastforce simp: connectEndProviders_def findProviders_def bindr_Ok Let_def split: if_splits option.splits)
  then have each: "\<forall>(s, r)\<in>set (clientRuns L e ch' rws). hello_only L [] s \<and> r \<noteq> Ok ()"
    by (rule clientRuns_hello_only [OF assms(1)])
  then have "\<forall>r\<in>set (map snd (clientRuns L e ch' rws)). r \<noteq> Ok ()" by fastforce
  then have "length ss \<le> 1" if "r = Ok ()"
    using awaitStreams_Ok [of "sd_pick e" "map snd (clientRuns L e ch' rws)"] rws(2,3) that by simp
  then show ?thesis using each rws(2) by auto
qed simp

definition demo_send :: send_env where
  "demo_send =
     \<lparr>sd_find = (\<lambda>_. Ok [''p'']), sd_connect = (\<lambda>_. True), sd_open = (\<lambda>_. Some (NewRW [] False)), sd_ord = (\<lambda>xs. xs),
      sd_nonce = Some (replicate 32 1), sd_nonces = (\<lambda>_. Some (replicate 32 2)), sd_now = 0, sd_clock = (\<lambda>_. 0), sd_pick = False\<rparr>"

definition demo_client :: ClientHandler where
  "demo_client =
     \<lparr>ch_email = blank_Message, ch_identity = Some (Ed25519Identity (replicate 64 7)),
      ch_recipient = \<lparr>pi_ID = ''r'', pi_PublicKeys = []\<rparr>, ch_resolver = Some (\<lambda>i. Ok \<lparr>pi_ID = i, pi_PublicKeys = []\<rparr>)\<rparr>"

theorem client_sends_no_mail_witness:
  "\<forall>s\<in>set (fst (Client_handle (mdemo []\<lparr>ed25519_Verify := \<lambda>k b sig. sig = 0 # k @ b\<rparr>) demo_send demo_client)).
     hello_only (mdemo []\<lparr>ed25519_Verify := \<lambda>k b sig. sig = 0 # k @ b\<rparr>) [] s"
  using client_sends_no_mail [OF mdemo_no_empty prod.collapse [symmetric], of demo_send "[]" demo_client]
  by (auto simp: demo_send_def NewRW_def)

lemma Comm_Send_fails: "\<exists>e. Comm_Send L env resolver email opts = ([], Err e)"
proof -
  have "sc_PublicResolver (fold WithIdentity opts cfg) = sc_PublicResolver cfg" for cfg
    by (induction opts arbitrary: cfg) (simp_all add: WithIdentity_def)
  then show ?thesis by (auto simp: Comm_Send_def send_def NewDefaultSendConfig_def)
qed

text \<open>
  A message that the API is asked to send fails for every recipient, and no stream is opened: the
  API names no sender, and no option can name the resolver that sending needs.
\<close>

theorem api_send_fails:
  assumes "commApi_Send L env lookup resolver now from to headers parts = Ok errs"
  shows "length errs = length to \<and> (\<forall>t email. fst (Comm_Send L (env t) resolver email []) = [])"
proof -
  have "length (sendTo L env resolver tmpl t) = 1" for tmpl t
  proof -
    have "snd (Comm_Send L (env t) resolver m []) \<noteq> Ok ()" for m
      using Comm_Send_fails [of L "env t" resolver m "[]"] by auto
    then show ?thesis
      by (cases "bindr (deref resolver) (\<lambda>resolve. resolve t)") (auto simp: sendTo_def Let_def split: result.splits)
  qed
  then have "length (concat (map (sendTo L env resolver tmpl) to)) = length to" for tmpl
    by (induction to) simp_all
  moreover have "fst (Comm_Send L (env t) resolver email []) = []" for t email
    using Comm_Send_fails [of L "env t" resolver email "[]"] by auto
  ultimately show ?thesis using assms by (auto simp: commApi_Send_def bindr_Ok Let_def)
qed

theorem api_send_fails_witness:
  "\<exists>errs. commApi_Send (mdemo []) (\<lambda>_. demo_send) (\<lambda>_. Ok (Ed25519Identity (replicate 64 7)))
       (Some (\<lambda>i. Ok \<lparr>pi_ID = i, pi_PublicKeys = []\<rparr>)) 0 ''a'' [''b'', ''c''] [] [] = Ok errs \<and> length errs = 2"
proof -
  have "PublicIdentityOf (mdemo []) 0 (Ed25519Identity (replicate 64 7))
      = Ok \<lparr>pi_ID = bytes_string (18 # replicate 32 7), pi_PublicKeys = [KeyEd25519 (replicate 32 7)]\<rparr>"
    by (simp add: ed25519_Public_def identityOf_def mdemo_def record_defs)
  then obtain errs where errs: "commApi_Send (mdemo []) (\<lambda>_. demo_send) (\<lambda>_. Ok (Ed25519Identity (replicate 64 7)))
       (Some (\<lambda>i. Ok \<lparr>pi_ID = i, pi_PublicKeys = []\<rparr>)) 0 ''a'' [''b'', ''c''] [] [] = Ok errs"
    by (simp add: commApi_Send_def Let_def del: PublicIdentityOf.simps)
  from api_send_fails [OF this] errs show ?thesis by simp
qed

end
