(* ===== verification/Genesis_Props.thy ===== *)
theory Genesis_Props
  imports Genesis_Model Node_Laws Handler_Props Comm_Props
begin

text \<open>
  Properties of a network that is made by \<^verbatim>\<open>gengen\<close>: its genesis and its keys are read back from the
  configuration of a node, and what the form of the keys means for the blocks its nodes agree on.
\<close>

section \<open>Laws\<close>

lemma signTxs_ran:
  "signTxs L S sk ts s = (s', Ok txs) \<Longrightarrow> list_all2 (\<lambda>t (t', c). \<exists>sig. t' = t\<lparr>tx_Signature := sig\<rparr>) ts txs"
proof (induction ts arbitrary: s txs)
  case (Cons t ts)
  then show ?case by (fastforce simp: ran_simps Let_def)
qed (simp add: ran_simps)

text \<open>
  What the codec promises of a genesis: the transactions it decodes may carry untyped payloads, but
  marshalled again they are those that were encoded.
\<close>

definition genesis_codec_ok :: "'z nlib_scheme \<Rightarrow> GenesisInfo \<Rightarrow> bool" where
  "genesis_codec_ok L g \<longleftrightarrow>
     (\<forall>b. mp_enc_genesis L g = Some b \<longrightarrow>
        (\<exists>g'. mp_dec_genesis L b = Some g' \<and> g_ChainID g' = g_ChainID g \<and> g_Block g' = g_Block g
           \<and> list_all2 (\<lambda>t' t. \<exists>bt. Tx_Marshal L t' = Ok bt \<and> Tx_Unmarshal L bt = Ok t) (g_Txs g') (g_Txs g)))"

lemma remarshalTxs_restores:
  "list_all2 (\<lambda>t' t. \<exists>bt. Tx_Marshal L t' = Ok bt \<and> Tx_Unmarshal L bt = Ok t) ts' ts \<Longrightarrow> remarshalTxs L ts' = Ok ts"
  by (induction rule: list_all2_induct) auto

lemma proto_Ok [simp]: "proto r = Ok a \<longleftrightarrow> r = Some a"
  by (simp add: proto_def split: option.split)

lemma printKeys_decode:
  "printKeys M is = Ok ks \<Longrightarrow> (\<And>b t. mb_Encode_Base58BTC M b = Some t \<Longrightarrow> mb_Decode L t = Some b) \<Longrightarrow>
   map snd ks = map gi_pID is \<and> (\<forall>(sk, i)\<in>set ks. mb_Decode L sk \<noteq> None)"
  by (induction "is" arbitrary: ks) (fastforce simp: bindr_Ok)+

lemma genesis_nodes:
  assumes "genesis L S clock now nonce is s = (s', Ok g)"
  shows "g_ChainID g = ''testnet''
    \<and> (\<forall>t\<in>set (g_Txs g). \<forall>nd. tx_Data t = DataNode nd \<longrightarrow> (\<exists>i\<in>set is. node_Id nd = gi_pID i \<and> node_Key nd = string_bytes (gi_blsPKMB i)))"
proof -
  obtain txs s1 where txs: "signTxs L S (gi_blsSk (hd is)) (genTxs clock 0 is) s = (s1, Ok txs)" "g_Txs g = map fst txs"
    and ch: "g_ChainID g = ''testnet''"
    using assms by (auto simp: genesis_def Let_def ran_simps)
  have "\<exists>i\<in>set is. node_Id nd = gi_pID i \<and> node_Key nd = string_bytes (gi_blsPKMB i)"
    if t: "t \<in> set (g_Txs g)" "tx_Data t = DataNode nd" for t nd
  proof -
    obtain c where "(t, c) \<in> set txs" using t(1) txs(2) by auto
    then obtain u sig where u: "u \<in> set (genTxs clock 0 is)" "t = u\<lparr>tx_Signature := sig\<rparr>"
      using signTxs_ran [OF txs(1)] by (fastforce simp: list_all2_conv_all_nth in_set_conv_nth)
    then show ?thesis using genTxs_nodes [OF u(1), of nd] t(2) by simp
  qed
  then show ?thesis using ch by blast
qed

section \<open>The genesis of a test network\<close>


section \<open>An example\<close>

text \<open>A network of one node, with the transactions, the genesis and the keys that are made for it.\<close>

declare allTx_loop.simps [code]

definition gen_id :: gen_identity where
  "gen_id = \<lparr>gi_blsSk = [5], gi_blsPKMB = CHR ''z'' # bytes_string [5], gi_pID = ''p''\<rparr>"

definition gen_plain :: "Tx list" where
  "gen_plain = genTxs (\<lambda>_. 0) 0 [gen_id]"

definition gen_signed :: "Tx list" where
  "gen_signed = [(gen_plain ! 0)\<lparr>tx_Signature := [5, 3]\<rparr>, (gen_plain ! 1)\<lparr>tx_Signature := [5, 0, 3]\<rparr>]"

definition gen_g :: GenesisInfo where
  "gen_g =
     \<lparr>g_ChainID = ''testnet'',
      g_Block = \<lparr>b_Version = 1, b_ID = [], b_Parent = [], b_Height = 0, b_CreatedAt = 0, b_Proposer = [],
        b_Signature = [5, 9], b_Nonce = [1], b_Bloom = [1, 1], b_TxRoot = replicate 48 (CHR ''c'')\<rparr>,
      g_Txs = gen_signed\<rparr>"

definition gen_L :: nlib where
  "gen_L = plib.extend (pdemo ((demo (gen_plain @ gen_signed) [] [])\<lparr>mp_enc_block := \<lambda>b. Some [9],
       cid_NewCidV1_Raw := \<lambda>b. replicate (length b) (CHR ''c'')\<rparr>))
     (nlib.fields (\<lambda>g. if g = gen_g then Some [3] else None) (\<lambda>b. if b = [3] then Some gen_g else None))"

definition gen_V :: viper where
  "gen_V =
     \<lparr>vp_read = ReadOk, vp_set = [''chain.genesis'' \<mapsto> VString (CHR ''z'' # bytes_string [3])],
      vp_ToBool = (\<lambda>v. v = VBool True), vp_ToInt = (\<lambda>v. case v of VInt i \<Rightarrow> i | _ \<Rightarrow> 0),
      vp_ToString = (\<lambda>v. case v of VString s \<Rightarrow> s | _ \<Rightarrow> []), vp_ToStrings = (\<lambda>v. case v of VStrings ss \<Rightarrow> ss | _ \<Rightarrow> [])\<rparr>"

lemma gen_run:
  "snd (gengen gen_L (mdemo []) (memstore gen_L) (\<lambda>_. [5]) (\<lambda>_. 0) 0 (Some [1]) ''p'' (NewMemStore gen_L))
     = Ok (CHR ''z'' # bytes_string [3], [(CHR ''z'' # bytes_string [5], ''p'')])"
  by code_simp

lemma gen_codec: "genesis_codec_ok gen_L g"
proof -
  have "list_all (\<lambda>t. case Tx_Marshal gen_L t of Ok b \<Rightarrow> Tx_Unmarshal gen_L b = Ok t | _ \<Rightarrow> False) gen_signed" by code_simp
  then have "\<exists>b. Tx_Marshal gen_L t = Ok b \<and> Tx_Unmarshal gen_L b = Ok t" if "t \<in> set gen_signed" for t
    using that by (cases "Tx_Marshal gen_L t") (fastforce simp: list_all_iff)+
  then have "list_all2 (\<lambda>t' t. \<exists>b. Tx_Marshal gen_L t' = Ok b \<and> Tx_Unmarshal gen_L b = Ok t) gen_signed gen_signed"
    by (simp add: list_all2_same)
  moreover have "mp_enc_genesis gen_L g = (if g = gen_g then Some [3] else None)" "mp_dec_genesis gen_L [3] = Some gen_g"
    by (simp_all add: gen_L_def plib.defs nlib.defs)
  moreover have "g_Txs gen_g = gen_signed" by (simp add: gen_g_def)
  ultimately show ?thesis by (simp add: genesis_codec_ok_def)
qed

lemma gen_multibase: "mb_Encode_Base58BTC (mdemo []) b = Some t \<Longrightarrow> mb_Decode gen_L t = Some b"
proof -
  have "string_bytes (bytes_string b) = b" by (rule bytes_string_inj) simp
  then show "mb_Encode_Base58BTC (mdemo []) b = Some t \<Longrightarrow> mb_Decode gen_L t = Some b"
    by (auto simp: mdemo_def record_defs gen_L_def pdemo_def demo_def clib.defs plib.defs nlib.defs)
qed


section \<open>Blocks\<close>

text \<open>
  C40. A proposer whose voters have keys in the form in which their votes are checked never sends the
  block they agreed on, and commits nothing: the keys are unmarshalled there without being decoded.
\<close>

theorem proposer_never_commits:
  assumes "\<And>t raw. mb_Decode L t = Some raw \<Longrightarrow> bls_Unmarshal L raw \<noteq> None \<Longrightarrow> bls_Unmarshal L (string_bytes t) = None"
    and "env_ok e" and "votes_of (PreCommits (c_propsalState c)) \<noteq> []"
    and "\<forall>(k, m)\<in>set (votes_of (PreCommits (c_propsalState c))). m_From m = k \<and> checkMsg L S c m = Ok True"
  shows "runTask L S e TaskSendBlock c = (c, Ok ())"
proof -
  let ?vs = "votes_of (PreCommits (c_propsalState c))"
  have same: "set (env_votes e ?vs) = set ?vs" using assms(2) by (simp add: env_ok_def) (metis set_mset_mset)
  then have "env_votes e ?vs \<noteq> []" using assms(3) by force
  then obtain k m rest where vs: "env_votes e ?vs = (k, m) # rest" by (metis list.exhaust surj_pair)
  then have "(k, m) \<in> set ?vs" using same by auto
  then have m: "m_From m = k" "checkMsg L S c m = Ok True" using assms(4) by auto
  obtain n raw where n: "GetNode S (c_store c) (peer_String L k) = Ok n"
    "mb_Decode L (bytes_string (node_Key n)) = Some raw" "bls_Unmarshal L raw \<noteq> None"
    using m by (auto simp: checkMsg_def NewBls12381PublicKey_def split: if_splits result.splits option.splits prod.splits)
  have "string_bytes (bytes_string (node_Key n)) = node_Key n" by (rule bytes_string_inj) simp
  then have "bls_Unmarshal L (node_Key n) = None" using assms(1) [OF n(2,3)] by simp
  then have "\<exists>err. blockMsg L S e c = Err err"
    using n(1) vs by (simp add: blockMsg_def Let_def NewBls12381PublicKey_def)
  then show ?thesis
    by (auto simp: runTask_def afterGrace_def sendBlock_def run_simps)
qed

definition text_L :: clib where
  "text_L = net_L\<lparr>bls_Unmarshal := \<lambda>b. if length b = 1 then Some b else None\<rparr>"

definition text_proposer :: "MemStore Consensus" where
  "text_proposer = net_start\<lparr>c_propsalState := (zero_State net_L)\<lparr>PreCommits := Some [(''q'', net_signed 2)]\<rparr>\<rparr>"

theorem proposer_never_commits_witness:
  "runTask text_L (memstore net_L) demo_env TaskSendBlock text_proposer = (text_proposer, Ok ())"
proof (rule proposer_never_commits)
  show "bls_Unmarshal text_L (string_bytes t) = None" if "mb_Decode text_L t = Some raw" "bls_Unmarshal text_L raw \<noteq> None" for t raw
    using that by (cases t) (auto simp: text_L_def net_L_def demo_def string_bytes_def split: if_splits)
  show "env_ok demo_env" by (simp add: env_ok_def demo_env_def range_ok_def)
  show "votes_of (PreCommits (c_propsalState text_proposer)) \<noteq> []" by (simp add: text_proposer_def votes_of_def)
  have "checkMsg text_L (memstore net_L) text_proposer (net_signed 2) = Ok True"
    unfolding text_L_def by (rule net_check_keys) (simp_all add: text_proposer_def net_start_def string_bytes_def)
  then show "\<forall>(k, m)\<in>set (votes_of (PreCommits (c_propsalState text_proposer))). m_From m = k \<and> checkMsg text_L (memstore net_L) text_proposer m = Ok True"
    by (simp add: text_proposer_def votes_of_def net_signed_def net_bodies_def net_msg_def)
qed

end
