(* ===== verification/Cli_Model.thy ===== *)
theory Cli_Model
  imports Node_Model
begin

text \<open>
  \<^verbatim>\<open>internal/cli\<close>: the commands \<^verbatim>\<open>em send\<close>, which builds a request for the API of a running node, and
  \<^verbatim>\<open>daemon\<close>, which runs a node. Flags, files and the standard input are arguments.
\<close>

section \<open>Splitting\<close>

text \<open>\<^verbatim>\<open>strings.SplitN\<close> with a separator of one character and a limit that is not negative.\<close>

fun strings_SplitN :: "char \<Rightarrow> nat \<Rightarrow> string \<Rightarrow> string list" where
  "strings_SplitN c 0 s = []"
| "strings_SplitN c (Suc 0) s = [s]"
| "strings_SplitN c (Suc (Suc n)) s =
     (if c \<in> set s then fst (cut c s) # strings_SplitN c (Suc n) (snd (cut c s)) else [s])"

text \<open>\<^verbatim>\<open>bytes.Split\<close> with a separator that is not empty; \<open>acc\<close> is the part that is being read.\<close>

function bytes_Split :: "bytes \<Rightarrow> bytes \<Rightarrow> bytes \<Rightarrow> bytes list" where
  "bytes_Split sep acc data =
     (if sep \<noteq> [] \<and> take (length sep) data = sep then acc # bytes_Split sep [] (drop (length sep) data)
      else (case data of [] \<Rightarrow> [acc] | x # xs \<Rightarrow> bytes_Split sep (acc @ [x]) xs))"
  by pat_completeness auto
termination
proof (relation "measure (\<lambda>(sep, acc, data). length data)", goal_cases)
  case (2 sep acc data)
  then have "data \<noteq> []" by (cases data) auto
  then show ?case using 2 by auto
qed auto

fun bytes_Join :: "bytes \<Rightarrow> bytes list \<Rightarrow> bytes" where
  "bytes_Join sep [] = []"
| "bytes_Join sep [b] = b"
| "bytes_Join sep (b # bs) = b @ sep @ bytes_Join sep bs"

section \<open>Sending a message\<close>

record EmSendPart =
  ep_Mime :: string
  ep_Data :: bytes

record EmSendRequest =
  rq_Headers :: "(string \<times> string) list"
  rq_To :: "string list"
  rq_From :: string
  rq_Parts :: "EmSendPart list"

record em_flags =
  ef_subject :: string
  ef_from :: string
  ef_to :: "string list"
  ef_header :: "string list"
  ef_file :: "string list"
  ef_stdin_split :: bytes

record cli_env =
  ce_client :: bool
  ce_stdin :: "bytes option"
  ce_file :: "string \<Rightarrow> bytes option"
  ce_mime :: "bytes \<Rightarrow> string"

text \<open>The loop over the headers; \<open>None\<close> where it gives up.\<close>

fun readHeaders :: "string list \<Rightarrow> (string \<times> string) list \<Rightarrow> (string \<times> string) list option" where
  "readHeaders [] hs = Some hs"
| "readHeaders (h # rest) hs =
     (case strings_SplitN (CHR ''='') 1 h of
        [k, v] \<Rightarrow> readHeaders rest (alist_put k v hs)
      | _ \<Rightarrow> None)"

definition readPartsFromStdin :: "cli_env \<Rightarrow> bytes \<Rightarrow> bytes list option" where
  "readPartsFromStdin C delim =
     map_option (\<lambda>data. if delim = [] then [data] else bytes_Split delim [] data) (ce_stdin C)"

text \<open>
  The loop over the parts. A part that cannot be read is logged and the loop goes on: with no data for
  the standard input, and with empty data for a file.
\<close>

fun readParts :: "cli_env \<Rightarrow> bytes \<Rightarrow> string list \<Rightarrow> bool \<Rightarrow> EmSendPart list option" where
  "readParts C delim [] readStdIn = Some []"
| "readParts C delim (p # ps) readStdIn =
     (if p = ''-'' \<and> readStdIn then None
      else
        (let datas = (if p = ''-'' then (case readPartsFromStdin C delim of None \<Rightarrow> [] | Some ds \<Rightarrow> ds)
                      else [case ce_file C p of None \<Rightarrow> [] | Some d \<Rightarrow> d])
         in map_option (\<lambda>rest. map (\<lambda>d. \<lparr>ep_Mime = ce_mime C d, ep_Data = d\<rparr>) datas @ rest)
              (readParts C delim ps (readStdIn \<or> p = ''-''))))"

definition emRequest :: "cli_env \<Rightarrow> em_flags \<Rightarrow> EmSendRequest option" where
  "emRequest C f =
     (case readHeaders (ef_header f) (if ef_subject f \<noteq> [] then [(''subject'', ef_subject f)] else []) of
        None \<Rightarrow> None
      | Some hs \<Rightarrow>
          map_option (\<lambda>parts. \<lparr>rq_Headers = hs, rq_To = ef_to f, rq_From = ef_from f, rq_Parts = parts\<rparr>)
            (readParts C (ef_stdin_split f) (ef_file f) False))"

text \<open>
  \<^verbatim>\<open>runEmSend\<close> on the call of the API: the request that was sent, the errors that are logged, and how the
  command ends. When the call fails there is no response, whose errors the command reads all the same.
\<close>

definition runEmSend ::
    "(EmSendRequest \<Rightarrow> error list result) \<Rightarrow> cli_env \<Rightarrow> em_flags \<Rightarrow> EmSendRequest option \<times> error list result" where
  "runEmSend api C f =
     (case (if ce_client C then emRequest C f else None) of
        None \<Rightarrow> (None, Ok [])
      | Some req \<Rightarrow>
          (Some req, case api req of Ok errs \<Rightarrow> Ok errs | Err e \<Rightarrow> Panic | Panic \<Rightarrow> Panic | Diverge \<Rightarrow> Diverge))"

text \<open>The API of a node answers such a request with \<^verbatim>\<open>commApi.Send\<close>; its server recovers from a panic.\<close>

definition serve ::
    "'y mlib_scheme \<Rightarrow> (string \<Rightarrow> send_env) \<Rightarrow> int \<Rightarrow> 's HostNode \<Rightarrow> EmSendRequest \<Rightarrow> error list result" where
  "serve M env now n req =
     (case bindr (deref (n_idStore n)) (\<lambda>fs.
             commApi_Send M env (FileStore_Find fs) (n_identityResolver n) now (rq_From req) (rq_To req) (rq_Headers req)
               (map (\<lambda>p. (ep_Mime p, ep_Data p)) (rq_Parts req))) of
        Panic \<Rightarrow> Err (ErrNew ''recovered'')
      | r \<Rightarrow> r)"

section \<open>Running a node\<close>

datatype daemon_end = ServeFailed error | Signalled

definition runDaemon ::
    "'z nlib_scheme \<Rightarrow> 'y idlib_scheme \<Rightarrow> 's Store \<Rightarrow> env \<Rightarrow> node_env \<Rightarrow> (IpfsIdentity \<Rightarrow> string \<Rightarrow> 's result)
       \<Rightarrow> viper \<Rightarrow> string option \<Rightarrow> peer_ID \<Rightarrow> int \<Rightarrow> daemon_end \<Rightarrow> (disk, unit) op" where
  "runDaemon L M S e E ipfs V home i now en =
     bindM (wrapM ''initing node'' (NewNode L M S e E ipfs V home i now [WithDefaultOptions])) (\<lambda>n.
       case en of ServeFailed err \<Rightarrow> raise err | Signalled \<Rightarrow> ret ())"

section \<open>Laws\<close>

lemma bytes_Split_ne [simp]: "bytes_Split sep acc data \<noteq> []"
  by (induction sep acc data rule: bytes_Split.induct) (subst bytes_Split.simps, auto split: list.split simp del: bytes_Split.simps)

lemma bytes_Join_Cons: "bs \<noteq> [] \<Longrightarrow> bytes_Join sep (b # bs) = b @ sep @ bytes_Join sep bs"
  by (cases bs) simp_all

text \<open>Joining the parts gives back what was split.\<close>

lemma bytes_Join_Split: "bytes_Join sep (bytes_Split sep acc data) = acc @ data"
proof (induction sep acc data rule: bytes_Split.induct)
  case (1 sep acc data)
  show ?case
  proof (cases "sep \<noteq> [] \<and> take (length sep) data = sep")
    case True
    then have "sep @ drop (length sep) data = data" by (metis append_take_drop_id)
    then show ?thesis
      using True 1(1) by (subst bytes_Split.simps) (simp add: bytes_Join_Cons del: bytes_Split.simps)
  next
    case False
    then show ?thesis
      using 1(2) by (subst bytes_Split.simps) (auto simp del: bytes_Split.simps split: list.split)
  qed
qed

lemma readHeaders_none: "hs \<noteq> [] \<Longrightarrow> readHeaders hs m = None"
  by (cases hs) simp_all

end
