(* ===== verification/Resolver_Model.thy ===== *)
theory Resolver_Model
  imports W3c_Did
begin

text \<open>
  \<^verbatim>\<open>pkg/did/resolver/resolver.go\<close> and \<^verbatim>\<open>pkg/did/resolver/dns.go\<close>: the resolution of a DID through records
  in the DNS. The file \<^verbatim>\<open>/etc/resolv.conf\<close> and the answers of the DNS are parameters; an answer may depend
  on how many queries were made before it.
\<close>

section \<open>The DNS\<close>

datatype RR = RR_URI string | RR_Other

record dns_env =
  dn_config :: "(string list \<times> string) option"
  dn_Exchange :: "nat \<Rightarrow> string \<Rightarrow> string \<Rightarrow> RR list option"

definition NewDNSDIDResolver :: "dns_env \<Rightarrow> (string list \<times> string) result" where
  "NewDNSDIDResolver D =
     (case dn_config D of
        None \<Rightarrow> Err (ErrWrap ''building dns config'' (ErrNew ''resolv.conf''))
      | Some cfg \<Rightarrow> Ok cfg)"

text \<open>The loop over the answers: the first URI record that names a DID, or the empty string.\<close>

fun firstReference :: "RR list \<Rightarrow> string" where
  "firstReference [] = []"
| "firstReference (RR_URI target # rs) = (if has_prefix ''did:'' target then target else firstReference rs)"
| "firstReference (RR_Other # rs) = firstReference rs"

text \<open>\<^verbatim>\<open>DNSDIDResolver.Resolve\<close> as query number \<open>n\<close>.\<close>

definition DNSDIDResolver_Resolve :: "dns_env \<Rightarrow> string list \<times> string \<Rightarrow> nat \<Rightarrow> string \<Rightarrow> string result" where
  "DNSDIDResolver_Resolve D cfg n name =
     (let name' = (if name \<noteq> [] \<and> last name = CHR ''.'' then name else name @ ''.'') in
      case fst cfg of
        [] \<Rightarrow> Panic
      | server # _ \<Rightarrow>
          (case dn_Exchange D n (server @ '':'' @ snd cfg) name' of
             None \<Rightarrow> Err (ErrWrap ''querying dns record'' (ErrNew ''dns''))
           | Some answer \<Rightarrow>
               if answer = [] \<or> firstReference answer = [] then Err (ErrNew ''notFound'')
               else Ok (firstReference answer)))"

text \<open>The name that is queried for a DID, and the reference found under it.\<close>

definition rrname :: "'z lib_scheme \<Rightarrow> string \<Rightarrow> string result" where
  "rrname L did =
     bindr (URL_Id L did) (\<lambda>i.
     bindr (URL_Fragment L did) (\<lambda>f.
       Ok (if f = [] then ''_did.'' @ i else ''_'' @ f @ ''._did.'' @ i)))"

definition reference :: "'z lib_scheme \<Rightarrow> dns_env \<Rightarrow> nat \<Rightarrow> string \<Rightarrow> string result" where
  "reference L D n did =
     bindr (wrap ''constructing dns client'' (NewDNSDIDResolver D)) (\<lambda>client.
     bindr (rrname L did) (\<lambda>name. DNSDIDResolver_Resolve D client n name))"

section \<open>Resolution\<close>

text \<open>
  \<^verbatim>\<open>resolveDNS\<close> and \<^verbatim>\<open>ResolveContext\<close> call each other; the second is written out where the first calls it.
  \<open>None\<close> where the calls never end.
\<close>

abbreviation ErrUnknownMethod :: error where "ErrUnknownMethod \<equiv> ErrNew ''unknown did method''"

partial_function (option) resolveDNS ::
    "'z lib_scheme \<Rightarrow> dns_env \<Rightarrow> nat \<Rightarrow> string \<Rightarrow> int \<Rightarrow> Document result option" where
  "resolveDNS L D n did depth =
     (if depth > 5 then Some (Err (ErrNew ''notFound''))
      else (case reference L D n did of
              Ok rrres \<Rightarrow>
                Option.bind
                  (if has_prefix ''did:dns:'' rrres then resolveDNS L D (n + 1) rrres (depth + 1)
                   else (case URL_Method L rrres of
                           Ok m \<Rightarrow> if m = ''dns'' then resolveDNS L D (n + 1) rrres 0 else Some (Err ErrUnknownMethod)
                         | Err e \<Rightarrow> Some (Err e)
                         | Panic \<Rightarrow> Some Panic
                         | Diverge \<Rightarrow> None))
                  (\<lambda>r. Some (bindr r (\<lambda>doc. bindr (URL_Id L did) (\<lambda>i. Ok (doc\<lparr>doc_ID := i\<rparr>)))))
            | Err e \<Rightarrow> Some (Err e)
            | Panic \<Rightarrow> Some Panic
            | Diverge \<Rightarrow> None))"

definition ResolveContext :: "'z lib_scheme \<Rightarrow> dns_env \<Rightarrow> nat \<Rightarrow> string \<Rightarrow> Document result option" where
  "ResolveContext L D n did =
     (case URL_Method L did of
        Ok m \<Rightarrow> if m = ''dns'' then resolveDNS L D n did 0 else Some (Err ErrUnknownMethod)
      | Err e \<Rightarrow> Some (Err e)
      | Panic \<Rightarrow> Some Panic
      | Diverge \<Rightarrow> None)"

definition Resolve :: "'z lib_scheme \<Rightarrow> dns_env \<Rightarrow> string \<Rightarrow> Document result option" where
  "Resolve L D did = ResolveContext L D 0 did"

section \<open>Laws\<close>

text \<open>The calls as the source has them.\<close>

lemma resolveDNS_calls:
  "resolveDNS L D n did depth =
     (if depth > 5 then Some (Err (ErrNew ''notFound''))
      else (case reference L D n did of
              Ok rrres \<Rightarrow>
                Option.bind
                  (if has_prefix ''did:dns:'' rrres then resolveDNS L D (n + 1) rrres (depth + 1)
                   else ResolveContext L D (n + 1) rrres)
                  (\<lambda>r. Some (bindr r (\<lambda>doc. bindr (URL_Id L did) (\<lambda>i. Ok (doc\<lparr>doc_ID := i\<rparr>)))))
            | Err e \<Rightarrow> Some (Err e)
            | Panic \<Rightarrow> Some Panic
            | Diverge \<Rightarrow> None))"
  by (subst resolveDNS.simps) (auto simp: ResolveContext_def split: result.split)

lemma is_Ok_bindr: "is_Ok (bindr r f) \<Longrightarrow> is_Ok r"
  by (cases r) simp_all

lemma resolveDNS_no_document:
  assumes "resolveDNS L D n did depth = Some r"
  shows "\<not> is_Ok r"
proof (rule resolveDNS.raw_induct [where P = "\<lambda>L D n did depth r. \<not> is_Ok r", OF _ assms], goal_cases)
  case (1 f L D n did depth r)
  from 1(2) show ?case
    by (auto simp: bind_eq_Some_conv split: if_splits result.splits dest!: is_Ok_bindr 1(1))
qed

lemma URL_no_Diverge: "URL_Method L u \<noteq> Diverge" "URL_Id L u \<noteq> Diverge" "URL_Fragment L u \<noteq> Diverge"
  by (simp_all add: URL_Method_def URL_Id_def URL_Fragment_def split: option.split)

text \<open>Each step of a chain of DNS references goes one deeper; five are followed.\<close>

lemma resolveDNS_returns:
  assumes "\<And>n did ref m. reference L D n did = Ok ref \<Longrightarrow> \<not> has_prefix ''did:dns:'' ref \<Longrightarrow> URL_Method L ref = Ok m \<Longrightarrow> m \<noteq> ''dns''"
    and "\<And>n did. reference L D n did \<noteq> Diverge"
  shows "\<exists>r. resolveDNS L D n did depth = Some r"
proof (induction "nat (6 - depth)" arbitrary: n did depth rule: less_induct)
  case less
  show ?case
  proof (cases "depth > 5")
    case True
    then show ?thesis by (subst resolveDNS.simps) simp
  next
    case False
    have "\<exists>r. resolveDNS L D (n + 1) ref (depth + 1) = Some r" for ref
      using less [of "depth + 1"] False by simp
    then obtain g where "\<And>ref. resolveDNS L D (n + 1) ref (depth + 1) = Some (g ref)" by metis
    then show ?thesis
      using False assms URL_no_Diverge(1) [of L]
      by (subst resolveDNS.simps) (auto split: result.splits)
  qed
qed

lemma bindr_no_Diverge: "r \<noteq> Diverge \<Longrightarrow> (\<And>a. f a \<noteq> Diverge) \<Longrightarrow> bindr r f \<noteq> Diverge"
  by (cases r) simp_all

lemma reference_no_Diverge: "reference L D n did \<noteq> Diverge"
  unfolding reference_def rrname_def
  by (intro bindr_no_Diverge URL_no_Diverge)
    (auto simp: NewDNSDIDResolver_def DNSDIDResolver_Resolve_def Let_def split: option.split list.split)

text \<open>A reference that resets the depth and leads to itself is followed for ever.\<close>

lemma resolveDNS_loops:
  assumes "\<And>n. reference L D n did = Ok ref" and "\<And>n. reference L D n ref = Ok ref"
    and "\<not> has_prefix ''did:dns:'' ref" and "URL_Method L ref = Ok ''dns''"
  shows "resolveDNS L D n did 0 = None"
proof -
  have "resolveDNS L D n ref 0 = Some r \<Longrightarrow> False" for n r
  proof -
    assume run: "resolveDNS L D n ref 0 = Some r"
    show False
    proof (rule resolveDNS.raw_induct [where P = "\<lambda>L' D' n did depth r. L' = L \<and> D' = D \<and> did = ref \<and> depth = 0 \<longrightarrow> False", OF _ run, simplified], goal_cases)
      case (1 f L' D' n did depth r)
      have "f L D (n + 1) ref 0 \<noteq> Some y" for y using 1(1) [of L D "n + 1" ref 0 y] by auto
      then show ?case using 1(2) assms(2-4) by (auto simp: bind_eq_Some_conv)
    qed
  qed
  then have "resolveDNS L D (n + 1) ref 0 = None" for n by (cases "resolveDNS L D (n + 1) ref 0") auto
  then show ?thesis using assms(1,3,4) by (subst resolveDNS.simps) simp
qed

end
