(* ===== verification/Node_Props.thy ===== *)
theory Node_Props
  imports Genesis_Props Cli_Model Resolver_Model
begin

text \<open>
  Properties of a whole node: how it starts and with which identity, what its identities are advertised
  and looked up as, what becomes of a message sent through its API, how often its beacon speaks, and what
  the resolution of a DID returns.
\<close>

section \<open>Starting\<close>

lemma NewNode_needs_identity:
  fixes S :: "'s Store"
  assumes "GetConfig L V home = Ok cfg" and "dk_files d (IdentityFile (cfg_p2p cfg)) = None"
    and "cfg_IdentityStore cfg \<noteq> IdentityFile (cfg_p2p cfg)" and "WithDefaultOptions \<in> set opts"
  shows "\<exists>d' r. NewNode L M S e E ipfs V home i now opts d = (d', r) \<and> (\<forall>n. r \<noteq> Ok n)
    \<and> dk_files d' (IdentityFile (cfg_p2p cfg)) = None"
proof -
  let ?f = "IdentityFile (cfg_p2p cfg)"
  obtain d1 r1 where open1: "openIdStore M (blankNode cfg :: 's HostNode) d = (d1, r1)" by fastforce
  have d1: "dk_files d1 ?f = None"
    using keepsM_D [OF openIdStore_keeps, of "blankNode cfg :: 's HostNode" ?f d M] open1 assms(2,3) by (simp add: blankNode_def)
  show ?thesis
  proof (cases r1)
    case (Ok n1)
    obtain d2 r2 where opts: "applyOptions E ipfs opts n1 d1 = (d2, r2)" by fastforce
    have "n_cfg n1 = cfg" using openIdStore_unset [of M "blankNode cfg" d d1 n1] open1 Ok by (simp add: unset_def blankNode_def)
    then have "r2 \<noteq> Ok n" for n using default_needs_file [of d1 n1 opts E ipfs d2 n] d1 assms(4) opts by simp
    moreover have "dk_files d2 ?f = None"
      using keepsM_D [OF applyOptions_keeps [of "\<lambda>d. dk_files d ?f = None" E ipfs opts n1], of d1] d1 opts by simp
    ultimately show ?thesis
      using assms(1) open1 Ok opts by (cases r2) (auto simp: NewNode_def bindM_def lift_def)
  qed (use assms(1) open1 d1 in \<open>auto simp: NewNode_def bindM_def lift_def\<close>)
qed

text \<open>A machine on which everything can be set up, and a configuration that sets nothing.\<close>

definition node_E :: node_env where
  "node_E =
     \<lparr>ne_Stat = (\<lambda>_. True), ne_MkdirAll = (\<lambda>_. True), ne_GenerateKeyPair = Some [1], ne_MarshalPrivateKey = Some,
      ne_UnmarshalPrivateKey = Some, ne_IDFromPrivateKey = (\<lambda>_. Some ''p''), ne_base64 = bytes_string,
      ne_NewMultiaddr = Some, ne_AddrInfo = Some, ne_NewConnManager = (\<lambda>_ _. True), ne_NewPeerstore = True,
      ne_NewHost = (\<lambda>_ _ _. True), ne_NewDHT = True, ne_NewGossipSub = True,
      ne_InfoFromJSON = True, ne_ResolveDnsaddr = (\<lambda>_. None), ne_Connect = (\<lambda>_. True), ne_NewDrandClient = (\<lambda>_. True)\<rparr>"

definition plain_V :: viper where
  "plain_V = gen_V\<lparr>vp_set := \<lambda>_. None\<rparr>"

lemma plain_config:
  "case GetConfig gen_L plain_V (Some ''/h'') of
     Ok cfg \<Rightarrow> IdentityFile (cfg_p2p cfg) = ''/h/.didem/p2p_identity'' \<and> cfg_IdentityStore cfg = ''/h/.didem/identities.yaml''
   | _ \<Rightarrow> False"
  by code_simp

text \<open>
  C39. A daemon never starts where there is no identity file yet, and does not make one: the storage of
  the default options is set up with the identity in the file before the host of the network, which
  would make it, is set up.
\<close>

theorem daemon_needs_identity:
  assumes "GetConfig L V home = Ok cfg" and "dk_files d (IdentityFile (cfg_p2p cfg)) = None"
    and "cfg_IdentityStore cfg \<noteq> IdentityFile (cfg_p2p cfg)"
    and "runDaemon L M S e E ipfs V home i now en d = (d', r)"
  shows "r \<noteq> Ok () \<and> dk_files d' (IdentityFile (cfg_p2p cfg)) = None"
proof -
  obtain d1 r1 where run: "NewNode L M S e E ipfs V home i now [WithDefaultOptions] d = (d1, r1)" "\<forall>n. r1 \<noteq> Ok n"
    "dk_files d1 (IdentityFile (cfg_p2p cfg)) = None"
    using NewNode_needs_identity [OF assms(1-3), of "[WithDefaultOptions]"] by fastforce
  then show ?thesis
    using assms(4) by (cases r1) (auto simp: runDaemon_def bindM_def wrapM_def)
qed

theorem daemon_needs_identity_witness:
  "\<not> is_Ok (snd (runDaemon gen_L (mdemo []) (memstore gen_L) demo_env node_E (\<lambda>_ _. Ok (NewMemStore gen_L)) plain_V (Some ''/h'')
     ''a'' 0 Signalled demo_disk))"
proof -
  obtain cfg where cfg: "GetConfig gen_L plain_V (Some ''/h'') = Ok cfg" "IdentityFile (cfg_p2p cfg) = ''/h/.didem/p2p_identity''"
    "cfg_IdentityStore cfg = ''/h/.didem/identities.yaml''"
    using plain_config by (cases "GetConfig gen_L plain_V (Some ''/h'')") simp_all
  have nofile: "dk_files demo_disk (IdentityFile (cfg_p2p cfg)) = None" by (simp add: demo_disk_def)
  have other: "cfg_IdentityStore cfg \<noteq> IdentityFile (cfg_p2p cfg)" by (simp add: cfg)
  obtain d' r where run: "runDaemon gen_L (mdemo []) (memstore gen_L) demo_env node_E (\<lambda>_ _. Ok (NewMemStore gen_L)) plain_V
      (Some ''/h'') ''a'' 0 Signalled demo_disk = (d', r)" by fastforce
  have "r \<noteq> Ok ()" using daemon_needs_identity [OF cfg(1) nofile other run] by (rule conjunct1)
  then show ?thesis using run by (simp add: is_Ok_iff)
qed

text \<open>
  C18. The network identity of a node lasts: the key with which a host is set up is the key of every
  later host on the same disk, whatever would be generated then, and the identity of its storage.
\<close>

theorem network_identity_persists:
  assumes "getIdentity E f d = (d', Ok k)" and "ne_MarshalPrivateKey E k = Some b" and "ne_IDFromPrivateKey E k = Some p"
  shows "getIdentity (E\<lparr>ne_GenerateKeyPair := any\<rparr>) f d' = (d', Ok k)
    \<and> identityToIPFSConfigIdentity E f d' = (d', Ok \<lparr>PrivKey = ne_base64 E b, PeerID = p\<rparr>)"
proof -
  have stat: "ne_Stat E f" "dk_openable d f"
    using assms(1) by (auto simp: getIdentity_def generateIdentity_def inspect_def ran_simps ReadFile_def WriteFile_def split: if_splits)
  have "\<exists>raw. dk_files d' f = Some raw \<and> ne_UnmarshalPrivateKey E raw = Some k \<and> dk_openable d' = dk_openable d"
    using assms(1)
    by (auto simp: getIdentity_def generateIdentity_def inspect_def ran_simps wrap_Ok ReadFile_def WriteFile_def orErr_def
        split: if_splits option.splits)
  then obtain raw where raw: "dk_files d' f = Some raw" "ne_UnmarshalPrivateKey E raw = Some k" "dk_openable d' f"
    using stat by auto
  have "getIdentity (E\<lparr>ne_GenerateKeyPair := any\<rparr>) f d' = (d', Ok k)"
    by (rule getIdentity_existing [where b = raw]) (use raw stat in simp_all)
  moreover have "identityToIPFSConfigIdentity E f d' = (d', Ok \<lparr>PrivKey = ne_base64 E b, PeerID = p\<rparr>)"
    using raw assms(2,3) by (simp add: identityToIPFSConfigIdentity_def ReadFile_def bindM_def wrapM_def lift_def ret_def orErr_def)
  ultimately show ?thesis ..
qed

theorem network_identity_persists_witness:
  "fst (getIdentity node_E ''/h/k'' demo_disk) \<noteq> demo_disk
   \<and> getIdentity (node_E\<lparr>ne_GenerateKeyPair := Some [2]\<rparr>) ''/h/k'' (fst (getIdentity node_E ''/h/k'' demo_disk))
      = (fst (getIdentity node_E ''/h/k'' demo_disk), Ok [1])"
proof -
  let ?d = "demo_disk\<lparr>dk_files := (dk_files demo_disk)(''/h/k'' \<mapsto> [1])\<rparr>"
  have "getIdentity node_E ''/h/k'' demo_disk = (?d, Ok [1])"
    by (rule getIdentity_new) (simp_all add: node_E_def demo_disk_def)
  moreover from network_identity_persists [OF this, of "[1]" "''p''" "Some [2]"]
  have "getIdentity (node_E\<lparr>ne_GenerateKeyPair := Some [2]\<rparr>) ''/h/k'' ?d = (?d, Ok [1])" by (simp add: node_E_def)
  moreover have "?d \<noteq> demo_disk" by (simp add: demo_disk_def fun_eq_iff)
  ultimately show ?thesis by simp
qed

section \<open>Identities on the network\<close>

text \<open>
  An identity is never found where it is advertised: it is provided under the multihash its
  identifier spells, and looked up under the multihash of the identifier's text.
\<close>

theorem advertised_not_looked_up:
  assumes "PublicIdentityOf M 0 i = Ok pid" and "provideIdentity M i = Ok c"
    and "\<And>b. mh_SHA3_384_B58 M b = map_option enc (mh_SHA3_384 M b)" and "\<And>m. mh_FromB58String M (enc m) = Some m"
    and "\<And>a b m. mh_SHA3_384 M a = Some m \<Longrightarrow> mh_SHA3_384 M b = Some m \<Longrightarrow> a = b"
    and "\<And>m n. cid_NewCidV1_Raw M m = cid_NewCidV1_Raw M n \<Longrightarrow> m = n"
    and "\<And>a m. mh_SHA3_384 M a = Some m \<Longrightarrow> string_bytes (enc m) \<noteq> a"
  shows "findProviders M e pid = Err (ErrNew ''multihash'')
    \<or> (\<exists>c'. findProviders M e pid = wrap ''finding recipient provider'' (sd_find e c') \<and> c' \<noteq> c)"
proof -
  obtain raw m where m: "mh_SHA3_384 M raw = Some m" "pi_ID pid = enc m"
    using assms(1,3) by (cases i) (auto simp: identityOf_def bindr_Ok split: option.splits)
  then have c: "c = cid_NewCidV1_Raw M m" using assms(1,2,4) by (auto simp: provideIdentity_def bindr_Ok orErr_def)
  show ?thesis
  proof (cases "mh_SHA3_384 M (string_bytes (pi_ID pid))")
    case (Some m')
    then have "m' \<noteq> m" using assms(5) [of raw m "string_bytes (enc m)"] assms(7) [of raw m] m by auto
    then have "cid_NewCidV1_Raw M m' \<noteq> c" using assms(6) c by blast
    then show ?thesis using Some by (auto simp: findProviders_def orErr_def)
  qed (simp add: findProviders_def orErr_def)
qed

theorem advertised_not_looked_up_witness:
  "\<exists>c c'. provideIdentity (mdemo []) (Ed25519Identity (replicate 64 7)) = Ok c
     \<and> findProviders (mdemo []) (demo_send\<lparr>sd_find := \<lambda>c. Ok [c]\<rparr>) \<lparr>pi_ID = bytes_string (18 # replicate 32 7), pi_PublicKeys = [KeyEd25519 (replicate 32 7)]\<rparr> = Ok [c']
     \<and> c' \<noteq> c"
proof -
  let ?M = "mdemo []" and ?pid = "\<lparr>pi_ID = bytes_string (18 # replicate 32 7), pi_PublicKeys = [KeyEd25519 (replicate 32 7)]\<rparr>"
  have bytes: "string_bytes (bytes_string b) = b" for b by (rule bytes_string_inj) simp
  have ops: "mh_SHA3_384 ?M = (\<lambda>b. Some (18 # b))" "mh_SHA3_384_B58 ?M = (\<lambda>b. Some (bytes_string (18 # b)))"
    "mh_FromB58String ?M = (\<lambda>s. Some (string_bytes s))" "cid_NewCidV1_Raw ?M = (\<lambda>b. CHR ''c'' # bytes_string b)"
    by (simp_all add: mdemo_def record_defs demo_def)
  have pub: "PublicIdentityOf ?M 0 (Ed25519Identity (replicate 64 7)) = Ok ?pid"
    by (simp add: ed25519_Public_def identityOf_def ops)
  have prov: "provideIdentity ?M (Ed25519Identity (replicate 64 7)) = Ok (CHR ''c'' # bytes_string (18 # replicate 32 7))"
    using pub by (simp add: provideIdentity_def orErr_def ops bytes del: PublicIdentityOf.simps)
  have "findProviders ?M e ?pid = Err (ErrNew ''multihash'')
    \<or> (\<exists>c'. findProviders ?M e ?pid = wrap ''finding recipient provider'' (sd_find e c') \<and> c' \<noteq> CHR ''c'' # bytes_string (18 # replicate 32 7))" for e
    by (rule advertised_not_looked_up [where enc = bytes_string, OF pub prov]) (auto simp: ops bytes dest: bytes_string_inj)
  from this [of "demo_send\<lparr>sd_find := \<lambda>c. Ok [c]\<rparr>"] show ?thesis
    using prov by (auto simp: findProviders_def orErr_def ops)
qed

section \<open>Sending through a node\<close>

text \<open>
  A message that is sent from the command line to a node that started never leaves it: with any
  header no request is made, and to every recipient of a request the answer is an internal error, for
  no node has a resolver.
\<close>

theorem cli_send_never_succeeds:
  assumes "NewNode L M S e E ipfs V home i now opts d = (d', Ok n)"
    and "runEmSend (serve M' env t n) C f = (sent, Ok errs)"
  shows "(ef_header f \<noteq> [] \<longrightarrow> sent = None)
    \<and> (\<forall>req. sent = Some req \<longrightarrow> errs = map (\<lambda>to. ErrNew (''internal error sending to '' @ to)) (ef_to f))"
proof -
  have "n_identityResolver n = None"
    using NewNode_ran [OF assms(1)] by (auto simp: unset_def blankNode_def)
  then have "sendTo M' env (n_identityResolver n) tmpl = (\<lambda>to. [ErrNew (''internal error sending to '' @ to)])" for tmpl
    by (simp add: fun_eq_iff sendTo_def Let_def deref_def)
  then have "errs' = map (\<lambda>to. ErrNew (''internal error sending to '' @ to)) (rq_To req)"
    if "serve M' env t n req = Ok errs'" for req errs'
    using that by (auto simp: serve_def commApi_Send_def Let_def bindr_Ok map_concat comp_def split: result.splits)
  moreover have "rq_To req = ef_to f" if "emRequest C f = Some req" for req
    using that by (auto simp: emRequest_def split: option.splits)
  moreover have "emRequest C f = Some req \<and> serve M' env t n req = Ok errs" if "sent = Some req" for req
    using assms(2) that by (auto simp: runEmSend_def split: option.splits result.splits if_splits)
  moreover have "emRequest C f = None" if "ef_header f \<noteq> []" using that by (simp add: emRequest_def readHeaders_none)
  ultimately show ?thesis by (cases sent) (metis option.distinct(1))+
qed

definition cli_store :: FileStore where
  "cli_store = \<lparr>fs_path = ''ids'', fs_ids = [], fs_idx = [(''me'', Ed25519Identity (replicate 64 7))]\<rparr>"

definition cli_f :: em_flags where
  "cli_f = \<lparr>ef_subject = ''s'', ef_from = ''me'', ef_to = [''x''], ef_header = [], ef_file = [], ef_stdin_split = []\<rparr>"

definition cli_C :: cli_env where
  "cli_C = \<lparr>ce_client = True, ce_stdin = None, ce_file = (\<lambda>_. None), ce_mime = (\<lambda>_. [])\<rparr>"

definition cli_node :: "disk \<times> MemStore HostNode result" where
  "cli_node = NewNode gen_L (mdemo []) (memstore gen_L) demo_env node_E (\<lambda>_ _. Ok (NewMemStore gen_L)) plain_V (Some ''/h'') ''a'' 0
     [WithStorage (NewMemStore gen_L), WithIdentityStore cli_store] demo_disk"

lemma cli_run:
  "case cli_node of
     (d, Ok n) \<Rightarrow> (case runEmSend (serve (mdemo []) (\<lambda>_. demo_send) 0 n) cli_C cli_f of (Some req, Ok errs) \<Rightarrow> True | _ \<Rightarrow> False)
   | _ \<Rightarrow> False"
  by code_simp

theorem cli_send_never_succeeds_witness:
  "\<exists>d n req. cli_node = (d, Ok n)
     \<and> runEmSend (serve (mdemo []) (\<lambda>_. demo_send) 0 n) cli_C cli_f = (Some req, Ok [ErrNew ''internal error sending to x''])"
proof -
  obtain d n req errs where run: "cli_node = (d, Ok n)" "runEmSend (serve (mdemo []) (\<lambda>_. demo_send) 0 n) cli_C cli_f = (Some req, Ok errs)"
  proof -
    obtain d r where node: "cli_node = (d, r)" by fastforce
    obtain n where n: "r = Ok n" using cli_run unfolding node by (cases r) simp_all
    obtain sent ans where run: "runEmSend (serve (mdemo []) (\<lambda>_. demo_send) 0 n) cli_C cli_f = (sent, ans)" by fastforce
    obtain req errs where "sent = Some req" "ans = Ok errs"
      using cli_run unfolding node n prod.case result.case run by (cases sent; cases ans) simp_all
    then show thesis using that node n run by blast
  qed
  from cli_send_never_succeeds [OF run(1) [unfolded cli_node_def] run(2)] have "errs = [ErrNew ''internal error sending to x'']"
    by (simp add: cli_f_def)
  then show ?thesis using run by blast
qed

section \<open>The beacon\<close>

text \<open>
  C36. Over consecutive rounds of the beacon the source never fails, and sends at most one value for each
  ten rounds begun; it sends one for exactly the rounds divisible by ten when a reader always waits.
\<close>

theorem beacon_rate:
  assumes "map fst ticks = map (\<lambda>i. of_nat (r + i)) [0..<k]" and "r + k \<le> 2 ^ 64"
    and "\<forall>t\<in>set ticks. 8 \<le> length (fst (snd t))"
  shows "\<exists>vs. RandomSource ticks = Ok vs \<and> length vs \<le> (k + 9) div 10
    \<and> ((\<forall>t\<in>set ticks. snd (snd t)) \<longrightarrow> length vs = (r + k + 9) div 10 - (r + 9) div 10)"
proof -
  obtain vs where vs: "RandomSource ticks = Ok vs" using RandomSource_total [OF assms(3)] by blast
  show ?thesis
    using div_ticks [of r k] vs RandomSource_length [OF vs] RandomSource_all [OF vs] ticks_count [OF assms(1,2)] by auto
qed

theorem beacon_rate_witness:
  "\<exists>vs. RandomSource (map (\<lambda>i. (of_nat (15 + i), replicate 32 1, True)) [0..<20]) = Ok vs \<and> length vs = 2"
proof -
  have "map fst (map (\<lambda>i. (of_nat (15 + i) :: uint64, replicate 32 1 :: bytes, True)) is) = map (\<lambda>i. of_nat (15 + i)) is"
    and "\<forall>t\<in>set (map (\<lambda>i. (of_nat (15 + i) :: uint64, replicate 32 1 :: bytes, True)) is). 8 \<le> length (fst (snd t))"
    and "\<forall>t\<in>set (map (\<lambda>i. (of_nat (15 + i) :: uint64, replicate 32 1 :: bytes, True)) is). snd (snd t)" for "is"
    by (simp_all add: comp_def)
  note ticks = this
  have "\<exists>vs. RandomSource (map (\<lambda>i. (of_nat (15 + i), replicate 32 1, True)) [0..<20]) = Ok vs \<and> length vs \<le> (20 + 9) div 10
    \<and> ((\<forall>t\<in>set (map (\<lambda>i. (of_nat (15 + i) :: uint64, replicate 32 1 :: bytes, True)) [0..<20]). snd (snd t))
        \<longrightarrow> length vs = (15 + 20 + 9) div 10 - (15 + 9) div 10)"
    by (rule beacon_rate [OF ticks(1) _ ticks(2)]) simp
  then obtain vs where "RandomSource (map (\<lambda>i. (of_nat (15 + i), replicate 32 1, True)) [0..<20]) = Ok vs"
    "length vs = (15 + 20 + 9) div 10 - (15 + 9) div 10" using ticks(3) by blast
  then show ?thesis by (intro exI [of _ vs]) (simp only: conj_absorb, simp)
qed

section \<open>Resolving a DID\<close>

text \<open>
  The resolver never returns a document, whatever the DNS answers: the only method it knows refers
  to other DIDs, and no method yields a document of its own.
\<close>

theorem resolver_finds_nothing:
  assumes "Resolve L D did = Some r"
  shows "\<not> is_Ok r"
  using assms resolveDNS_no_document [of L D 0 did 0]
  by (auto simp: Resolve_def ResolveContext_def split: result.splits if_splits)

definition loop_dns :: dns_env where
  "loop_dns = \<lparr>dn_config = Some ([''s''], ''53''), dn_Exchange = (\<lambda>n s name. Some [RR_Other, RR_URI ''did:dns:a''])\<rparr>"


lemma loop_reference: "reference L loop_dns n did = Ok ref \<Longrightarrow> ref = ''did:dns:a''"
  by (auto simp: reference_def bindr_Ok DNSDIDResolver_Resolve_def loop_dns_def NewDNSDIDResolver_def has_prefix_def Let_def)


theorem resolver_finds_nothing_witness: "\<exists>r. Resolve gen_L loop_dns ''did:dns:b'' = Some r \<and> \<not> is_Ok r"
proof -
  have "\<exists>r. resolveDNS gen_L loop_dns 0 ''did:dns:b'' 0 = Some r"
    by (rule resolveDNS_returns) (auto dest: loop_reference simp: has_prefix_def reference_no_Diverge)
  moreover have "URL_Method gen_L ''did:dns:b'' = Ok ''dns''" by code_simp
  ultimately obtain r where "Resolve gen_L loop_dns ''did:dns:b'' = Some r" by (auto simp: Resolve_def ResolveContext_def)
  from resolver_finds_nothing [OF this] this show ?thesis by blast
qed

end
