(* ===== verification/Identity_Props.thy ===== *)
theory Identity_Props
  imports Comm_Props Node_Laws
begin

text \<open>
  What a node does with the identities of its store: which of them it answers a client with, and under
  which identifiers it provides them on the network. Both rest on the laws of the store's interface.
\<close>

section \<open>A store with one identity\<close>

definition one_id :: string where
  "one_id = bytes_string (18 # replicate 32 7)"

definition one_store :: FileStore where
  "one_store = \<lparr>fs_path = ''ids'', fs_ids = [\<lparr>ifs_Type = ''ed25519'', ifs_Data = CHR ''z'' # bytes_string (replicate 64 7)\<rparr>],
     fs_idx = [(one_id, Ed25519Identity (replicate 64 7))]\<rparr>"

definition one_disk :: disk where
  "one_disk = demo_disk\<lparr>dk_files := [''ids'' \<mapsto> enc_strs [''ed25519'', CHR ''z'' # bytes_string (replicate 64 7)]]\<rparr>"

lemma one_run: "store_run (mdemo msgs) (one_store, one_disk)"
proof (rule store_run.opened)
  let ?L = "mdemo msgs" and ?sk = "replicate 64 7 :: bytes"
  let ?raw = "CHR ''z'' # bytes_string ?sk"
  have raw: "mb_Decode ?L ?raw = Some ?sk" by (rule mdemo_multibase) (simp add: mdemo_def record_defs)
  have "PublicIdentityOf ?L 0 (Ed25519Identity ?sk) = Ok \<lparr>pi_ID = one_id, pi_PublicKeys = [KeyEd25519 (replicate 32 7)]\<rparr>"
    by (simp add: ed25519_Public_def identityOf_def mdemo_def record_defs one_id_def)
  then have "buildIdx ?L [\<lparr>ifs_Type = ''ed25519'', ifs_Data = ?raw\<rparr>] [] = ([(one_id, Ed25519Identity ?sk)], Ok ())"
    using raw by (simp add: decodeType_def del: PublicIdentityOf.simps)
  then show "NewFileStore ?L ''ids'' one_disk = (one_disk, Ok one_store)"
    using mdemo_yaml_roundtrip [of msgs "''ed25519''" ?raw]
    by (simp add: NewFileStore_def FileStore_read_def bindM_def wrapM_def OpenFile_def one_disk_def demo_disk_def lift_def
        one_store_def del: enc_strs.simps buildIdx.simps)
qed

section \<open>Receiving\<close>

text \<open>
  C16. When a server takes an identity for its part of the handshake, it is the one the client's hello
  is addressed to: its public key has the identifier of the first recipient.
\<close>

theorem server_answers_as_recipient:
  assumes "\<And>sk raw. mb_Encode_Base64 M sk = Some raw \<Longrightarrow> mb_Decode M raw = Some sk" and "store_run M (fs, d)"
    and "sh_idStore s = Some (FileStore_Find fs)" and "sh_identity s = None" and "sh_clientHello s = Some hello"
    and "validateClientHello M s = (s', r)" and "sh_identity s' = Some p"
  shows "\<exists>to0 pid. firstTo hello = Ok to0 \<and> PublicIdentityOf M 0 p = Ok pid \<and> pi_ID pid = pi_ID to0"
  by (rule mailfile.server_identity [OF store_run_good [OF assms(1,2)] assms(3-7)])

definition one_server :: "Message list ServerHandler" where
  "one_server = (NewServerHandler (NewRW [] False) (Some []) (Some (FileStore_Find one_store)))
     \<lparr>sh_clientHello := Some (blank_Message\<lparr>msg_To := Some [Some \<lparr>pi_ID = one_id, pi_PublicKeys = []\<rparr>]\<rparr>)\<rparr>"

lemma bind_Panic: "bindM (lift Panic) f s = (s, Panic)"
  by (simp add: bindM_def lift_def)

theorem server_answers_as_recipient_witness:
  "\<exists>p pid. sh_identity (fst (validateClientHello (mdemo []) one_server)) = Some p
     \<and> PublicIdentityOf (mdemo []) 0 p = Ok pid \<and> pi_ID pid = one_id"
proof -
  let ?hello = "blank_Message\<lparr>msg_To := Some [Some \<lparr>pi_ID = one_id, pi_PublicKeys = []\<rparr>]\<rparr>"
  let ?p = "Ed25519Identity (replicate 64 7)"
  have s: "sh_idStore one_server = Some (FileStore_Find one_store)" "sh_identity one_server = None"
    "sh_clientHello one_server = Some ?hello"
    by (simp_all add: one_server_def NewServerHandler_def)
  have run: "validateClientHello (mdemo []) one_server = (one_server\<lparr>sh_identity := Some ?p\<rparr>, Panic)"
    by (simp add: validateClientHello_def inspect_def one_server_def NewServerHandler_def deref_def bind_lift blank_Message_def
        firstTo_def wrapM_lift FileStore_Find_def one_store_def andThen_def bind_modify bind_Panic)
  have "sh_identity (one_server\<lparr>sh_identity := Some ?p\<rparr>) = Some ?p" by simp
  from server_answers_as_recipient [OF mdemo_multibase one_run s run this]
  obtain to0 pid where "firstTo ?hello = Ok to0" "PublicIdentityOf (mdemo []) 0 ?p = Ok pid" "pi_ID pid = pi_ID to0" by blast
  moreover have "firstTo ?hello = Ok \<lparr>pi_ID = one_id, pi_PublicKeys = []\<rparr>" by (simp add: firstTo_def)
  ultimately show ?thesis unfolding run by (auto simp del: PublicIdentityOf.simps)
qed

section \<open>Advertising\<close>

text \<open>
  C15. A round of advertising completes, and provides the content identifiers of exactly those
  identities that can be found in the store and whose identifiers are multihashes.
\<close>

theorem advertises_the_store:
  assumes "\<And>sk raw. mb_Encode_Base64 M sk = Some raw \<Longrightarrow> mb_Decode M raw = Some sk" and "store_run M (fs, d)"
    and "n_idStore n = Some fs" and "\<And>xs. set (ord xs) = set xs"
  shows "\<exists>cs. doAdvertise M ord n = Ok cs
    \<and> set cs = {cid_NewCidV1_Raw M m | i p m. FileStore_Find fs i = Ok p \<and> mh_FromB58String M i = Some m}"
proof -
  have good: "store_good M fs" by (rule store_run_good [OF assms(1,2)])
  obtain cs where cs: "doAdvertise M ord n = Ok cs" "set cs = {c. \<exists>p\<in>snd ` set (fs_idx fs). provideIdentity M p = Ok c}"
    using doAdvertise_provides [OF good assms(3,4)] by blast
  have "set cs = {cid_NewCidV1_Raw M m | i p m. FileStore_Find fs i = Ok p \<and> mh_FromB58String M i = Some m}"
    unfolding cs(2) mailfile.provide_listed [OF good] by blast
  then show ?thesis using cs(1) by blast
qed

theorem advertises_the_store_witness:
  "\<forall>cfg. \<exists>cs. doAdvertise (mdemo []) rev ((blankNode cfg :: MemStore HostNode)\<lparr>n_idStore := Some one_store\<rparr>) = Ok cs
     \<and> set cs = {CHR ''c'' # one_id}"
proof
  fix cfg
  let ?n = "(blankNode cfg :: MemStore HostNode)\<lparr>n_idStore := Some one_store\<rparr>"
  have n: "n_idStore ?n = Some one_store" by simp
  have ops: "mh_FromB58String (mdemo []) = (\<lambda>s. Some (string_bytes s))" "cid_NewCidV1_Raw (mdemo []) = (\<lambda>b. CHR ''c'' # bytes_string b)"
    by (simp_all add: mdemo_def record_defs demo_def)
  have found: "FileStore_Find one_store i = Ok p \<longleftrightarrow> i = one_id \<and> p = Ed25519Identity (replicate 64 7)" for i p
    by (auto simp: FileStore_Find_def one_store_def)
  have ids: "bytes_string (string_bytes one_id) = one_id" by (simp add: one_id_def)
  from advertises_the_store [where M = "mdemo []", OF mdemo_multibase one_run n, where ord = rev]
  show "\<exists>cs. doAdvertise (mdemo []) rev ?n = Ok cs \<and> set cs = {CHR ''c'' # one_id}"
    unfolding ops found using ids by auto
qed

end
