(* ===== verification/Repo_Props.thy ===== *)
theory Repo_Props
  imports IPFS_Repo Node_Props IPFS_Props Identity_Props
begin

text \<open>
  Properties of a node on its own storage: the identity that its network and its storage share, the
  setting up of plugins, and the peers that its storage dials.
\<close>

section \<open>One identity\<close>

text \<open>
  C14. A node that starts with the default options uses one key, that of its identity file, for its host
  and for its storage, and its storage is the IPFS node and the database below the configured path.
\<close>

theorem node_one_identity:
  fixes IE :: "('d, 'n) ipfs_env" and S :: "('d, 'b, 'n) IPFSStorage Store"
  assumes "NewNode L M S e E (\<lambda>ident repo. snd (NewIPFSStorage IE ident repo p0)) V home i now [WithDefaultOptions] d = (d', Ok n)"
  shows "\<exists>cfg b k h st. GetConfig L V home = Ok cfg \<and> dk_files d' (IdentityFile (cfg_p2p cfg)) = Some b
    \<and> ne_UnmarshalPrivateKey E b = Some k \<and> n_p2p n = Some h \<and> ph_identity h = k \<and> n_storage n = Some st
    \<and> (\<exists>kb p p1. ne_MarshalPrivateKey E k = Some kb \<and> ne_IDFromPrivateKey E k = Some p
        \<and> NewIPFSStorage IE \<lparr>PrivKey = ne_base64 E kb, PeerID = p\<rparr> (IpfsRepo (cfg_p2p cfg)) p0 = (p1, Ok st))
    \<and> ie_NewCoreNode IE (filepath_Join (IpfsRepo (cfg_p2p cfg)) ''ipfs'') = Some (is_ipfsNode st)
    \<and> ie_pebble_Open IE (filepath_Join (IpfsRepo (cfg_p2p cfg)) ''metadata'') = Some (is_metadata st)"
proof -
  obtain cfg n1 d1 n2 d2 h where run: "GetConfig L V home = Ok cfg" "openIdStore M (blankNode cfg) d = (d1, Ok n1)"
    "applyOptions E (\<lambda>ident repo. snd (NewIPFSStorage IE ident repo p0)) [WithDefaultOptions] n1 d1 = (d2, Ok n2)"
    "newP2PHost E cfg d2 = (d', Ok h)"
    and hs: "setupStreamHandlers L S e i now (n2\<lparr>n_p2p := Some h, n_drand := True\<rparr>) = Ok n"
    by (rule NewNode_steps [OF assms])
  have cfg: "n_cfg n1 = cfg" using openIdStore_unset [OF run(2)] by (simp add: unset_def blankNode_def)
  from default_options_ran [OF run(3)] cfg obtain b k kb p st where idf: "d2 = d1" "dk_files d1 (IdentityFile (cfg_p2p cfg)) = Some b"
    "ne_UnmarshalPrivateKey E b = Some k" "ne_MarshalPrivateKey E k = Some kb" "ne_IDFromPrivateKey E k = Some p"
    and st: "snd (NewIPFSStorage IE \<lparr>PrivKey = ne_base64 E kb, PeerID = p\<rparr> (IpfsRepo (cfg_p2p cfg)) p0) = Ok st"
    and n2: "n2 = n1\<lparr>n_storage := Some st\<rparr>" by auto
  obtain p1 where ipfs: "NewIPFSStorage IE \<lparr>PrivKey = ne_base64 E kb, PeerID = p\<rparr> (IpfsRepo (cfg_p2p cfg)) p0 = (p1, Ok st)"
    using st by (metis prod.collapse)
  have key: "ph_identity h = k" "d' = d1" using newP2PHost_key [OF run(4)] idf by auto
  have "n_p2p n = Some h" "n_storage n = Some st"
    using hs n2 by (auto simp: setupStreamHandlers_def bindr_Ok)
  then show ?thesis using run(1) idf key ipfs NewIPFSStorage_ran [OF ipfs] by blast
qed

section \<open>Plugins\<close>

lemma andThen_first: "m s = (s', Ok a) \<Longrightarrow> andThen m n s = n s'"
  by (simp add: andThen_def bindM_def)

text \<open>
  When the plugins cannot be set up, opening a storage fails, and only the first time: every later
  one in the process goes on as if they had been set up.
\<close>

theorem plugin_failure_forgotten:
  assumes "\<not> ip_setup s" and "setupPlugins E [] = Err er"
  shows "NewIPFSStorage E ident repo s = (s\<lparr>ip_setup := True\<rparr>, Err (ErrWrap ''opening ipfs block store'' er))
    \<and> NewIPFSStorage E ident' repo' (s\<lparr>ip_setup := True\<rparr>) =
      NewIPFSStorage (E\<lparr>ie_NewPluginLoader := \<lambda>_. True, ie_Initialize := True, ie_Inject := True\<rparr>) ident' repo' s"
proof
  show "NewIPFSStorage E ident repo s = (s\<lparr>ip_setup := True\<rparr>, Err (ErrWrap ''opening ipfs block store'' er))"
    using assms by (simp add: NewIPFSStorage_def ipfsStore_def setupOnce_def andThen_def bindM_def wrapM_def)
  let ?E = "E\<lparr>ie_NewPluginLoader := \<lambda>_. True, ie_Initialize := True, ie_Inject := True\<rparr>"
  have "setupOnce ?E s = (s\<lparr>ip_setup := True\<rparr>, Ok ())" "setupOnce E (s\<lparr>ip_setup := True\<rparr>) = (s\<lparr>ip_setup := True\<rparr>, Ok ())"
    using assms(1) by (simp_all add: setupOnce_def setupPlugins_def need_def)
  moreover have "createRepo ?E = createRepo E" "newIpfsCfg ?E = newIpfsCfg E" "metadataStore ?E = metadataStore E"
    by (simp_all add: createRepo_def [abs_def] newIpfsCfg_def [abs_def] metadataStore_def [abs_def])
  ultimately have "ipfsStore ?E ident' path s = ipfsStore E ident' path (s\<lparr>ip_setup := True\<rparr>)" for path
    by (simp add: ipfsStore_def andThen_first)
  then show "NewIPFSStorage E ident' repo' (s\<lparr>ip_setup := True\<rparr>) = NewIPFSStorage ?E ident' repo' s"
    using \<open>metadataStore ?E = metadataStore E\<close> by (simp add: NewIPFSStorage_def bindM_def [of "wrapM _ (ipfsStore _ _ _)"]) (simp add: wrapM_def)
qed

section \<open>Peers\<close>

text \<open>
  C35. Each peer among the bootstrap addresses is dialled once, with all of its addresses in the order
  they are listed; an address that cannot be read stops all of it.
\<close>

theorem peers_dialled_once:
  assumes "\<And>xs. mset (ord xs) = mset xs"
  shows "case peerAddrs E peers of
      None \<Rightarrow> \<not> is_Ok (connectToPeers ord E peers)
    | Some xs \<Rightarrow> \<exists>ds. connectToPeers ord E peers = Ok ds \<and> distinct (map fst ds)
        \<and> set ds = {(i, addrsOf i xs) | i. i \<in> fst ` set xs}"
proof (cases "peerAddrs E peers")
  case None
  then have "collectPeers E peers [] \<noteq> Ok g" for g using collectPeers_spec [of E peers "[]" g] by auto
  then show ?thesis using None by (simp add: connectToPeers_def is_Ok_iff bindr_Ok)
next
  case (Some xs)
  then obtain g where g: "collectPeers E peers [] = Ok g" using collectPeers_total by blast
  then have spec: "map_of g i = (if i \<in> fst ` set xs then Some (addrsOf i xs) else None)" "distinct (map fst g)" for i
    using collectPeers_spec [OF g] Some by (simp_all add: alist_ok_def)
  have same: "set (ord g) = set g" using assms [of g] by (rule mset_eq_setD)
  have "mset (map fst (ord g)) = mset (map fst g)" using assms [of g] by simp
  then have "distinct (map fst (ord g))" using spec(2) by (metis mset_eq_imp_distinct_iff)
  moreover have "(i, v) \<in> set g \<longleftrightarrow> i \<in> fst ` set xs \<and> v = addrsOf i xs" for i v
    using map_of_eq_Some_iff [OF spec(2), of i v] spec(1) [of i]
    by (cases "i \<in> fst ` set xs") (simp_all only: if_True if_False option.inject option.distinct simp_thms eq_commute [of v])
  then have "set (ord g) = {(i, addrsOf i xs) | i. i \<in> fst ` set xs}" unfolding same by auto
  ultimately show ?thesis using Some g by (simp add: connectToPeers_def)
qed

text \<open>An IPFS node and a database that can be opened, with two peers, one of them under two addresses.\<close>

definition repo_E :: "((bytes \<times> bytes) list, (cid \<times> bytes) list) ipfs_env" where
  "repo_E =
     \<lparr>ie_NewPluginLoader = (\<lambda>_. False), ie_Initialize = True, ie_Inject = True, ie_StatFails = (\<lambda>_. False), ie_Mkdir = (\<lambda>_. True),
      ie_InitWithIdentity = (\<lambda>_. True), ie_fsrepo_Init = (\<lambda>_ _. True), ie_fsrepo_Open = (\<lambda>_. True), ie_NewCoreNode = (\<lambda>_. Some []),
      ie_NewCoreAPI = (\<lambda>_. True), ie_pebble_Open = (\<lambda>_. Some []), ie_Multiaddr = Some,
      ie_AddrInfoFromP2pAddr = (\<lambda>a. if a = [] then None else Some ([hd a], [tl a]))\<rparr>"

lemma repo_pebble: "ie_pebble_Open repo_E = (\<lambda>_. Some [])"
  by (simp add: repo_E_def)

definition fresh_proc :: ipfs_proc where
  "fresh_proc = \<lparr>ip_setup = False, ip_dirs = [], ip_running = []\<rparr>"

theorem peers_dialled_once_witness:
  "\<exists>ds. connectToPeers rev repo_E [''a1'', ''b2'', ''a3''] = Ok ds \<and> distinct (map fst ds)
     \<and> set ds = {(''a'', [''1'', ''3'']), (''b'', [''2''])}"
proof -
  let ?xs = "[(''a'', [''1'']), (''b'', [''2'']), (''a'', [''3''])]"
  have xs: "peerAddrs repo_E [''a1'', ''b2'', ''a3''] = Some ?xs" by (simp add: repo_E_def)
  have "addrsOf ''a'' ?xs = [''1'', ''3'']" "addrsOf ''b'' ?xs = [''2'']" by simp_all
  moreover have "{(i, addrsOf i ?xs) | i. i \<in> fst ` set ?xs} = (\<lambda>i. (i, addrsOf i ?xs)) ` {''a'', ''b''}"
    unfolding list.set image_insert image_empty fst_conv by blast
  ultimately have dialled: "{(i, addrsOf i ?xs) | i. i \<in> fst ` set ?xs} = {(''a'', [''1'', ''3'']), (''b'', [''2''])}"
    by (simp only: image_insert image_empty)
  show ?thesis
    using peers_dialled_once [of rev repo_E "[''a1'', ''b2'', ''a3'']"] unfolding xs option.case dialled mset_rev by blast
qed

theorem plugin_failure_forgotten_witness:
  "\<not> is_Ok (snd (NewIPFSStorage repo_E \<lparr>PrivKey = [], PeerID = []\<rparr> ''/r'' fresh_proc :: ipfs_proc \<times> (_, (bytes \<times> bytes option) list, _) IPFSStorage result))
   \<and> is_Ok (snd (NewIPFSStorage repo_E \<lparr>PrivKey = [], PeerID = []\<rparr> ''/r'' (fresh_proc\<lparr>ip_setup := True\<rparr>) :: ipfs_proc \<times> (_, (bytes \<times> bytes option) list, _) IPFSStorage result))"
proof -
  obtain er where er: "setupPlugins repo_E [] = Err er"
    by (simp add: setupPlugins_def repo_E_def need_def)
  have "\<not> ip_setup fresh_proc" by (simp add: fresh_proc_def)
  from plugin_failure_forgotten [OF this er] show ?thesis
    by (simp add: is_Ok_iff) (simp add: repo_E_def fresh_proc_def NewIPFSStorage_def ipfsStore_def setupOnce_def setupPlugins_def
        createRepo_def newIpfsCfg_def metadataStore_def andThen_def bindM_def wrapM_def inspect_def modify_def lift_def ret_def
        whenM_def need_def orErr_def Let_def)
qed

text \<open>A disk with an identity file, and a node on it.\<close>

definition key_disk :: disk where
  "key_disk = demo_disk\<lparr>dk_files := [''/h/.didem/p2p_identity'' \<mapsto> [1]]\<rparr>"

definition repo_node ::
    "((bytes \<times> bytes) list, (bytes \<times> bytes option) list, (cid \<times> bytes) list) IPFSStorage Store
       \<Rightarrow> disk \<times> ((bytes \<times> bytes) list, (bytes \<times> bytes option) list, (cid \<times> bytes) list) IPFSStorage HostNode result" where
  "repo_node S = NewNode gen_L (mdemo []) S demo_env node_E
     (\<lambda>ident repo. snd (NewIPFSStorage repo_E ident repo (fresh_proc\<lparr>ip_setup := True\<rparr>))) plain_V (Some ''/h'') ''a'' 0 [WithDefaultOptions] key_disk"

lemma repo_run: "case repo_node S of (d, Ok n) \<Rightarrow> True | _ \<Rightarrow> False"
  by code_simp

theorem node_one_identity_witness:
  "\<exists>d n h st. repo_node (ipfsstore (idemo demo_L') (\<lambda>_. False)) = (d, Ok n) \<and> n_p2p n = Some h \<and> n_storage n = Some st \<and> is_metadata st = []"
proof -
  let ?S = "ipfsstore (idemo demo_L') (\<lambda>_. False)"
  obtain d n where run: "repo_node ?S = (d, Ok n)"
  proof -
    obtain d r where eq: "repo_node ?S = (d, r)" by (rule prod.exhaust)
    show thesis using repo_run [of ?S] that [of d] unfolding eq by (cases r) simp_all
  qed
  from node_one_identity [OF run [unfolded repo_node_def]] obtain path h st where st: "n_p2p n = Some h" "n_storage n = Some st"
    "ie_pebble_Open repo_E path = Some (is_metadata st)"
    by (elim exE conjE) (rule that, assumption+)
  have m: "is_metadata st = []" using st(3) by (simp add: repo_pebble)
  show ?thesis by (rule exI [of _ d], rule exI [of _ n], rule exI [of _ h], rule exI [of _ st], rule conjI [OF run], rule conjI [OF st(1)], rule conjI [OF st(2) m])
qed

end
