(* ===== verification/Spec2Isabelle.thy ===== *)
theory Spec2Isabelle
  imports Consensus_Props IPFS_Props Handler_Props Repo_Props
begin

text \<open>
  Verification of the decentralised identity node \<^verbatim>\<open>didem\<close>.

  \<^bold>\<open>The program.\<close>

  A node keeps a chain of blocks whose transactions register, change and revoke DID documents and name
  the nodes of the network. The nodes agree on blocks by rounds of votes in the manner of Tendermint:
  the proposer of a round is picked by a random beacon, broadcasts a block made from its pool of pending
  transactions, collects prevotes and precommits, and sends the block with the aggregated signatures.
  Blocks, their transaction sets (Merkle trees) and transactions are kept in a store under the identifiers
  of their contents, in memory or in IPFS with indices in a Pebble database. A node that starts asks its
  peers for their tip and replays the blocks it lacks. Beside the chain, identities of a local store
  exchange signed messages over framed streams. A configuration, a command line, an API and a generator
  of genesis files complete the program.

  \<^bold>\<open>Conventions.\<close>

  A call returns a value of type \<^verbatim>\<open>result\<close>: a value, an error with its wrapping, a panic, or no return at
  all. A method on mutable state is a function from the state to the new state and such a result
  (\<^verbatim>\<open>op\<close>), also when it fails, so that what is left behind by an error path is part of the model.
  Goroutines that only spread independent work are sequences; where Go leaves an order open (the range
  over a map, the arrival of messages, the chunks of a network stream) it is an argument and the theorems
  hold for every choice. Machine integers are words. Third-party code (CIDs, multihash, multibase,
  msgpack, protobuf, YAML, bloom filters, BLS and the other signature schemes, Pebble, IPFS, libp2p,
  drand, DNS, viper) is a record of functions, \<^verbatim>\<open>lib\<close> and its extensions \<^verbatim>\<open>clib\<close>, \<^verbatim>\<open>ilib\<close>, \<^verbatim>\<open>plib\<close>, \<^verbatim>\<open>nlib\<close>,
  \<^verbatim>\<open>idlib\<close>, \<^verbatim>\<open>mlib\<close> and the environments of the later theories; what is relied on of it is a hypothesis of
  the theorem that needs it, and \<^verbatim>\<open>Demo_Lib\<close>, \<^verbatim>\<open>Demo_Net\<close>, \<^verbatim>\<open>mdemo\<close>, \<^verbatim>\<open>idemo\<close> and \<^verbatim>\<open>gen_L\<close> are concrete choices
  at which these hypotheses hold together.

  \<^bold>\<open>Theories and sources.\<close>

  \<^item> \<^verbatim>\<open>Didem_Prelude\<close>: outcomes of calls, state operations and their rules (\<^verbatim>\<open>keeps_intros\<close>), association
    lists for Go maps, encodings of words; \<^verbatim>\<open>pkg/storage/errors.go\<close>.
  \<^item> \<^verbatim>\<open>Tx_Model\<close>, \<^verbatim>\<open>W3c_Did\<close>: \<^verbatim>\<open>pkg/tx\<close>, \<^verbatim>\<open>pkg/cryptography\<close> and \<^verbatim>\<open>pkg/did/w3cdid\<close>: transactions with their
    two-pass decoding, DID URLs over the parser of \<^verbatim>\<open>net/url\<close>, documents, their validity and signatures.
  \<^item> \<^verbatim>\<open>GoHeap\<close>, \<^verbatim>\<open>MemPool_Model\<close>: \<^verbatim>\<open>container/heap\<close> and \<^verbatim>\<open>pkg/did/consensus/mempool.go\<close>, with the locale
    \<^verbatim>\<open>MemPool\<close> for what a pool promises and its interpretation on the heap.
  \<^item> \<^verbatim>\<open>Store_Chain\<close>, \<^verbatim>\<open>Set_Traversal\<close>, \<^verbatim>\<open>TxSet_Tree\<close>: \<^verbatim>\<open>pkg/storage/chain.go\<close>, \<^verbatim>\<open>bloom.go\<close>, \<^verbatim>\<open>storage.go\<close>: blocks,
    the building of a transaction set and its traversal; the locale \<^verbatim>\<open>SetStore\<close> holds the laws of a store
    that the builder relies on.
  \<^item> \<^verbatim>\<open>MemStore_Model\<close>, \<^verbatim>\<open>MemStore_Laws\<close>: \<^verbatim>\<open>pkg/storage/memstore.go\<close>, every method, its invariant, and the
    interpretation of \<^verbatim>\<open>SetStore\<close>.
  \<^item> \<^verbatim>\<open>Validator_Model\<close>, \<^verbatim>\<open>Validator_Laws\<close>: \<^verbatim>\<open>pkg/storage/validator.go\<close>.
  \<^item> \<^verbatim>\<open>Consensus_Types\<close>, \<^verbatim>\<open>Consensus_Model\<close>: \<^verbatim>\<open>pkg/did/consensus\<close> and \<^verbatim>\<open>internal/utils/resync\<close>: messages, state,
    every handler, timeout and sender, and the step relation \<^verbatim>\<open>cstep\<close> of a node. \<^verbatim>\<open>Consensus_Laws\<close> has the
    invariant of a node, \<^verbatim>\<open>Consensus_Rounds\<close> and \<^verbatim>\<open>Consensus_Follower\<close> the arithmetic of the threshold and
    the course of a round, \<^verbatim>\<open>Block_Build\<close> the making of a block.
  \<^item> \<^verbatim>\<open>IPFS_Model\<close>, \<^verbatim>\<open>IPFS_Laws\<close>: the methods of the store of \<^verbatim>\<open>internal/storage/ipfs.go\<close>, with its metadata as
    one map. \<^verbatim>\<open>IPFS_Repo\<close>: the opening of it, with plugins, repository, database and bootstrap peers.
  \<^item> \<^verbatim>\<open>Stream_Model\<close>, \<^verbatim>\<open>Did_Handler\<close>: \<^verbatim>\<open>internal/stream/stream.go\<close>, \<^verbatim>\<open>internal/did/handler.go\<close> and the start of
    the handler in \<^verbatim>\<open>internal/node/streams.go\<close>: frames, requests for tips, catching up, starting.
  \<^item> \<^verbatim>\<open>Identity_Model\<close>: \<^verbatim>\<open>pkg/did/publicIdentity.go\<close>, \<^verbatim>\<open>pkg/did/privateIdentity.go\<close>, \<^verbatim>\<open>internal/did/fileStore.go\<close>;
    the locale \<^verbatim>\<open>identity_store\<close> holds what users of a store rely on, and is interpreted on the file store.
  \<^item> \<^verbatim>\<open>Comm_Model\<close>, \<^verbatim>\<open>Comm_Laws\<close>: \<^verbatim>\<open>pkg/comm\<close>, \<^verbatim>\<open>internal/comm\<close> and \<^verbatim>\<open>internal/api/comm.go\<close>: the handshake, the
    sending and receiving of messages and the API; the locale \<^verbatim>\<open>mail_store\<close> extends \<^verbatim>\<open>identity_store\<close> for
    the users in this part.
  \<^item> \<^verbatim>\<open>Resolver_Model\<close>: \<^verbatim>\<open>pkg/did/resolver\<close>. \<^verbatim>\<open>Config_Model\<close>: \<^verbatim>\<open>internal/config\<close>. \<^verbatim>\<open>Node_Model\<close>, \<^verbatim>\<open>Node_Laws\<close>:
    \<^verbatim>\<open>internal/node\<close>. \<^verbatim>\<open>Cli_Model\<close>: \<^verbatim>\<open>internal/cli/em.go\<close> and \<^verbatim>\<open>daemon.go\<close>. \<^verbatim>\<open>Genesis_Model\<close>:
    \<^verbatim>\<open>scripts/gengen/gen.go\<close>.
  \<^item> \<^verbatim>\<open>Storage_Props\<close>, \<^verbatim>\<open>Did_Props\<close>, \<^verbatim>\<open>Validator_Props\<close>, \<^verbatim>\<open>Consensus_Props\<close>, \<^verbatim>\<open>IPFS_Props\<close>, \<^verbatim>\<open>Handler_Props\<close>,
    \<^verbatim>\<open>Comm_Props\<close>, \<^verbatim>\<open>Identity_Props\<close>, \<^verbatim>\<open>Genesis_Props\<close>, \<^verbatim>\<open>Node_Props\<close>, \<^verbatim>\<open>Repo_Props\<close>: the properties.

  \<^bold>\<open>What is shown.\<close>

  \<^item> Storage: a transaction set is a perfect tree over the sorted identifiers and reads back as exactly the
    transactions it was built from; its traversal ends on every stored content, cycles included; what was
    put is read back after any further methods; the in-memory store keeps its invariant; on IPFS an
    accepted block is indexed, and a test store never writes the database it shares.
  \<^item> Documents and validation: validity of documents and signatures as equivalences, DID URLs read back,
    what an accepted transaction and an accepted block satisfy.
  \<^item> Consensus: the votes of a reachable node are of its round and one per peer, a lock, an ended vote and
    a commit are backed by more than the threshold; thresholds intersect; the committed chain refines an
    append-only ledger; only authenticated messages have an effect, and what a node publishes is accepted;
    a follower commits when the votes come in; a made block holds the oldest transactions of the pool.
  \<^item> Joining: what of a message a frame carries, what a request for a tip returns, when the consensus of a
    node starts and when it never does.
  \<^item> Identities and messages: a store holds Ed25519 keys under their own identifiers and finds them again
    after it is opened again; a server answers as the recipient; advertising provides exactly the
    identities of the store; no handshake succeeds, because a signature is cleared before it is verified.
  \<^item> Nodes: one persistent key for network and storage, the dialling of peers, the rate of the beacon, the
    end of a resolution, the genesis read back from what the generator prints; a first start that fails,
    and a proposer that never sends its block.
  \<^item> Theorems without a number describe further behaviour, mostly where the code does not do what it
    means to.

  \<^bold>\<open>Bounds and fuel.\<close>

  No definition has fuel. Loops that may not return are \<^verbatim>\<open>partial_function (option)\<close>, where \<^verbatim>\<open>None\<close> is not
  returning: the traversal of a set (\<^verbatim>\<open>allTx_loop\<close>), the walk back to the last applied block
  (\<^verbatim>\<open>fetch_blocks\<close>), the attempts of a node to start (\<^verbatim>\<open>waitPeers\<close>, \<^verbatim>\<open>Handler_Start\<close>, \<^verbatim>\<open>startDid\<close>) and the
  resolution of references (\<^verbatim>\<open>resolveDNS\<close>). The theorems about them state that they return, with what, or
  that they never do. The bounds of the sources (1000 transactions of a set and of a block, frames of 4096 bytes, ten
  rounds of the beacon, five references) are constants of the definitions.

  \<^bold>\<open>Not modelled.\<close>

  \<^item> Generated code (\<^verbatim>\<open>api/*.pb.go\<close>), gRPC and its server (\<^verbatim>\<open>internal/api/api.go\<close>, \<^verbatim>\<open>grpc.go\<close>, \<^verbatim>\<open>client.go\<close>,
    \<^verbatim>\<open>p2p.go\<close>), the registration of commands (\<^verbatim>\<open>cmd\<close>, \<^verbatim>\<open>internal/cli/cli.go\<close>, \<^verbatim>\<open>cmds.go\<close>, \<^verbatim>\<open>p2p.go\<close>), logging
    (\<^verbatim>\<open>internal/utils/logging\<close>) and the coin of \<^verbatim>\<open>internal/coinflip\<close>: calls of libraries and output. The
    coin's outcomes are an argument of the IPFS store.
  \<^item> The inside of the libraries named above: parameters. So is the generation of keys in
    \<^verbatim>\<open>pkg/cryptography\<close> and \<^verbatim>\<open>pkg/did/privateIdentity.go\<close>.
  \<^item> Time: a timeout is a step that may happen whenever its timer runs; clocks are arguments. Interleaving
    inside a handler is not modelled, handlers of one node run one at a time, as under its lock.
  \<^item> \<^verbatim>\<open>watchEvents\<close> and \<^verbatim>\<open>Stop\<close> of \<^verbatim>\<open>internal/node/node.go\<close>, which log events and close the storage, and
    \<^verbatim>\<open>tests/plans\<close>, a program of a test framework.
\<close>

end
